(* ===== verification/Prelude.thy ===== *)
theory Prelude
  imports Complex_Main "HOL-Library.Product_Lexorder" "HOL-Library.Multiset" "HOL-Library.Word"
begin

text \<open>
  Shared vocabulary of the development: the Go types the gateway uses, the SQL clauses
  its queries are written with, and the list lemmas the components need.

  \<^item> \<open>gotime\<close> and \<open>duration\<close> are Go's \<open>time.Time\<close> and
    \<open>time.Duration\<close>, counted in nanoseconds (the former from the Unix epoch).
    \<open>millis\<close> is what the fixed-width layout \<open>2006-01-02T15:04:05.000Z\<close>
    keeps of an instant. Every timestamp column of the gateway's tables is written with that
    layout, so SQLite's text comparison of two columns is the comparison of the two counts
    of milliseconds, and the model stores the count.
  \<^item> \<open>sql_limit\<close> is SQL's LIMIT clause and the locale \<open>sql_order\<close>
    is what its ORDER BY clause promises: a rearrangement of the rows that is sorted by the
    key. Rows with equal keys come in no promised order, so every operation of the model that
    runs an ordered query takes the ordering as an argument.
\<close>

section \<open>Go and SQL vocabulary\<close>

type_synonym gotime = int
type_synonym duration = int
type_synonym byte = "8 word"

named_theorems model_defs \<open>unfolding rules of the model's operations\<close>
named_theorems inv_intros \<open>preservation rules of the model's invariants\<close>

definition nanosecond :: duration where "nanosecond = 1"
definition millisecond :: duration where "millisecond = 1000000"
definition second :: duration where "second = 1000000000"

definition zero_time :: gotime where
  \<comment> \<open>the zero \<open>time.Time\<close>, 0001-01-01T00:00:00Z\<close>
  "zero_time = - 62135596800 * second"

definition wrap64 :: "int \<Rightarrow> int" where
  \<comment> \<open>the \<open>int64\<close> of an unbounded result\<close>
  "wrap64 x = (x + 2 ^ 63) mod 2 ^ 64 - 2 ^ 63"

lemma wrap64_id: "- 9223372036854775808 \<le> x \<Longrightarrow> x < 9223372036854775808 \<Longrightarrow> wrap64 x = x"
  unfolding wrap64_def by (subst mod_pos_pos_trivial) simp_all

definition millis :: "gotime \<Rightarrow> int" where
  "millis t = t div millisecond"

definition sql_limit :: "int \<Rightarrow> 'a list \<Rightarrow> 'a list" where
  \<comment> \<open>a negative LIMIT means no limit\<close>
  "sql_limit n xs = (if n < 0 then xs else take (nat n) xs)"

fun show_nat :: "nat \<Rightarrow> string" where
  "show_nat n = (if n < 10 then [char_of (48 + n)] else show_nat (n div 10) @ [char_of (48 + n mod 10)])"

declare show_nat.simps [simp del]

definition show_int :: "int \<Rightarrow> string" where
  \<comment> \<open>the verb \<open>%d\<close> of \<open>fmt\<close>\<close>
  "show_int i = (if i < 0 then CHR ''-'' # show_nat (nat (- i)) else show_nat (nat i))"

text \<open>A statement of a database transaction can fail (the disk is full, the database is locked,
  the context is cancelled). An operation of the model takes the failure as an argument: the
  stage at which the driver reports it and the message.\<close>

datatype stage = AtBegin | AtPrepare | AtQuery nat | AtExec nat | AtLastId | AtCommit

type_synonym fault = "(stage \<times> string) option"

definition fault_at :: "stage \<Rightarrow> fault \<Rightarrow> string option" where
  "fault_at s f = (case f of None \<Rightarrow> None | Some (s', m) \<Rightarrow> if s = s' then Some m else None)"

lemma fault_at_None [simp]: "fault_at s None = None"
  by (simp add: fault_at_def)

section \<open>List lemmas\<close>

lemma set_sql_limit_subset: "set (sql_limit n xs) \<subseteq> set xs"
  by (auto simp: sql_limit_def dest: in_set_takeD)

lemma length_sql_limit: "0 \<le> n \<Longrightarrow> length (sql_limit n xs) \<le> nat n"
  by (simp add: sql_limit_def)

lemma length_sql_limit_le: "length (sql_limit n xs) \<le> length xs"
  by (simp add: sql_limit_def)

lemma distinct_sql_limit: "distinct xs \<Longrightarrow> distinct (sql_limit n xs)"
  by (simp add: sql_limit_def)

lemma distinct_map_sql_limit: "distinct (map f xs) \<Longrightarrow> distinct (map f (sql_limit n xs))"
  by (simp add: sql_limit_def take_map [symmetric])

lemma sorted_map_sql_limit: "sorted (map f xs) \<Longrightarrow> sorted (map f (sql_limit n xs))"
  by (simp add: sql_limit_def take_map [symmetric] sorted_wrt_take)

lemma sql_limit_full:
  assumes "length xs \<le> nat n \<or> n < 0"
  shows "sql_limit n xs = xs"
  using assms by (auto simp: sql_limit_def)

text \<open>Inside a sorted list, a kept element never has a larger key than a cut one.\<close>

lemma sorted_take_le_drop:
  assumes "sorted (map k xs)" "x \<in> set (take n xs)" "y \<in> set (drop n xs)"
  shows "k x \<le> k y"
proof -
  have "sorted (map k (take n xs) @ map k (drop n xs))"
    using assms(1) by (metis append_take_drop_id map_append)
  with assms(2,3) show ?thesis by (auto simp: sorted_append)
qed

lemma sorted_sql_limit_le_rest:
  assumes "sorted (map k xs)" "x \<in> set (sql_limit n xs)"
    and "y \<in> set xs" "y \<notin> set (sql_limit n xs)"
  shows "k x \<le> k y"
proof -
  from assms(3,4) have "\<not> n < 0" by (auto simp: sql_limit_def)
  moreover from assms(3,4) this have "y \<in> set (drop (nat n) xs)"
    by (metis Un_iff append_take_drop_id set_append sql_limit_def)
  ultimately show ?thesis
    using sorted_take_le_drop [OF assms(1)] assms(2) by (auto simp: sql_limit_def)
qed

lemma distinct_map_same:
  "distinct (map f xs) \<Longrightarrow> x \<in> set xs \<Longrightarrow> y \<in> set xs \<Longrightarrow> f x = f y \<Longrightarrow> x = y"
  by (metis distinct_map inj_onD)

lemma set_eq_of_mset: "mset xs = mset ys \<Longrightarrow> set xs = set ys"
  by (metis set_mset_mset)

section \<open>What ORDER BY promises\<close>

locale sql_order =
  fixes order_by :: "('r \<Rightarrow> 'k::linorder) \<Rightarrow> 'r list \<Rightarrow> 'r list"
  assumes mset_order_by: "mset (order_by k xs) = mset xs"
    and sorted_order_by: "sorted (map k (order_by k xs))"
begin

lemma set_order_by: "set (order_by k xs) = set xs"
  by (rule set_eq_of_mset) (rule mset_order_by)

lemma length_order_by: "length (order_by k xs) = length xs"
  using mset_order_by [of k xs] by (metis size_mset)

lemma distinct_map_order_by: "distinct (map f (order_by k xs)) = distinct (map f xs)"
  using mset_order_by [of k xs] by (metis mset_eq_imp_distinct_iff mset_map)

lemma limit_subset: "set (sql_limit n (order_by k xs)) \<subseteq> set xs"
  using set_sql_limit_subset set_order_by by metis

lemma limit_sorted: "sorted (map k (sql_limit n (order_by k xs)))"
  by (intro sorted_map_sql_limit sorted_order_by)

lemma limit_best:
  assumes "x \<in> set (sql_limit n (order_by k xs))"
    and "y \<in> set xs" "y \<notin> set (sql_limit n (order_by k xs))"
  shows "k x \<le> k y"
  using sorted_sql_limit_le_rest [OF sorted_order_by assms(1)] assms(2,3) set_order_by by blast

lemma limit_distinct: "distinct (map f xs) \<Longrightarrow> distinct (map f (sql_limit n (order_by k xs)))"
  by (intro distinct_map_sql_limit) (simp add: distinct_map_order_by)

lemma limit_all:
  assumes "int (length xs) \<le> n"
  shows "set (sql_limit n (order_by k xs)) = set xs"
  using assms by (simp add: sql_limit_full length_order_by set_order_by)

lemma limit_length:
  assumes "0 \<le> n"
  shows "length (sql_limit n (order_by k xs)) = min (nat n) (length xs)"
  using assms by (simp add: sql_limit_def length_order_by min.commute)

end

text \<open>A stable sort by key is one admissible ordering.\<close>

interpretation stable: sql_order "sort_key :: ('r \<Rightarrow> 'k::linorder) \<Rightarrow> 'r list \<Rightarrow> 'r list"
  by unfold_locales simp_all

end
