(* ===== verification/GoFloat.thy ===== *)
theory GoFloat
  imports Prelude
begin

text \<open>
  Go's \<open>float64\<close> as far as the gateway computes with it: IEEE 754 binary64 values, the
  conversions from integers and from register bit patterns, multiplication, addition and the
  fused multiply-add a Go compiler may substitute for \<open>x*y + z\<close> (it does on
  arm64, the gateway's target), and the finiteness test that decides whether
  \<open>encoding/json\<close> can marshal a value.

  \<open>Fin s m e\<close> is \<open>(-1)^s * m * 2^e\<close>; NaN payloads are not kept. Results
  are always canonical (\<open>f64_wf\<close>), and an exact result is returned unrounded.
\<close>

section \<open>Values\<close>

datatype f64 = NaN | Inf bool | Fin bool nat int

definition f64_zero :: f64 where "f64_zero = Fin False 0 (-1074)"
definition f64_one :: f64 where "f64_one = Fin False (2 ^ 52) (-52)"

fun is_finite :: "f64 \<Rightarrow> bool" where
  "is_finite (Fin _ _ _) = True"
| "is_finite _ = False"

fun is_zero :: "f64 \<Rightarrow> bool" where
  "is_zero (Fin _ m _) = (m = 0)"
| "is_zero _ = False"

definition canonical :: "nat \<Rightarrow> int \<Rightarrow> bool" where
  "canonical m e \<longleftrightarrow> m < 2 ^ 53 \<and> -1074 \<le> e \<and> e \<le> 971 \<and> (2 ^ 52 \<le> m \<or> e = -1074)"

fun f64_wf :: "f64 \<Rightarrow> bool" where
  "f64_wf (Fin _ m e) = canonical m e"
| "f64_wf _ = True"

fun rval :: "f64 \<Rightarrow> real" where
  "rval (Fin s m e) = (if s then -1 else 1) * real m * 2 powi e"
| "rval _ = 0"

section \<open>Rounding to nearest, ties to even\<close>

fun bitlen :: "nat \<Rightarrow> nat" where
  "bitlen n = (if n = 0 then 0 else Suc (bitlen (n div 2)))"

declare bitlen.simps [simp del]

definition round_even :: "nat \<Rightarrow> nat \<Rightarrow> nat" where
  \<comment> \<open>\<open>m / 2^k\<close> to the nearest integer, ties to even; \<open>0 < k\<close>\<close>
  "round_even m k =
     (let q = m div 2 ^ k; r = m mod 2 ^ k; half = 2 ^ (k - 1)
      in if half < r \<or> (r = half \<and> odd q) then q + 1 else q)"

definition f64_round :: "bool \<Rightarrow> nat \<Rightarrow> int \<Rightarrow> f64" where
  "f64_round s m e =
     (if m = 0 then Fin s 0 (-1074)
      else
        (let e' = max (e + int (bitlen m) - 53) (-1074);
             q = (if e' \<le> e then m * 2 ^ nat (e - e') else round_even m (nat (e' - e)));
             (q', e'') = (if q = 2 ^ 53 then (2 ^ 52, e' + 1) else (q, e'))
         in if 971 < e'' then Inf s else Fin s q' e''))"

section \<open>Conversions\<close>

definition f64_of_int :: "int \<Rightarrow> f64" where
  "f64_of_int n = f64_round (n < 0) (nat \<bar>n\<bar>) 0"

definition float64frombits :: "64 word \<Rightarrow> f64" where
  "float64frombits w =
     (let s = bit w 63;
          ex = unat (take_bit 11 (drop_bit 52 w));
          fr = unat (take_bit 52 w)
      in if ex = 2047 then (if fr = 0 then Inf s else NaN)
         else if ex = 0 then Fin s fr (-1074)
         else Fin s (2 ^ 52 + fr) (int ex - 1075))"

definition float32frombits :: "32 word \<Rightarrow> f64" where
  \<comment> \<open>the binary32 value, widened to \<open>float64\<close> (always exact)\<close>
  "float32frombits w =
     (let s = bit w 31;
          ex = unat (take_bit 8 (drop_bit 23 w));
          fr = unat (take_bit 23 w)
      in if ex = 255 then (if fr = 0 then Inf s else NaN)
         else if ex = 0 then f64_round s fr (-149)
         else f64_round s (2 ^ 23 + fr) (int ex - 150))"

section \<open>Arithmetic\<close>

fun f64_mul :: "f64 \<Rightarrow> f64 \<Rightarrow> f64" where
  "f64_mul NaN _ = NaN"
| "f64_mul _ NaN = NaN"
| "f64_mul (Inf s) (Inf t) = Inf (s \<noteq> t)"
| "f64_mul (Inf s) (Fin t m e) = (if m = 0 then NaN else Inf (s \<noteq> t))"
| "f64_mul (Fin s m e) (Inf t) = (if m = 0 then NaN else Inf (s \<noteq> t))"
| "f64_mul (Fin s m e) (Fin t n d) = f64_round (s \<noteq> t) (m * n) (e + d)"

text \<open>The sum of two finite values, computed exactly on the smaller exponent and rounded once;
  an exact zero sum is negative only when both operands are.\<close>

definition f64_add_fin :: "bool \<Rightarrow> nat \<Rightarrow> int \<Rightarrow> bool \<Rightarrow> nat \<Rightarrow> int \<Rightarrow> f64" where
  "f64_add_fin s m e t n d =
     (let l = min e d;
          a = (if s then -1 else 1) * int (m * 2 ^ nat (e - l));
          b = (if t then -1 else 1) * int (n * 2 ^ nat (d - l))
      in if a + b = 0 then Fin (s \<and> t) 0 (-1074)
         else f64_round (a + b < 0) (nat \<bar>a + b\<bar>) l)"

fun f64_add :: "f64 \<Rightarrow> f64 \<Rightarrow> f64" where
  "f64_add NaN _ = NaN"
| "f64_add _ NaN = NaN"
| "f64_add (Inf s) (Inf t) = (if s = t then Inf s else NaN)"
| "f64_add (Inf s) (Fin _ _ _) = Inf s"
| "f64_add (Fin _ _ _) (Inf t) = Inf t"
| "f64_add (Fin s m e) (Fin t n d) = f64_add_fin s m e t n d"

fun f64_fma :: "f64 \<Rightarrow> f64 \<Rightarrow> f64 \<Rightarrow> f64" where
  \<comment> \<open>\<open>x*y + z\<close> rounded once\<close>
  "f64_fma (Fin s m e) (Fin t n d) (Fin u k f) = f64_add_fin (s \<noteq> t) (m * n) (e + d) u k f"
| "f64_fma x y z = f64_add (f64_mul x y) z"

fun f64_div :: "f64 \<Rightarrow> f64 \<Rightarrow> f64" where
  "f64_div NaN _ = NaN"
| "f64_div _ NaN = NaN"
| "f64_div (Inf s) (Inf t) = NaN"
| "f64_div (Inf s) (Fin t m e) = Inf (s \<noteq> t)"
| "f64_div (Fin s m e) (Inf t) = Fin (s \<noteq> t) 0 (-1074)"
| "f64_div (Fin s m e) (Fin t n d) =
     (if n = 0 then (if m = 0 then NaN else Inf (s \<noteq> t))
      else
        \<comment> \<open>64 more bits than the quotient needs, and a bit for what is cut off\<close>
        (let k = 64 + bitlen n; q = m * 2 ^ k div n; r = m * 2 ^ k mod n
         in f64_round (s \<noteq> t) (2 * q + (if r = 0 then 0 else 1)) (e - d - int k - 1)))"

section \<open>Bit lengths\<close>

lemma bitlen_bounds: "0 < n \<Longrightarrow> 2 ^ (bitlen n - 1) \<le> n \<and> n < 2 ^ bitlen n \<and> 0 < bitlen n"
proof (induction n rule: bitlen.induct)
  case (1 n)
  show ?case
  proof (cases "n div 2 = 0")
    case True
    with "1.prems" have "n = 1" by auto
    then show ?thesis by (simp add: bitlen.simps)
  next
    case False
    with 1 have IH: "2 ^ (bitlen (n div 2) - 1) \<le> n div 2" "n div 2 < 2 ^ bitlen (n div 2)"
      "0 < bitlen (n div 2)" by auto
    from IH(3) obtain k where k: "bitlen (n div 2) = Suc k" using gr0_implies_Suc by blast
    have "bitlen n = Suc (Suc k)" using "1.prems" k by (subst bitlen.simps) simp
    with IH(1,2) k show ?thesis by (auto)
  qed
qed

lemma bitlen_unique:
  assumes "2 ^ (k - 1) \<le> n" "n < 2 ^ k" "0 < k"
  shows "bitlen n = k"
proof -
  have "0 < n" using assms(1) by (meson le_trans less_le_trans not_gr_zero zero_less_power pos2 not_le)
  note b = bitlen_bounds [OF this]
  have "(2::nat) ^ (k - 1) < 2 ^ bitlen n" using assms(1) b by linarith
  moreover have "(2::nat) ^ (bitlen n - 1) < 2 ^ k" using assms(2) b by linarith
  ultimately have "k - 1 < bitlen n" "bitlen n - 1 < k" by simp_all
  with assms(3) b show ?thesis by linarith
qed

lemma bitlen_shift: "0 < n \<Longrightarrow> bitlen (n * 2 ^ k) = bitlen n + k"
proof -
  assume "0 < n"
  note b = bitlen_bounds [OF this]
  have "(2::nat) ^ (bitlen n + k - 1) = 2 ^ (bitlen n - 1) * 2 ^ k"
    using b by (simp add: power_add [symmetric])
  with b show ?thesis by (intro bitlen_unique) (auto simp: power_add)
qed

lemma bitlen_le: "n < 2 ^ k \<Longrightarrow> bitlen n \<le> k"
proof (cases "n = 0")
  case False
  assume "n < 2 ^ k"
  with False bitlen_bounds [of n] have "(2::nat) ^ (bitlen n - 1) < 2 ^ k" by linarith
  then have "bitlen n - 1 < k" by simp
  then show ?thesis by linarith
qed (simp add: bitlen.simps)

section \<open>Rounding is canonical, and exact on canonical values\<close>

lemma round_even_exact: "round_even (m * 2 ^ k) k = m"
  by (simp add: round_even_def)

lemma round_even_le:
  assumes "m < 2 ^ (n + k)" "0 < k"
  shows "round_even m k \<le> 2 ^ n"
proof -
  have "m div 2 ^ k < 2 ^ n" using assms(1) by (simp add: less_mult_imp_div_less power_add)
  then show ?thesis by (auto simp: round_even_def Let_def)
qed

lemma round_even_ge:
  assumes "2 ^ (n + k) \<le> m"
  shows "2 ^ n \<le> round_even m k"
proof -
  have "2 ^ n * 2 ^ k div 2 ^ k \<le> m div (2::nat) ^ k"
    using assms by (intro div_le_mono) (simp add: power_add)
  then show ?thesis by (auto simp: round_even_def Let_def)
qed

lemma f64_round_scaled:
  assumes c: "canonical m e" and m: "0 < m"
  shows "f64_round s (m * 2 ^ k) (e - int k) = Fin s m e"
proof -
  have L: "bitlen (m * 2 ^ k) = bitlen m + k" using m by (rule bitlen_shift)
  have b: "bitlen m \<le> 53" using c by (intro bitlen_le) (simp add: canonical_def)
  have "max (e + int (bitlen m) - 53) (-1074) = e"
  proof (cases "e = -1074")
    case True with b show ?thesis by simp
  next
    case False
    with c have "2 ^ (53 - 1) \<le> m" "m < 2 ^ 53" by (simp_all add: canonical_def)
    then have "bitlen m = 53" by (intro bitlen_unique) simp_all
    with c show ?thesis by (simp add: canonical_def)
  qed
  with L have e': "max (e - int k + int (bitlen (m * 2 ^ k)) - 53) (-1074) = e" by simp
  show ?thesis
    using c m by (auto simp: f64_round_def e' round_even_exact canonical_def)
qed

lemmas f64_round_exact = f64_round_scaled [where k = 0, simplified]

lemma f64_round_zero [simp]: "f64_round s 0 e = Fin s 0 (-1074)"
  by (simp add: f64_round_def)

lemma f64_wf_round: "f64_wf (f64_round s m e)"
proof (cases "m = 0")
  case True
  then show ?thesis by (simp add: canonical_def)
next
  case False
  define L where "L = bitlen m"
  define e' where "e' = max (e + int L - 53) (-1074)"
  define q where "q = (if e' \<le> e then m * 2 ^ nat (e - e') else round_even m (nat (e' - e)))"
  have bl: "2 ^ (L - 1) \<le> m" "m < 2 ^ L" "0 < L"
    using bitlen_bounds [of m] False by (simp_all add: L_def)
  have hi: "q \<le> 2 ^ 53"
  proof (cases "e' \<le> e")
    case True
    then have "L + nat (e - e') \<le> 53" by (simp add: e'_def) linarith
    then have "(2::nat) ^ (L + nat (e - e')) \<le> 2 ^ 53" by (rule power_increasing) simp
    moreover have "m * 2 ^ nat (e - e') \<le> 2 ^ (L + nat (e - e'))"
      using bl(2) by (simp add: power_add)
    ultimately show ?thesis using True by (simp add: q_def)
  next
    case False
    then have "L \<le> 53 + nat (e' - e)" by (simp add: e'_def)
    then have "m < 2 ^ (53 + nat (e' - e))"
      using bl(2) by (meson less_le_trans one_le_numeral power_increasing)
    then have "round_even m (nat (e' - e)) \<le> 2 ^ 53" using False by (intro round_even_le) simp_all
    with False show ?thesis by (simp add: q_def)
  qed
  have lo: "2 ^ 52 \<le> q" if "e' \<noteq> -1074"
  proof (cases "e' \<le> e")
    case True
    with that have "L - 1 + nat (e - e') = 52" using bl(3) unfolding e'_def by linarith
    then have "(2::nat) ^ 52 = 2 ^ (L - 1) * 2 ^ nat (e - e')" by (metis power_add)
    also have "\<dots> \<le> m * 2 ^ nat (e - e')" using bl(1) by simp
    finally show ?thesis using True by (simp add: q_def)
  next
    case False
    with that have "52 + nat (e' - e) = L - 1" using bl(3) unfolding e'_def by linarith
    with bl(1) have "2 ^ 52 \<le> round_even m (nat (e' - e))" by (intro round_even_ge) simp
    with False show ?thesis by (simp add: q_def)
  qed
  have "-1074 \<le> e'" by (simp add: e'_def)
  moreover have "f64_round s m e =
      (if q = 2 ^ 53 then (if 971 < e' + 1 then Inf s else Fin s (2 ^ 52) (e' + 1))
       else (if 971 < e' then Inf s else Fin s q e'))"
    using False by (simp add: f64_round_def Let_def L_def [symmetric] e'_def [symmetric] q_def [symmetric])
  ultimately show ?thesis using hi lo by (auto simp: canonical_def)
qed

section \<open>Arithmetic keeps values canonical; exact cases\<close>

lemma f64_wf_add_fin: "f64_wf (f64_add_fin s m e t n d)"
  by (auto simp: f64_add_fin_def Let_def canonical_def intro: f64_wf_round)

lemma f64_wf_mul: "f64_wf (f64_mul x y)"
  by (cases "(x, y)" rule: f64_mul.cases) (auto intro: f64_wf_round)

lemma f64_wf_add: "f64_wf (f64_add x y)"
  by (cases "(x, y)" rule: f64_add.cases) (auto intro: f64_wf_add_fin)

lemma f64_wf_fma: "f64_wf (f64_fma x y z)"
  by (cases "(x, y, z)" rule: f64_fma.cases) (auto simp: f64_wf_add f64_wf_add_fin simp del: f64_add.simps f64_mul.simps)

lemma f64_wf_of_int: "f64_wf (f64_of_int n)"
  by (simp add: f64_of_int_def f64_wf_round)

lemma canonical_zero_exp: "canonical 0 e \<Longrightarrow> e = -1074"
  by (simp add: canonical_def)

lemma f64_mul_one:
  assumes "f64_wf x"
  shows "f64_mul x f64_one = x"
proof (cases x)
  case (Fin s m e)
  with assms have c: "canonical m e" by simp
  show ?thesis
  proof (cases "m = 0")
    case True
    with Fin c show ?thesis by (simp add: f64_one_def canonical_zero_exp)
  next
    case False
    with c f64_round_scaled [of m e s 52] show ?thesis by (simp add: Fin f64_one_def)
  qed
qed (simp_all add: f64_one_def)

lemma f64_add_fin_zero:
  assumes c: "canonical m e" and m: "0 < m"
  shows "f64_add_fin s (m * 2 ^ k) (e - int k) False 0 (-1074) = Fin s m e"
proof -
  let ?l = "min (e - int k) (-1074)"
  define j where "j = nat (e - int k - ?l) + k"
  have j: "e - int j = ?l" "m * 2 ^ k * 2 ^ nat (e - int k - ?l) = m * 2 ^ j"
    using c by (auto simp: j_def canonical_def power_add)
  have "f64_round s (m * 2 ^ j) (e - int j) = Fin s m e" using c m by (rule f64_round_scaled)
  then show ?thesis
    using m by (cases s) (simp_all add: f64_add_fin_def Let_def j del: of_nat_mult of_nat_power)
qed

lemma f64_add_zero:
  assumes "f64_wf x" "\<not> is_zero x"
  shows "f64_add x f64_zero = x"
  using assms f64_add_fin_zero [where k = 0] by (cases x) (auto simp: f64_zero_def)

lemma f64_fma_one_zero:
  assumes "f64_wf x" "\<not> is_zero x"
  shows "f64_fma x f64_one f64_zero = x"
  using assms f64_add_fin_zero [where k = 52] by (cases x) (auto simp: f64_zero_def f64_one_def)

section \<open>Conversions are exact\<close>

lemma rval_round_exact:
  assumes "m < 2 ^ 53" "-1074 \<le> e" "e \<le> 900"
  shows "rval (f64_round s m e) = (if s then -1 else 1) * real m * 2 powi e"
    and "is_finite (f64_round s m e)"
proof -
  have "\<exists>n d. f64_round s m e = Fin s n d \<and> real n * 2 powi d = real m * 2 powi e"
  proof (cases "m = 0")
    case True
    then show ?thesis by simp
  next
    case False
    define e' where "e' = max (e + int (bitlen m) - 53) (-1074)"
    have L: "bitlen m \<le> 53" using assms(1) by (rule bitlen_le)
    with assms(2) have le: "e' \<le> e" by (simp add: e'_def)
    have *: "m * 2 ^ nat (e - e') < 2 ^ 53"
    proof -
      have "bitlen m + nat (e - e') \<le> 53" using le by (simp add: e'_def) linarith
      then have "(2::nat) ^ (bitlen m + nat (e - e')) \<le> 2 ^ 53" by (rule power_increasing) simp
      moreover have "m * 2 ^ nat (e - e') < 2 ^ (bitlen m + nat (e - e'))"
        using bitlen_bounds [of m] False by (simp add: power_add)
      ultimately show ?thesis by linarith
    qed
    have "f64_round s m e = Fin s (m * 2 ^ nat (e - e')) e'"
      using False * assms(3) le
      by (simp add: f64_round_def Let_def e'_def [symmetric])
    moreover have "real (m * 2 ^ nat (e - e')) * 2 powi e' = real m * 2 powi e"
      using le power_int_add [of "2::real" "e - e'" e'] by (simp add: power_int_of_nat [symmetric])
    ultimately show ?thesis by blast
  qed
  then show "rval (f64_round s m e) = (if s then -1 else 1) * real m * 2 powi e"
    and "is_finite (f64_round s m e)" by (auto simp: mult.assoc)
qed

lemma rval_of_int:
  assumes "\<bar>n\<bar> < 2 ^ 53"
  shows "rval (f64_of_int n) = of_int n" and "is_finite (f64_of_int n)"
proof -
  have "nat \<bar>n\<bar> < 2 ^ 53" using assms by simp
  from rval_round_exact [OF this, of 0 "n < 0"]
  show "rval (f64_of_int n) = of_int n" and "is_finite (f64_of_int n)"
    by (auto simp: f64_of_int_def)
qed

lemma unat_take_bit_less: "unat (take_bit k (w :: 'a::len word)) < 2 ^ k"
  by (metis take_bit_nat_less_exp unsigned_take_bit_eq)

lemma f64_wf_float64frombits: "f64_wf (float64frombits w)"
proof -
  define ex where "ex = unat (take_bit 11 (drop_bit 52 w))"
  have "ex < 2 ^ 11" "unat (take_bit 52 w) < 2 ^ 52"
    unfolding ex_def by (rule unat_take_bit_less)+
  then show ?thesis by (auto simp: float64frombits_def Let_def canonical_def ex_def [symmetric])
qed

lemma f64_wf_float32frombits: "f64_wf (float32frombits w)"
  by (auto simp: float32frombits_def Let_def intro: f64_wf_round simp del: f64_round_zero)

lemma float32_widening_exact:
  assumes ex: "ex = unat (take_bit 8 (drop_bit 23 w))" and fin: "ex \<noteq> 255"
  shows "is_finite (float32frombits w)"
    and "rval (float32frombits w) =
      (if bit w 31 then -1 else 1) *
      (if ex = 0 then real (unat (take_bit 23 w)) * 2 powi (-149)
       else real (2 ^ 23 + unat (take_bit 23 w)) * 2 powi (int ex - 150))"
proof -
  have "ex < 2 ^ 8" and fr: "unat (take_bit 23 w) < 2 ^ 23"
    unfolding ex by (rule unat_take_bit_less)+
  with fin have e: "ex < 255" by simp
  show "is_finite (float32frombits w)"
    using fr e by (auto simp: float32frombits_def Let_def ex [symmetric] intro!: rval_round_exact)
  show "rval (float32frombits w) =
      (if bit w 31 then -1 else 1) *
      (if ex = 0 then real (unat (take_bit 23 w)) * 2 powi (-149)
       else real (2 ^ 23 + unat (take_bit 23 w)) * 2 powi (int ex - 150))"
    using fr e by (auto simp: float32frombits_def Let_def ex [symmetric] rval_round_exact)
qed

end
