(* ===== verification/Queue.thy ===== *)
theory Queue
  imports GoFloat
begin

text \<open>
  The persistent queue \<open>src/gateway/internal/queue\<close>: the tables \<open>gateway\<close> and
  \<open>data_queue\<close> and every statement the package runs on them (\<open>queue.go\<close>,
  \<open>dispatch.go\<close>, \<open>storagepolicy.go\<close>, \<open>retention.go\<close>,
  \<open>backoff.go\<close>).

  A table is the list of its rows in insertion order. The migrations give \<open>data_queue\<close> an
  AUTOINCREMENT id (\<open>dq_seq\<close> is the largest id ever given), a unique index on
  \<open>(gateway_id, sequence_id)\<close> and a CHECK that makes the status one of four values. The
  column \<open>created_at\<close>, which no statement reads, is left out. A transaction that reports an
  error leaves the database as it was (the deferred rollback).
\<close>

section \<open>Backoff\<close>

definition BackoffDuration :: "int \<Rightarrow> duration" where
  "BackoffDuration retryCount =
     (let retryCount = (if retryCount < 1 then 1 else retryCount);
          maxBackoff = 60 * second;
          shift = retryCount - 1
      in if 6 < shift then maxBackoff
         else (let d = 2 ^ nat shift * second in if maxBackoff < d then maxBackoff else d))"

section \<open>Tables\<close>

datatype qstatus = PENDING | SENDING | SENT | FAILED

record entry =
  ID :: int
  GatewayID :: string
  SequenceID :: int
  DeviceID :: int
  DatapointID :: int
  Value :: "f64 option"
  Quality :: string
  EventTimestamp :: gotime
  Priority :: string

record dispatch_entry = entry +
  Status :: string
  RetryCount :: int
  LastError :: string
  NextAttempt :: gotime

record gateway_row =
  g_name :: string
  g_last_sequence :: int

record row =
  q_id :: int
  q_gateway_id :: string
  q_sequence_id :: int
  q_device_id :: int
  q_datapoint_id :: int
  q_value :: "f64 option"
  q_quality :: string
  q_event_timestamp :: int
  q_status :: qstatus
  q_retry_count :: int
  q_sent_at :: "int option"
  q_last_error :: "string option"
  q_priority :: string
  q_next_attempt_at :: int

record qdb =
  gateways :: "string \<rightharpoonup> gateway_row"
  data_queue :: "row list"
  dq_seq :: int

datatype queue_error =
    DbError string
  | AssignSequence string
  | InsertRow string
  | SelectBatch string
  | ScanRow string
  | MarkSending string
  | ReadRetryCount int string
  | MarkRowFailed int string

section \<open>Operations of \<open>queue.go\<close>\<close>

definition priorityOrDefault :: "string \<Rightarrow> string" where
  "priorityOrDefault p = (if p = [] then ''NORMAL'' else p)"

definition EnsureGateway :: "fault \<Rightarrow> string \<Rightarrow> string \<Rightarrow> qdb \<Rightarrow> queue_error option \<times> qdb" where
  "EnsureGateway flt gid name db =
     (case fault_at (AtExec 0) flt of Some m \<Rightarrow> (Some (DbError m), db) | None \<Rightarrow>
      (None, db\<lparr>gateways := (gateways db)(gid \<mapsto>
         (case gateways db gid of
            None \<Rightarrow> \<lparr>g_name = name, g_last_sequence = 0\<rparr>
          | Some g \<Rightarrow> g\<lparr>g_name := name\<rparr>))\<rparr>))"

definition new_row :: "(f64 \<Rightarrow> f64 option) \<Rightarrow> int \<Rightarrow> entry \<Rightarrow> row" where
  \<comment> \<open>the inserted columns; the others take their defaults. \<open>bind\<close> is how the SQLite
     driver stores a \<open>float64\<close> in a nullable REAL column\<close>
  "new_row bind i e = \<lparr>q_id = i, q_gateway_id = GatewayID e, q_sequence_id = SequenceID e,
     q_device_id = DeviceID e, q_datapoint_id = DatapointID e,
     q_value = Option.bind (Value e) bind, q_quality = Quality e,
     q_event_timestamp = millis (EventTimestamp e), q_status = PENDING, q_retry_count = 0,
     q_sent_at = None, q_last_error = None, q_priority = priorityOrDefault (Priority e),
     q_next_attempt_at = 0\<rparr>"

definition row_key :: "row \<Rightarrow> string \<times> int" where
  "row_key r = (q_gateway_id r, q_sequence_id r)"

definition Insert ::
  "(f64 \<Rightarrow> f64 option) \<Rightarrow> fault \<Rightarrow> entry \<Rightarrow> qdb \<Rightarrow> (queue_error + entry) \<times> qdb" where
  "Insert bind flt e db =
     (case fault_at AtBegin flt of Some m \<Rightarrow> (Inl (DbError m), db) | None \<Rightarrow>
      case fault_at (AtQuery 0) flt of Some m \<Rightarrow> (Inl (AssignSequence m), db) | None \<Rightarrow>
      case gateways db (GatewayID e) of
        None \<Rightarrow> (Inl (AssignSequence ''sql: no rows in result set''), db)
      | Some g \<Rightarrow>
        (let seq = g_last_sequence g + 1;
             e1 = e\<lparr>SequenceID := seq\<rparr>;
             i = dq_seq db + 1
         in case fault_at (AtExec 0) flt of Some m \<Rightarrow> (Inl (InsertRow m), db) | None \<Rightarrow>
            if (GatewayID e, seq) \<in> row_key ` set (data_queue db)
            then (Inl (InsertRow ''UNIQUE constraint failed''), db)
            else
            case fault_at AtLastId flt of Some m \<Rightarrow> (Inl (DbError m), db) | None \<Rightarrow>
            case fault_at AtCommit flt of Some m \<Rightarrow> (Inl (DbError m), db) | None \<Rightarrow>
            (Inr (e1\<lparr>ID := i\<rparr>),
             db\<lparr>gateways := (gateways db)(GatewayID e \<mapsto> g\<lparr>g_last_sequence := seq\<rparr>),
                data_queue := data_queue db @ [new_row bind i e1],
                dq_seq := i\<rparr>)))"

definition DeleteSentOlderThan :: "fault \<Rightarrow> gotime \<Rightarrow> qdb \<Rightarrow> (queue_error + int) \<times> qdb" where
  "DeleteSentOlderThan flt cutoff db =
     (case fault_at (AtExec 0) flt of Some m \<Rightarrow> (Inl (DbError m), db) | None \<Rightarrow>
      (let dead = (\<lambda>r. q_status r = SENT \<and>
                      (case q_sent_at r of None \<Rightarrow> False | Some t \<Rightarrow> t < millis cutoff))
       in (Inr (int (length (filter dead (data_queue db)))),
           db\<lparr>data_queue := filter (\<lambda>r. \<not> dead r) (data_queue db)\<rparr>)))"

section \<open>Operations of \<open>dispatch.go\<close>\<close>

definition priority_rank :: "string \<Rightarrow> nat" where
  \<comment> \<open>\<open>priorityOrderSQL\<close>\<close>
  "priority_rank p =
     (if p = ''CRITICAL'' then 0 else if p = ''HIGH'' then 1 else if p = ''NORMAL'' then 2
      else if p = ''LOW'' then 3 else 4)"

definition dispatch_key :: "row \<Rightarrow> nat \<times> int" where
  "dispatch_key r = (priority_rank (q_priority r), q_sequence_id r)"

type_synonym row_order = "(row \<Rightarrow> nat \<times> int) \<Rightarrow> row list \<Rightarrow> row list"

definition to_dispatch :: "row \<Rightarrow> dispatch_entry" where
  \<comment> \<open>the scanned columns; the fields not scanned keep their zero values\<close>
  "to_dispatch r = \<lparr>ID = q_id r, GatewayID = q_gateway_id r, SequenceID = q_sequence_id r,
     DeviceID = q_device_id r, DatapointID = q_datapoint_id r, Value = q_value r,
     Quality = q_quality r, EventTimestamp = q_event_timestamp r * millisecond,
     Priority = q_priority r, Status = [], RetryCount = q_retry_count r, LastError = [],
     NextAttempt = zero_time\<rparr>"

definition eligible :: "gotime \<Rightarrow> row \<Rightarrow> bool" where
  "eligible now r \<longleftrightarrow> q_status r = PENDING \<and> q_next_attempt_at r \<le> millis now"

definition update_ids :: "int list \<Rightarrow> (row \<Rightarrow> row) \<Rightarrow> row list \<Rightarrow> row list" where
  \<comment> \<open>\<open>UPDATE data_queue SET ... WHERE id IN (...)\<close>\<close>
  "update_ids ids f rs = map (\<lambda>r. if q_id r \<in> set ids then f r else r) rs"

definition FetchBatch ::
  "row_order \<Rightarrow> fault \<Rightarrow> gotime \<Rightarrow> int \<Rightarrow> qdb \<Rightarrow> (queue_error + dispatch_entry list) \<times> qdb" where
  "FetchBatch ob flt now limit db =
     (case fault_at AtBegin flt of Some m \<Rightarrow> (Inl (DbError m), db) | None \<Rightarrow>
      case fault_at (AtQuery 0) flt of Some m \<Rightarrow> (Inl (SelectBatch m), db) | None \<Rightarrow>
      (let rows = sql_limit limit (ob dispatch_key (filter (eligible now) (data_queue db)));
           batch = map to_dispatch rows;
           ids = map q_id rows
       in case fault_at (AtQuery 1) flt of Some m \<Rightarrow> (Inl (ScanRow m), db) | None \<Rightarrow>
          case fault_at (AtQuery 2) flt of Some m \<Rightarrow> (Inl (DbError m), db) | None \<Rightarrow>
          if batch = [] then (Inr [], db)
          else
          case fault_at (AtExec 0) flt of Some m \<Rightarrow> (Inl (MarkSending m), db) | None \<Rightarrow>
          case fault_at AtCommit flt of Some m \<Rightarrow> (Inl (DbError m), db) | None \<Rightarrow>
          (Inr (map (\<lambda>e. e\<lparr>Status := ''SENDING''\<rparr>) batch),
           db\<lparr>data_queue := update_ids ids (\<lambda>r. r\<lparr>q_status := SENDING\<rparr>) (data_queue db)\<rparr>)))"

definition MarkSent :: "fault \<Rightarrow> gotime \<Rightarrow> int list \<Rightarrow> qdb \<Rightarrow> queue_error option \<times> qdb" where
  "MarkSent flt now ids db =
     (if ids = [] then (None, db)
      else case fault_at (AtExec 0) flt of Some m \<Rightarrow> (Some (DbError m), db) | None \<Rightarrow>
      (None, db\<lparr>data_queue :=
         update_ids ids (\<lambda>r. r\<lparr>q_status := SENT, q_sent_at := Some (millis now)\<rparr>) (data_queue db)\<rparr>))"

text \<open>The loop of \<open>MarkFailed\<close>; \<open>clock i\<close> is the instant the loop reads for its
  \<open>i\<close>-th row. \<open>Inl\<close> aborts the transaction.\<close>

definition fail_row :: "gotime \<Rightarrow> string \<Rightarrow> int \<Rightarrow> row \<Rightarrow> row" where
  "fail_row now sendErr retryCount r =
     r\<lparr>q_status := PENDING, q_retry_count := q_retry_count r + 1, q_last_error := Some sendErr,
       q_next_attempt_at := millis (now + BackoffDuration (retryCount + 1))\<rparr>"

fun mark_failed_loop ::
  "fault \<Rightarrow> (nat \<Rightarrow> gotime) \<Rightarrow> string \<Rightarrow> nat \<Rightarrow> int list \<Rightarrow> row list \<Rightarrow> queue_error + row list" where
  "mark_failed_loop flt clock sendErr i [] rs = Inr rs"
| "mark_failed_loop flt clock sendErr i (x # xs) rs =
     (case fault_at (AtQuery i) flt of Some m \<Rightarrow> Inl (ReadRetryCount x m) | None \<Rightarrow>
      case find (\<lambda>r. q_id r = x) rs of
        None \<Rightarrow> Inl (ReadRetryCount x ''sql: no rows in result set'')
      | Some r0 \<Rightarrow>
        (case fault_at (AtExec i) flt of Some m \<Rightarrow> Inl (MarkRowFailed x m) | None \<Rightarrow>
         mark_failed_loop flt clock sendErr (Suc i) xs
           (update_ids [x] (fail_row (clock i) sendErr (q_retry_count r0)) rs)))"

definition MarkFailed ::
  "fault \<Rightarrow> (nat \<Rightarrow> gotime) \<Rightarrow> int list \<Rightarrow> string \<Rightarrow> qdb \<Rightarrow> queue_error option \<times> qdb" where
  "MarkFailed flt clock ids sendErr db =
     (if ids = [] then (None, db)
      else case fault_at AtBegin flt of Some m \<Rightarrow> (Some (DbError m), db) | None \<Rightarrow>
      case fault_at AtPrepare flt of Some m \<Rightarrow> (Some (DbError m), db) | None \<Rightarrow>
      case mark_failed_loop flt clock sendErr 0 ids (data_queue db) of
        Inl err \<Rightarrow> (Some err, db)
      | Inr rs \<Rightarrow>
        (case fault_at AtCommit flt of Some m \<Rightarrow> (Some (DbError m), db) | None \<Rightarrow>
         (None, db\<lparr>data_queue := rs\<rparr>)))"

definition RecoverSendingToPending :: "fault \<Rightarrow> qdb \<Rightarrow> (queue_error + int) \<times> qdb" where
  "RecoverSendingToPending flt db =
     (case fault_at (AtExec 0) flt of Some m \<Rightarrow> (Inl (DbError m), db) | None \<Rightarrow>
      (Inr (int (length (filter (\<lambda>r. q_status r = SENDING) (data_queue db)))),
       db\<lparr>data_queue :=
         map (\<lambda>r. if q_status r = SENDING then r\<lparr>q_status := PENDING\<rparr> else r) (data_queue db)\<rparr>))"

record stats =
  PendingCount :: int
  SendingCount :: int
  OldestPending :: "gotime option"
  NewestPending :: "gotime option"
  TotalRetries :: int

definition list_min :: "int list \<Rightarrow> int option" where
  "list_min xs = (case xs of [] \<Rightarrow> None | y # ys \<Rightarrow> Some (foldl min y ys))"

definition list_max :: "int list \<Rightarrow> int option" where
  "list_max xs = (case xs of [] \<Rightarrow> None | y # ys \<Rightarrow> Some (foldl max y ys))"

definition Stats :: "fault \<Rightarrow> qdb \<Rightarrow> queue_error + stats" where
  "Stats flt db =
     (case fault_at (AtQuery 0) flt of Some m \<Rightarrow> Inl (DbError m) | None \<Rightarrow>
      (let pending = filter (\<lambda>r. q_status r = PENDING) (data_queue db);
           ts = map q_event_timestamp pending
       in Inr \<lparr>PendingCount = int (length pending),
               SendingCount = int (length (filter (\<lambda>r. q_status r = SENDING) (data_queue db))),
               OldestPending = map_option (\<lambda>t. t * millisecond) (list_min ts),
               NewestPending = map_option (\<lambda>t. t * millisecond) (list_max ts),
               TotalRetries = sum_list (map q_retry_count pending)\<rparr>))"

section \<open>Operations of \<open>storagepolicy.go\<close> and \<open>retention.go\<close>\<close>

definition evict_rank :: "string \<Rightarrow> nat" where
  "evict_rank p =
     (if p = ''LOW'' then 0 else if p = ''NORMAL'' then 1 else if p = ''HIGH'' then 2 else 3)"

definition evict_key :: "row \<Rightarrow> nat \<times> int" where
  "evict_key r = (evict_rank (q_priority r), q_event_timestamp r)"

definition evict_victims :: "row_order \<Rightarrow> int \<Rightarrow> row list \<Rightarrow> row list" where
  \<comment> \<open>the sub-select of the DELETE statement\<close>
  "evict_victims ob limit rs =
     sql_limit limit (ob evict_key (filter (\<lambda>r. q_priority r \<noteq> ''CRITICAL'') rs))"

definition EvictOldestNonCritical ::
  "row_order \<Rightarrow> fault \<Rightarrow> int \<Rightarrow> qdb \<Rightarrow> (queue_error + int) \<times> qdb" where
  "EvictOldestNonCritical ob flt limit db =
     (case fault_at (AtExec 0) flt of Some m \<Rightarrow> (Inl (DbError m), db) | None \<Rightarrow>
      (let dead = (\<lambda>r. q_id r \<in> q_id ` set (evict_victims ob limit (data_queue db)))
       in (Inr (int (length (filter dead (data_queue db)))),
           db\<lparr>data_queue := filter (\<lambda>r. \<not> dead r) (data_queue db)\<rparr>)))"

datatype storage_level = StorageNormal | StorageWarning | StorageCritical | StorageFull

definition ClassifyStorageLevel :: "real \<Rightarrow> real \<Rightarrow> storage_level" where
  "ClassifyStorageLevel usedPercent fullPercent =
     (if fullPercent \<le> usedPercent then StorageFull
      else if 90 \<le> usedPercent then StorageCritical
      else if 70 \<le> usedPercent then StorageWarning
      else StorageNormal)"

text \<open>One run of the two sweepers' bodies. The disk usage reading may fail (\<open>Inl\<close>); the
  result is the number of rows removed, if the sweep got that far.\<close>

definition storage_check ::
  "row_order \<Rightarrow> fault \<Rightarrow> string + real \<Rightarrow> real \<Rightarrow> int \<Rightarrow> qdb \<Rightarrow> int option \<times> qdb" where
  "storage_check ob flt usage fullPercent evictBatchSize db =
     (case usage of Inl _ \<Rightarrow> (None, db)
      | Inr pct \<Rightarrow>
        (case ClassifyStorageLevel pct fullPercent of
           StorageWarning \<Rightarrow> (None, db)
         | StorageCritical \<Rightarrow> (None, db)
         | StorageNormal \<Rightarrow> (None, db)
         | StorageFull \<Rightarrow>
             (case EvictOldestNonCritical ob flt evictBatchSize db of
                (Inl _, db') \<Rightarrow> (None, db')
              | (Inr n, db') \<Rightarrow> (Some n, db'))))"

definition retention_sweep :: "fault \<Rightarrow> gotime \<Rightarrow> duration \<Rightarrow> qdb \<Rightarrow> int option \<times> qdb" where
  "retention_sweep flt now retention db =
     (case DeleteSentOlderThan flt (now - retention) db of
        (Inl _, db') \<Rightarrow> (None, db')
      | (Inr n, db') \<Rightarrow> (Some n, db'))"

section \<open>Row lookup and bulk updates\<close>

definition lookup :: "row list \<Rightarrow> int \<Rightarrow> row option" where
  "lookup rs i = find (\<lambda>r. q_id r = i) rs"

definition same_identity :: "row \<Rightarrow> row \<Rightarrow> bool" where
  \<comment> \<open>everything of a row but its dispatch bookkeeping\<close>
  "same_identity r r' \<longleftrightarrow> q_id r' = q_id r \<and> row_key r' = row_key r \<and>
     q_device_id r' = q_device_id r \<and> q_datapoint_id r' = q_datapoint_id r \<and>
     q_value r' = q_value r \<and> q_quality r' = q_quality r \<and>
     q_event_timestamp r' = q_event_timestamp r \<and> q_priority r' = q_priority r"

lemma same_identityD:
  assumes "same_identity r r'"
  shows "q_id r' = q_id r" "row_key r' = row_key r" "q_gateway_id r' = q_gateway_id r"
    "q_sequence_id r' = q_sequence_id r" "q_priority r' = q_priority r"
  using assms by (auto simp: same_identity_def row_key_def)

lemma same_identity_refl [simp]: "same_identity r r"
  by (simp add: same_identity_def)

lemma same_identity_upd [simp]:
  "same_identity r (r\<lparr>q_status := s\<rparr>)" "same_identity r (r\<lparr>q_sent_at := t\<rparr>)"
  "same_identity r (r\<lparr>q_status := s, q_sent_at := t\<rparr>)"
  "same_identity r (fail_row now e n r)"
  by (simp_all add: same_identity_def row_key_def fail_row_def)

lemma same_identity_trans: "same_identity a b \<Longrightarrow> same_identity b c \<Longrightarrow> same_identity a c"
  by (simp add: same_identity_def)

lemma lookup_Nil [simp]: "lookup [] i = None"
  by (simp add: lookup_def)

lemma lookup_Cons [simp]: "lookup (r # rs) i = (if q_id r = i then Some r else lookup rs i)"
  by (simp add: lookup_def)

lemma lookup_append: "lookup (rs @ ss) i = (case lookup rs i of None \<Rightarrow> lookup ss i | Some r \<Rightarrow> Some r)"
  by (induction rs) auto

lemma lookup_SomeD: "lookup rs i = Some r \<Longrightarrow> r \<in> set rs \<and> q_id r = i"
  by (induction rs) (auto split: if_splits)

lemma lookup_None_iff: "lookup rs i = None \<longleftrightarrow> i \<notin> q_id ` set rs"
  by (induction rs) auto

lemma lookup_distinct:
  "distinct (map q_id rs) \<Longrightarrow> r \<in> set rs \<Longrightarrow> lookup rs (q_id r) = Some r"
  by (induction rs) (auto simp: image_iff)

lemma lookup_iff:
  "distinct (map q_id rs) \<Longrightarrow> lookup rs i = Some r \<longleftrightarrow> r \<in> set rs \<and> q_id r = i"
  using lookup_SomeD lookup_distinct by blast

lemma lookup_map:
  "(\<And>r. q_id (f r) = q_id r) \<Longrightarrow> lookup (map f rs) i = map_option f (lookup rs i)"
  by (induction rs) auto

lemma lookup_update_ids:
  assumes "\<And>r. q_id (f r) = q_id r"
  shows "lookup (update_ids ids f rs) i = (if i \<in> set ids then map_option f (lookup rs i) else lookup rs i)"
  using assms by (induction rs) (auto simp: update_ids_def)

lemma lookup_filter:
  assumes "distinct (map q_id rs)"
  shows "lookup (filter P rs) i = (case lookup rs i of None \<Rightarrow> None | Some r \<Rightarrow> if P r then Some r else None)"
  using assms
proof (induction rs)
  case (Cons r rs)
  then have "q_id r = i \<Longrightarrow> lookup rs i = None" by (auto simp: lookup_None_iff)
  with Cons show ?case by (auto split: option.splits)
qed simp

lemma set_update_ids:
  "set (update_ids ids f rs) = {r \<in> set rs. q_id r \<notin> set ids} \<union> f ` {r \<in> set rs. q_id r \<in> set ids}"
  by (auto simp: update_ids_def)

section \<open>The invariant of the queue\<close>

definition queue_inv :: "qdb \<Rightarrow> bool" where
  "queue_inv db \<longleftrightarrow>
     distinct (map q_id (data_queue db)) \<and>
     distinct (map row_key (data_queue db)) \<and>
     (\<forall>r \<in> set (data_queue db). q_id r \<le> dq_seq db \<and>
        (\<exists>g. gateways db (q_gateway_id r) = Some g \<and> q_sequence_id r \<le> g_last_sequence g))"

definition empty_qdb :: qdb where
  "empty_qdb = \<lparr>gateways = Map.empty, data_queue = [], dq_seq = 0\<rparr>"

lemma queue_inv_empty [inv_intros]: "queue_inv empty_qdb"
  by (simp add: queue_inv_def empty_qdb_def)

lemma queue_invD:
  assumes "queue_inv db"
  shows "distinct (map q_id (data_queue db))" "distinct (map row_key (data_queue db))"
    and "r \<in> set (data_queue db) \<Longrightarrow> q_id r \<le> dq_seq db"
    and "r \<in> set (data_queue db) \<Longrightarrow> gateways db (q_gateway_id r) = Some g \<Longrightarrow> q_sequence_id r \<le> g_last_sequence g"
  using assms by (auto simp: queue_inv_def)

text \<open>Statements that rewrite bookkeeping columns or delete rows keep the invariant.\<close>

lemma queue_inv_map:
  assumes "queue_inv db" "\<And>r. same_identity r (f r)"
  shows "queue_inv (db\<lparr>data_queue := map f (data_queue db)\<rparr>)"
proof -
  have "map q_id (map f (data_queue db)) = map q_id (data_queue db)"
    "map row_key (map f (data_queue db)) = map row_key (data_queue db)"
    using assms(2) by (auto dest: same_identityD)
  with assms show ?thesis
    unfolding queue_inv_def by (simp del: map_map) (metis same_identityD(1,3,4))
qed

lemma queue_inv_update_ids:
  assumes "queue_inv db" "\<And>r. same_identity r (f r)"
  shows "queue_inv (db\<lparr>data_queue := update_ids ids f (data_queue db)\<rparr>)"
  unfolding update_ids_def by (rule queue_inv_map) (auto simp: assms)

lemma queue_inv_filter:
  assumes "queue_inv db"
  shows "queue_inv (db\<lparr>data_queue := filter P (data_queue db)\<rparr>)"
  using assms by (auto simp: queue_inv_def distinct_map_filter)

lemma mark_failed_loop_Inr:
  assumes "mark_failed_loop flt clock e i ids rs = Inr rs'"
  shows "\<exists>f. rs' = map f rs \<and> (\<forall>r. same_identity r (f r)) \<and> (\<forall>r. q_id r \<notin> set ids \<longrightarrow> f r = r)"
  using assms
proof (induction ids arbitrary: i rs)
  case Nil
  then show ?case by (intro exI [of _ id]) simp
next
  case (Cons x xs)
  let ?g = "\<lambda>(r0 :: row) r. if q_id r = x then fail_row (clock i) e (q_retry_count r0) r else r"
  from Cons.prems obtain r0 where
    "mark_failed_loop flt clock e (Suc i) xs (map (?g r0) rs) = Inr rs'"
    by (auto simp: update_ids_def split: option.splits)
  from Cons.IH [OF this] obtain f where f: "rs' = map (f \<circ> ?g r0) rs"
    "\<And>r. same_identity r (f r)" "\<And>r. q_id r \<notin> set xs \<Longrightarrow> f r = r"
    by auto
  show ?case
  proof (intro exI conjI allI impI)
    show "rs' = map (f \<circ> ?g r0) rs" by (rule f(1))
    show "same_identity r ((f \<circ> ?g r0) r)" for r
      using f(2) [of "?g r0 r"] same_identity_trans [of r "?g r0 r"] by auto
    show "(f \<circ> ?g r0) r = r" if "q_id r \<notin> set (x # xs)" for r
      using that f(3) by auto
  qed
qed

lemma queue_inv_Insert [inv_intros]:
  assumes "queue_inv db"
  shows "queue_inv (snd (Insert bind flt e db))"
proof -
  have *: "queue_inv (db\<lparr>gateways := (gateways db)(GatewayID e \<mapsto> g\<lparr>g_last_sequence := g_last_sequence g + 1\<rparr>),
      data_queue := data_queue db @ [new_row bind (dq_seq db + 1) (e\<lparr>SequenceID := g_last_sequence g + 1\<rparr>)],
      dq_seq := dq_seq db + 1\<rparr>)"
    if g: "gateways db (GatewayID e) = Some g" for g
  proof -
    have "dq_seq db + 1 \<notin> q_id ` set (data_queue db)"
      using queue_invD(3) [OF assms] by force
    moreover have "(GatewayID e, g_last_sequence g + 1) \<notin> row_key ` set (data_queue db)"
      using queue_invD(4) [OF assms] g by (force simp: row_key_def)
    ultimately show ?thesis
      using assms g by (fastforce simp: queue_inv_def new_row_def row_key_def)
  qed
  show ?thesis
    using assms * by (auto simp: Insert_def Let_def split: option.splits)
qed

lemma queue_inv_EnsureGateway [inv_intros]:
  "queue_inv db \<Longrightarrow> queue_inv (snd (EnsureGateway flt gid name db))"
  by (fastforce simp: EnsureGateway_def queue_inv_def split: option.splits)

lemma queue_inv_FetchBatch [inv_intros]:
  "queue_inv db \<Longrightarrow> queue_inv (snd (FetchBatch ob flt now limit db))"
  by (auto simp: FetchBatch_def Let_def split: option.splits intro!: queue_inv_update_ids)

lemma queue_inv_MarkSent [inv_intros]:
  "queue_inv db \<Longrightarrow> queue_inv (snd (MarkSent flt now ids db))"
  by (auto simp: MarkSent_def split: option.splits intro!: queue_inv_update_ids)

lemma queue_inv_MarkFailed [inv_intros]:
  "queue_inv db \<Longrightarrow> queue_inv (snd (MarkFailed flt clock ids e db))"
  by (auto simp: MarkFailed_def split: option.splits sum.splits
      dest!: mark_failed_loop_Inr intro!: queue_inv_map)

lemma queue_inv_Recover [inv_intros]:
  "queue_inv db \<Longrightarrow> queue_inv (snd (RecoverSendingToPending flt db))"
  by (auto simp: RecoverSendingToPending_def split: option.splits intro!: queue_inv_map)

lemma queue_inv_DeleteSent [inv_intros]:
  "queue_inv db \<Longrightarrow> queue_inv (snd (DeleteSentOlderThan flt cutoff db))"
  by (auto simp: DeleteSentOlderThan_def Let_def split: option.splits intro: queue_inv_filter)

lemma queue_inv_Evict [inv_intros]:
  "queue_inv db \<Longrightarrow> queue_inv (snd (EvictOldestNonCritical ob flt limit db))"
  by (auto simp: EvictOldestNonCritical_def Let_def split: option.splits intro: queue_inv_filter)

section \<open>Reachable queues\<close>

text \<open>One step is one operation of the package, with any arguments, at any instant, with or
  without a database failure; the operations of the concurrent goroutines are transactions, so
  a run of the process is a sequence of such steps. A restart changes nothing in the database.\<close>

inductive queue_step :: "qdb \<Rightarrow> qdb \<Rightarrow> bool" where
  step_ensure: "queue_step db (snd (EnsureGateway flt gid name db))"
| step_insert: "queue_step db (snd (Insert bind flt e db))"
| step_fetch: "queue_step db (snd (FetchBatch ob flt now limit db))"
| step_sent: "queue_step db (snd (MarkSent flt now ids db))"
| step_failed: "queue_step db (snd (MarkFailed flt clock ids err db))"
| step_recover: "queue_step db (snd (RecoverSendingToPending flt db))"
| step_retention: "queue_step db (snd (retention_sweep flt now keep db))"
| step_storage: "queue_step db (snd (storage_check ob flt usage full n db))"

inductive queue_reachable :: "qdb \<Rightarrow> bool" where
  reach_init: "queue_reachable empty_qdb"
| reach_step: "queue_reachable db \<Longrightarrow> queue_step db db' \<Longrightarrow> queue_reachable db'"

lemma queue_inv_retention [inv_intros]:
  "queue_inv db \<Longrightarrow> queue_inv (snd (retention_sweep flt now keep db))"
  using queue_inv_DeleteSent [of db flt "now - keep"]
  by (auto simp: retention_sweep_def split: prod.splits sum.splits)

lemma queue_inv_storage_check [inv_intros]:
  "queue_inv db \<Longrightarrow> queue_inv (snd (storage_check ob flt usage full n db))"
  using queue_inv_Evict [of db ob flt n]
  by (auto simp: storage_check_def split: prod.splits sum.splits storage_level.splits)

lemma queue_inv_step: "queue_step db db' \<Longrightarrow> queue_inv db \<Longrightarrow> queue_inv db'"
  by (induction rule: queue_step.induct) (auto intro: inv_intros)

lemma queue_step_gateways:
  assumes "queue_step db db'" "gateways db gid = Some g"
  shows "\<exists>g'. gateways db' gid = Some g' \<and> g_last_sequence g \<le> g_last_sequence g'"
  using assms
  by (induction rule: queue_step.induct)
    (auto simp: EnsureGateway_def Insert_def FetchBatch_def MarkSent_def MarkFailed_def
      RecoverSendingToPending_def retention_sweep_def DeleteSentOlderThan_def storage_check_def
      EvictOldestNonCritical_def Let_def
      split: option.splits sum.splits storage_level.splits)

section \<open>Properties of the queue\<close>

text \<open>C8: in every state the queue can reach, no two rows share an id or an idempotency key
  \<open>(gateway_id, sequence_id)\<close>, and every row's sequence number is at most the persistent
  counter of its gateway.\<close>

theorem queue_reachable_inv: "queue_reachable db \<Longrightarrow> queue_inv db"
  by (induction rule: queue_reachable.induct) (auto intro: queue_inv_empty queue_inv_step)

definition sample_entry :: entry where
  "sample_entry = \<lparr>ID = 0, GatewayID = ''GW001'', SequenceID = 0, DeviceID = 1, DatapointID = 2,
     Value = None, Quality = ''TIMEOUT'', EventTimestamp = 5 * second, Priority = []\<rparr>"

definition sample_db :: qdb where
  \<comment> \<open>the queue after start-up and two readings\<close>
  "sample_db =
     snd (Insert Some None sample_entry (snd (Insert Some None sample_entry
       (snd (EnsureGateway None ''GW001'' ''Dev'' empty_qdb)))))"

lemma sample_db_reachable: "queue_reachable sample_db"
  unfolding sample_db_def by (intro reach_step [OF _ step_insert] reach_step [OF _ step_ensure] reach_init)

lemma sample_db_rows:
  "data_queue sample_db =
     [new_row Some 1 (sample_entry\<lparr>SequenceID := 1\<rparr>), new_row Some 2 (sample_entry\<lparr>SequenceID := 2\<rparr>)]"
  "dq_seq sample_db = 2"
  "gateways sample_db ''GW001'' = Some \<lparr>g_name = ''Dev'', g_last_sequence = 2\<rparr>"
  by (simp_all add: sample_db_def Insert_def EnsureGateway_def empty_qdb_def sample_entry_def
      row_key_def new_row_def)

theorem queue_reachable_inv_witness: "queue_inv sample_db \<and> length (data_queue sample_db) = 2"
  using queue_reachable_inv [OF sample_db_reachable] by (simp add: sample_db_rows)

text \<open>Without a database failure, inserting a reading always succeeds for a registered
  gateway: the entry gets the next sequence number, greater than that of every stored row of the
  gateway, its row is appended as PENDING and immediately eligible with the event timestamp cut to
  milliseconds, no other row changes, and the counter advances by one.\<close>

theorem Insert_spec:
  assumes "queue_inv db" "gateways db (GatewayID e) = Some g"
  shows "\<exists>db' r. Insert bind None e db =
      (Inr (e\<lparr>SequenceID := g_last_sequence g + 1, ID := dq_seq db + 1\<rparr>), db') \<and>
    data_queue db' = data_queue db @ [r] \<and>
    row_key r = (GatewayID e, g_last_sequence g + 1) \<and>
    q_status r = PENDING \<and> eligible (now :: gotime) r = (0 \<le> millis now) \<and>
    q_value r = Option.bind (Value e) bind \<and> q_event_timestamp r = millis (EventTimestamp e) \<and>
    (\<forall>s \<in> set (data_queue db). q_gateway_id s = GatewayID e \<longrightarrow> q_sequence_id s < q_sequence_id r) \<and>
    gateways db' (GatewayID e) = Some (g\<lparr>g_last_sequence := g_last_sequence g + 1\<rparr>)"
proof -
  have "(GatewayID e, g_last_sequence g + 1) \<notin> row_key ` set (data_queue db)"
    using queue_invD(4) [OF assms(1)] assms(2) by (force simp: row_key_def)
  moreover have "\<forall>s \<in> set (data_queue db). q_gateway_id s = GatewayID e \<longrightarrow> q_sequence_id s < g_last_sequence g + 1"
    using queue_invD(4) [OF assms(1)] assms(2) by fastforce
  ultimately show ?thesis
    using assms(2) by (simp add: Insert_def Let_def new_row_def row_key_def eligible_def)
qed

lemma queue_inv_sample: "queue_inv sample_db"
  using sample_db_reachable
  by (induction rule: queue_reachable.induct) (auto intro: queue_inv_empty queue_inv_step)

theorem Insert_spec_witness:
  "\<exists>db' r. Insert Some None sample_entry sample_db =
      (Inr (sample_entry\<lparr>SequenceID := 3, ID := 3\<rparr>), db') \<and>
    data_queue db' = data_queue sample_db @ [r] \<and> row_key r = (''GW001'', 3) \<and> q_status r = PENDING"
proof -
  have g: "gateways sample_db (GatewayID sample_entry) = Some \<lparr>g_name = ''Dev'', g_last_sequence = 2\<rparr>"
    by (simp add: sample_db_rows sample_entry_def)
  show ?thesis
    using Insert_spec [OF queue_inv_sample g, of Some 0]
    by (force simp: sample_db_rows sample_entry_def)
qed

lemma FetchBatch_Inr:
  assumes "FetchBatch ob flt now limit db = (Inr batch, db')"
  defines "rows \<equiv> sql_limit limit (ob dispatch_key (filter (eligible now) (data_queue db)))"
  shows "batch = map (\<lambda>r. (to_dispatch r)\<lparr>Status := ''SENDING''\<rparr>) rows"
    "db' = db\<lparr>data_queue := update_ids (map q_id rows) (\<lambda>r. r\<lparr>q_status := SENDING\<rparr>) (data_queue db)\<rparr>"
  using assms(1) unfolding rows_def
  by (auto simp: FetchBatch_def Let_def update_ids_def split: option.splits if_splits)

lemma FetchBatch_no_fault:
  obtains batch db' where "FetchBatch ob None now limit db = (Inr batch, db')"
proof (cases "sql_limit limit (ob dispatch_key (filter (eligible now) (data_queue db))) = []")
  case True
  with that show thesis by (simp add: FetchBatch_def)
next
  case False
  with that show thesis by (simp add: FetchBatch_def Let_def)
qed

lemma FetchBatch_rows:
  assumes ord: "sql_order ob" and inv: "queue_inv db" and lim: "0 \<le> limit"
    and fetch: "FetchBatch ob flt now limit db = (Inr batch, db')"
  shows "int (length batch) \<le> limit \<and>
    sorted (map (\<lambda>e. (priority_rank (Priority e), SequenceID e)) batch) \<and>
    (\<forall>e \<in> set batch. \<exists>r. lookup (data_queue db) (ID e) = Some r \<and> eligible now r \<and>
       e = (to_dispatch r)\<lparr>Status := ''SENDING''\<rparr> \<and>
       lookup (data_queue db') (ID e) = Some (r\<lparr>q_status := SENDING\<rparr>)) \<and>
    (\<forall>e \<in> set batch. \<forall>r \<in> set (data_queue db). eligible now r \<longrightarrow> q_id r \<notin> ID ` set batch \<longrightarrow>
       (priority_rank (Priority e), SequenceID e) \<le> dispatch_key r) \<and>
    (\<forall>i. i \<notin> ID ` set batch \<longrightarrow> lookup (data_queue db') i = lookup (data_queue db) i)"
proof -
  define elig where "elig = filter (eligible now) (data_queue db)"
  define rows where "rows = sql_limit limit (ob dispatch_key elig)"
  note b = FetchBatch_Inr [OF fetch, folded elig_def rows_def]
  have sub: "set rows \<subseteq> set elig" unfolding rows_def by (rule sql_order.limit_subset [OF ord])
  have ids: "ID ` set batch = q_id ` set rows" by (simp add: b(1) to_dispatch_def image_image)
  have keys: "map (\<lambda>e. (priority_rank (Priority e), SequenceID e)) batch = map dispatch_key rows"
    by (simp add: b(1) to_dispatch_def dispatch_key_def)
  show ?thesis
  proof (intro conjI ballI allI impI)
    show "int (length batch) \<le> limit"
      using lim length_sql_limit [OF lim, of "ob dispatch_key elig"] by (simp add: b(1) rows_def)
    show "sorted (map (\<lambda>e. (priority_rank (Priority e), SequenceID e)) batch)"
      unfolding keys rows_def by (rule sql_order.limit_sorted [OF ord])
  next
    fix e assume "e \<in> set batch"
    then obtain r where r: "r \<in> set rows" "e = (to_dispatch r)\<lparr>Status := ''SENDING''\<rparr>"
      by (auto simp: b(1))
    then have "r \<in> set (data_queue db)" "eligible now r" using sub by (auto simp: elig_def)
    moreover from this have "lookup (data_queue db) (q_id r) = Some r"
      using queue_invD(1) [OF inv] by (intro lookup_distinct)
    ultimately show "\<exists>r. lookup (data_queue db) (ID e) = Some r \<and> eligible now r \<and>
        e = (to_dispatch r)\<lparr>Status := ''SENDING''\<rparr> \<and>
        lookup (data_queue db') (ID e) = Some (r\<lparr>q_status := SENDING\<rparr>)"
      using r by (auto simp: b(2) lookup_update_ids to_dispatch_def)
  next
    fix e r assume e: "e \<in> set batch" and r: "r \<in> set (data_queue db)" "eligible now r" "q_id r \<notin> ID ` set batch"
    from e obtain s where s: "s \<in> set rows" "dispatch_key s = (priority_rank (Priority e), SequenceID e)"
      by (auto simp: b(1) to_dispatch_def dispatch_key_def)
    have "dispatch_key s \<le> dispatch_key r"
      using s(1) r unfolding rows_def
      by (intro sql_order.limit_best [OF ord, of s limit dispatch_key elig r]) (auto simp: elig_def ids rows_def)
    then show "(priority_rank (Priority e), SequenceID e) \<le> dispatch_key r" by (simp add: s(2))
  next
    fix i assume "i \<notin> ID ` set batch"
    then show "lookup (data_queue db') i = lookup (data_queue db) i"
      by (simp add: b(2) lookup_update_ids ids)
  qed
qed




text \<open>Whatever two callers ask for and whenever they ask, no entry is handed to both of two
  fetches with nothing in between, because the first one left its rows SENDING.\<close>

theorem FetchBatch_exclusive:
  assumes "queue_inv db" "FetchBatch ob flt now limit db = (Inr batch, db')"
    and "FetchBatch ob' flt' now' limit' db' = (Inr batch', db'')" "sql_order ob'"
  shows "ID ` set batch \<inter> ID ` set batch' = {}"
proof -
  define rows where "rows = sql_limit limit (ob dispatch_key (filter (eligible now) (data_queue db)))"
  define rows' where "rows' = sql_limit limit' (ob' dispatch_key (filter (eligible now') (data_queue db')))"
  note b = FetchBatch_Inr [OF assms(2), folded rows_def]
  note b' = FetchBatch_Inr [OF assms(3), folded rows'_def]
  have "set rows' \<subseteq> set (filter (eligible now') (data_queue db'))"
    unfolding rows'_def by (rule sql_order.limit_subset [OF assms(4)])
  moreover have "q_id r \<notin> set (map q_id rows)" if "r \<in> set (filter (eligible now') (data_queue db'))" for r :: row
    using that unfolding b(2) by (auto simp: set_update_ids eligible_def)
  ultimately have "\<forall>r \<in> set rows'. q_id r \<notin> set (map q_id rows)" by (meson subsetD)
  then have "q_id ` set rows \<inter> q_id ` set rows' = {}" by (simp add: disjoint_iff) (metis imageE)
  then show ?thesis
    by (simp add: b(1) b'(1) to_dispatch_def image_image)
qed

theorem FetchBatch_exclusive_witness:
  "\<exists>batch db' batch' db''. FetchBatch sort_key None 0 1 sample_db = (Inr batch, db') \<and>
     FetchBatch sort_key None 7 5 db' = (Inr batch', db'') \<and> ID ` set batch \<inter> ID ` set batch' = {}"
proof -
  obtain batch db' where f: "FetchBatch sort_key None 0 1 sample_db = (Inr batch, db')"
    by (rule FetchBatch_no_fault)
  obtain batch' db'' where f': "FetchBatch sort_key None 7 5 db' = (Inr batch', db'')"
    by (rule FetchBatch_no_fault)
  from FetchBatch_exclusive [OF queue_inv_sample f f' stable.sql_order_axioms] f f' show ?thesis by blast
qed

section \<open>Failed sends, recovery, retention and eviction\<close>

lemma ids_update_ids:
  assumes "\<And>r. q_id (f r) = q_id r"
  shows "q_id ` set (update_ids ids f rs) = q_id ` set rs"
proof -
  have "map q_id (update_ids ids f rs) = map q_id rs" using assms by (simp add: update_ids_def)
  then show ?thesis by (metis set_map)
qed

lemma mark_failed_loop_present:
  assumes "distinct ids" "set ids \<subseteq> q_id ` set rs"
  shows "\<exists>rs'. mark_failed_loop None clock e k ids rs = Inr rs' \<and>
    (\<forall>j < length ids. lookup rs' (ids ! j) =
       map_option (\<lambda>r. fail_row (clock (k + j)) e (q_retry_count r) r) (lookup rs (ids ! j))) \<and>
    (\<forall>i. i \<notin> set ids \<longrightarrow> lookup rs' i = lookup rs i)"
  using assms
proof (induction ids arbitrary: k rs)
  case (Cons x xs)
  then obtain r0 where r0: "lookup rs x = Some r0"
    using lookup_None_iff by fastforce
  define rs1 where "rs1 = update_ids [x] (fail_row (clock k) e (q_retry_count r0)) rs"
  have l1: "lookup rs1 i = (if i = x then Some (fail_row (clock k) e (q_retry_count r0) r0) else lookup rs i)" for i
    using r0 by (simp add: rs1_def lookup_update_ids fail_row_def)
  have "q_id ` set rs1 = q_id ` set rs"
    by (simp add: rs1_def ids_update_ids fail_row_def)
  with Cons.prems Cons.IH [of rs1 "Suc k"] obtain rs' where rs':
    "mark_failed_loop None clock e (Suc k) xs rs1 = Inr rs'"
    "\<And>j. j < length xs \<Longrightarrow> lookup rs' (xs ! j) =
       map_option (\<lambda>r. fail_row (clock (Suc k + j)) e (q_retry_count r) r) (lookup rs1 (xs ! j))"
    "\<And>i. i \<notin> set xs \<Longrightarrow> lookup rs' i = lookup rs1 i"
    by auto
  have "mark_failed_loop None clock e k (x # xs) rs = Inr rs'"
    using r0 rs'(1) by (simp add: lookup_def rs1_def)
  moreover have "xs ! j \<noteq> x" if "j < length xs" for j
    using Cons.prems(1) that nth_mem by fastforce
  ultimately show ?case
    using rs' l1 r0 Cons.prems(1)
    by (intro exI [of _ rs']) (auto simp: nth_Cons less_Suc_eq_0_disj split: nat.splits)
qed simp

lemma mark_failed_loop_missing:
  assumes "\<not> set ids \<subseteq> q_id ` set rs"
  shows "\<exists>x \<in> set ids. x \<notin> q_id ` set rs \<and>
    mark_failed_loop None clock e k ids rs = Inl (ReadRetryCount x ''sql: no rows in result set'')"
  using assms
proof (induction ids arbitrary: k rs)
  case (Cons x xs)
  show ?case
  proof (cases "lookup rs x")
    case None
    then show ?thesis using lookup_None_iff [of rs x] by (auto simp: lookup_def)
  next
    case (Some r0)
    let ?rs1 = "update_ids [x] (fail_row (clock k) e (q_retry_count r0)) rs"
    have ids: "q_id ` set ?rs1 = q_id ` set rs"
      by (simp add: ids_update_ids fail_row_def)
    from Some have "x \<in> q_id ` set rs" using lookup_SomeD by fastforce
    with Cons.prems have "\<not> set xs \<subseteq> q_id ` set ?rs1" by (simp add: ids)
    from Cons.IH [OF this, of "Suc k"] Some show ?thesis by (auto simp: ids lookup_def)
  qed
qed simp

text \<open>C10: after a failed send (and without a database failure) either every row of the batch is
  still stored, and then row number \<open>j\<close> is PENDING again with its retry count raised by one, the
  error recorded and its next attempt the backoff of that count after the instant it was processed,
  all else of it and every other row untouched; or some row has disappeared (storage eviction does
  not spare rows in flight), and then the call reports it and changes nothing at all.\<close>

theorem MarkFailed_spec:
  assumes "distinct ids" "ids \<noteq> []" "MarkFailed None clock ids e db = (res, db')"
  shows "if set ids \<subseteq> q_id ` set (data_queue db)
    then res = None \<and>
      (\<forall>j < length ids. \<exists>r. lookup (data_queue db) (ids ! j) = Some r \<and>
         lookup (data_queue db') (ids ! j) = Some (r\<lparr>q_status := PENDING,
           q_retry_count := q_retry_count r + 1, q_last_error := Some e,
           q_next_attempt_at := millis (clock j + BackoffDuration (q_retry_count r + 1))\<rparr>)) \<and>
      (\<forall>i. i \<notin> set ids \<longrightarrow> lookup (data_queue db') i = lookup (data_queue db) i)
    else (\<exists>x \<in> set ids. x \<notin> q_id ` set (data_queue db) \<and>
      res = Some (ReadRetryCount x ''sql: no rows in result set'')) \<and> db' = db"
proof (cases "set ids \<subseteq> q_id ` set (data_queue db)")
  case True
  from mark_failed_loop_present [OF assms(1) True, of clock e 0] obtain rs' where rs':
    "mark_failed_loop None clock e 0 ids (data_queue db) = Inr rs'"
    "\<And>j. j < length ids \<Longrightarrow> lookup rs' (ids ! j) =
       map_option (\<lambda>r. fail_row (clock j) e (q_retry_count r) r) (lookup (data_queue db) (ids ! j))"
    "\<And>i. i \<notin> set ids \<Longrightarrow> lookup rs' i = lookup (data_queue db) i"
    by auto
  have r: "res = None" "data_queue db' = rs'"
    using assms(2,3) rs'(1) by (auto simp: MarkFailed_def)
  have "\<exists>r. lookup (data_queue db) (ids ! j) = Some r" if "j < length ids" for j
    using True that nth_mem lookup_None_iff by fastforce
  with rs'(2,3) True show ?thesis by (fastforce simp: r fail_row_def)
next
  case False
  from mark_failed_loop_missing [OF False, of clock e 0] assms(2,3) False show ?thesis
    by (auto simp: MarkFailed_def)
qed

theorem MarkFailed_spec_witness:
  "\<exists>res db' r. MarkFailed None (\<lambda>_. 0) [1, 2] ''timeout'' sample_db = (res, db') \<and> res = None \<and>
     lookup (data_queue db') 2 = Some r \<and> q_retry_count r = 1 \<and> q_next_attempt_at r = 1000"
proof -
  obtain res db' where m: "MarkFailed None (\<lambda>_. 0) [1, 2] ''timeout'' sample_db = (res, db')"
    by fastforce
  have ids: "set [1, 2] \<subseteq> q_id ` set (data_queue sample_db)"
    by (simp add: sample_db_rows new_row_def)
  have "res = None \<and> (\<forall>j < length [1, 2::int]. \<exists>r. lookup (data_queue sample_db) ([1, 2] ! j) = Some r \<and>
         lookup (data_queue db') ([1, 2] ! j) = Some (r\<lparr>q_status := PENDING,
           q_retry_count := q_retry_count r + 1, q_last_error := Some ''timeout'',
           q_next_attempt_at := millis (0 + BackoffDuration (q_retry_count r + 1))\<rparr>))"
    using MarkFailed_spec [OF _ _ m] ids by simp
  from this [THEN conjunct2, rule_format, of 1] this m show ?thesis
    by (auto simp: sample_db_rows new_row_def BackoffDuration_def second_def millis_def millisecond_def)
qed


text \<open>Recovery at start-up leaves no row SENDING: the rows that were become PENDING with their
  retry count, error and next attempt kept, the returned count is their number, and the rows in any
  other state are untouched.\<close>

theorem Recover_spec:
  "\<exists>db'. RecoverSendingToPending None db =
     (Inr (int (length (filter (\<lambda>r. q_status r = SENDING) (data_queue db)))), db') \<and>
   (\<forall>r \<in> set (data_queue db'). q_status r \<noteq> SENDING) \<and>
   (\<forall>i. lookup (data_queue db') i = map_option
     (\<lambda>r. if q_status r = SENDING then r\<lparr>q_status := PENDING\<rparr> else r) (lookup (data_queue db) i))"
  by (auto simp: RecoverSendingToPending_def lookup_map)

theorem Recover_spec_witness:
  "\<exists>db'. RecoverSendingToPending None sample_db = (Inr 0, db') \<and>
     (\<forall>r \<in> set (data_queue db'). q_status r \<noteq> SENDING)"
  using Recover_spec [of sample_db] by (auto simp: sample_db_rows new_row_def)

text \<open>The retention sweep removes exactly the rows that are SENT and were sent before the
  cutoff \<open>now - retention\<close>; a row that is not SENT is never removed, and the survivors keep their
  order and content.\<close>

theorem retention_sweep_spec:
  assumes "retention_sweep None now keep db = (res, db')"
  shows "data_queue db' = filter (\<lambda>r. q_status r = SENT \<longrightarrow>
      (case q_sent_at r of None \<Rightarrow> True | Some t \<Rightarrow> millis (now - keep) \<le> t)) (data_queue db) \<and>
    res = Some (int (length (data_queue db)) - int (length (data_queue db'))) \<and>
    (\<forall>r \<in> set (data_queue db). q_status r \<noteq> SENT \<longrightarrow> r \<in> set (data_queue db'))"
proof -
  define dead where "dead = (\<lambda>r :: row. q_status r = SENT \<and>
    (case q_sent_at r of None \<Rightarrow> False | Some t \<Rightarrow> t < millis (now - keep)))"
  have r: "res = Some (int (length (filter dead (data_queue db))))"
    "data_queue db' = filter (\<lambda>r. \<not> dead r) (data_queue db)"
    using assms by (auto simp: retention_sweep_def DeleteSentOlderThan_def Let_def dead_def)
  have "length (filter dead (data_queue db)) + length (filter (\<lambda>r. \<not> dead r) (data_queue db)) = length (data_queue db)"
    by (rule sum_length_filter_compl)
  moreover have "\<not> dead r \<longleftrightarrow> (q_status r = SENT \<longrightarrow>
      (case q_sent_at r of None \<Rightarrow> True | Some t \<Rightarrow> millis (now - keep) \<le> t))" for r
    by (auto simp: dead_def split: option.splits)
  ultimately show ?thesis
    by (auto simp: r dead_def)
qed

theorem retention_sweep_spec_witness:
  "\<exists>res db'. retention_sweep None (9 * second) second sample_db = (res, db') \<and>
     set (data_queue sample_db) \<subseteq> set (data_queue db')"
proof -
  obtain res db' where w: "retention_sweep None (9 * second) second sample_db = (res, db')" by fastforce
  with retention_sweep_spec [OF w] show ?thesis
    by (intro exI [of _ res] exI [of _ db']) (auto simp: sample_db_rows new_row_def)
qed

lemma filter_ids_mem:
  assumes "distinct (map q_id rs)" "set vs \<subseteq> set rs" "(r :: row) \<in> set rs"
  shows "q_id r \<in> q_id ` set vs \<longleftrightarrow> r \<in> set vs"
  using assms distinct_map_same [of q_id rs] by (auto simp: image_iff subset_iff)



text \<open>The disk is CRITICAL exactly between 90 percent and the eviction threshold, so a
  threshold of at most 90 leaves no CRITICAL window at all.\<close>

theorem ClassifyStorageLevel_spec:
  "(ClassifyStorageLevel u f = StorageFull \<longleftrightarrow> f \<le> u) \<and>
   (ClassifyStorageLevel u f = StorageCritical \<longleftrightarrow> 90 \<le> u \<and> u < f) \<and>
   ((\<exists>v. ClassifyStorageLevel v f = StorageCritical) \<longleftrightarrow> 90 < f)"
proof -
  have crit: "ClassifyStorageLevel v f = StorageCritical \<longleftrightarrow> 90 \<le> v \<and> v < f" for v
    by (simp add: ClassifyStorageLevel_def)
  have "ClassifyStorageLevel u f = StorageFull \<longleftrightarrow> f \<le> u"
    by (simp add: ClassifyStorageLevel_def)
  moreover have "(\<exists>v. 90 \<le> v \<and> v < f) \<longleftrightarrow> 90 < f"
    by (meson le_less_trans order_refl)
  ultimately show ?thesis by (simp only: crit simp_thms)
qed

text \<open>The backoff is the doubling sequence from one second, capped at sixty: it agrees with the
  closed form for every retry count, so it always lies between one second and one minute and never
  decreases.\<close>

theorem BackoffDuration_spec:
  "BackoffDuration n = min 60 (2 ^ nat (max 1 n - 1)) * second \<and>
   second \<le> BackoffDuration n \<and> BackoffDuration n \<le> 60 * second \<and>
   BackoffDuration n \<le> BackoffDuration (n + 1)"
proof -
  have closed: "BackoffDuration m = min 60 (2 ^ nat (max 1 m - 1)) * second" for m
  proof (cases "7 < m")
    case True
    then have "(2::int) ^ 7 \<le> 2 ^ nat (m - 1)" by (intro power_increasing) auto
    with True show ?thesis by (simp add: BackoffDuration_def max_def second_def)
  next
    case False
    then show ?thesis by (auto simp: BackoffDuration_def Let_def max_def min_def second_def)
  qed
  have "(2::int) ^ nat (max 1 n - 1) \<le> 2 ^ nat (max 1 (n + 1) - 1)"
    by (intro power_increasing) auto
  then have "min 60 ((2::int) ^ nat (max 1 n - 1)) \<le> min 60 (2 ^ nat (max 1 (n + 1) - 1))" by linarith
  moreover have "(1::int) \<le> 2 ^ nat (max 1 n - 1)" by simp
  ultimately show ?thesis by (simp add: closed second_def min_def)
qed

end
