(* ===== verification/Forwarder.thy ===== *)
theory Forwarder
  imports Queue
begin

text \<open>
  The forwarder \<open>src/gateway/internal/forwarder\<close>: the wire format (\<open>wire.go\<close>),
  the connectivity status (\<open>status.go\<close>) and the dispatch loop (\<open>forwarder.go\<close>), with the
  interface \<open>Adapter\<close> of \<open>adapter.go\<close> as the locale \<open>adapter\<close>.

  A JSON text is modelled by the value it encodes (or by the fact that it encodes none), because
  both ends use \<open>encoding/json\<close> on the same field names; what the model keeps of the codec is
  its one failure, a number that is not finite. A timestamp field is either the text of an instant or
  a text \<open>time.Parse\<close> rejects.
\<close>

section \<open>Wire format\<close>

datatype wire_time = Instant gotime | Unparsable string

record wire_entry =
  w_GatewayID :: string
  w_SequenceID :: int
  w_DeviceID :: int
  w_DatapointID :: int
  w_Value :: "f64 option"
  w_Quality :: string
  w_EventTimestamp :: wire_time
  w_Priority :: string

datatype 'a payload = Json 'a | Malformed string

definition toWireEntry :: "dispatch_entry \<Rightarrow> wire_entry" where
  "toWireEntry e = \<lparr>w_GatewayID = GatewayID e, w_SequenceID = SequenceID e, w_DeviceID = DeviceID e,
     w_DatapointID = DatapointID e, w_Value = Value e, w_Quality = Quality e,
     w_EventTimestamp = Instant (EventTimestamp e), w_Priority = Priority e\<rparr>"

definition toWireEntries :: "dispatch_entry list \<Rightarrow> wire_entry list" where
  "toWireEntries batch = map toWireEntry batch"

definition wire_key :: "wire_entry \<Rightarrow> string \<times> int" where
  "wire_key w = (w_GatewayID w, w_SequenceID w)"

definition entry_key :: "dispatch_entry \<Rightarrow> string \<times> int" where
  "entry_key e = (GatewayID e, SequenceID e)"

fun json_number_error :: "f64 \<Rightarrow> string option" where
  \<comment> \<open>\<open>json.Marshal\<close> of a \<open>float64\<close>: \<open>UnsupportedValueError\<close>\<close>
  "json_number_error NaN = Some ''json: unsupported value: NaN''"
| "json_number_error (Inf s) =
     Some (''json: unsupported value: '' @ (if s then ''-Inf'' else ''+Inf''))"
| "json_number_error (Fin s m e) = None"

fun marshal_error :: "wire_entry list \<Rightarrow> string option" where
  "marshal_error [] = None"
| "marshal_error (w # ws) =
     (case Option.bind (w_Value w) json_number_error of Some m \<Rightarrow> Some m | None \<Rightarrow> marshal_error ws)"

section \<open>Connectivity status\<close>

record fwd_status =
  Connected :: bool
  S_LastError :: string
  LastSuccessAt :: "gotime option"
  LastAttemptAt :: "gotime option"

definition init_status :: fwd_status where
  "init_status = \<lparr>Connected = False, S_LastError = [], LastSuccessAt = None, LastAttemptAt = None\<rparr>"

definition recordSuccess :: "gotime \<Rightarrow> fwd_status \<Rightarrow> fwd_status" where
  "recordSuccess now s = s\<lparr>Connected := True, S_LastError := [], LastSuccessAt := Some now,
     LastAttemptAt := Some now\<rparr>"

definition recordFailure :: "gotime \<Rightarrow> string \<Rightarrow> fwd_status \<Rightarrow> fwd_status" where
  "recordFailure now err s = s\<lparr>Connected := False, S_LastError := err, LastAttemptAt := Some now\<rparr>"

section \<open>The dispatch loop\<close>

record fwd_config =
  BatchSize :: int
  PollInterval :: duration

definition New_forwarder :: "fwd_config \<Rightarrow> fwd_config" where
  \<comment> \<open>\<open>forwarder.New\<close>: the configuration the forwarder runs with\<close>
  "New_forwarder cfg =
     (let cfg = (if BatchSize cfg \<le> 0 then cfg\<lparr>BatchSize := 100\<rparr> else cfg)
      in if PollInterval cfg \<le> 0 then cfg\<lparr>PollInterval := second\<rparr> else cfg)"

text \<open>What one tick meets: the database failures of its two transactions, the instants it reads, the
  order SQLite returns rows in, the outcome of the network as the adapter sees it, and what the
  other goroutines do to the queue between the fetch and the final update.\<close>

record 'e tick =
  t_order :: row_order
  t_fetch_fault :: fault
  t_mark_fault :: fault
  t_fetch :: gotime
  t_answer :: gotime
  t_mark :: "nat \<Rightarrow> gotime"
  t_net :: 'e
  t_during :: "qdb \<Rightarrow> qdb"

type_synonym ('e, 's) send_fn = "'e \<Rightarrow> 's \<Rightarrow> dispatch_entry list \<Rightarrow> string option \<times> 's"

record 's fwd_state =
  f_db :: qdb
  f_status :: fwd_status
  f_net :: 's

definition dispatchOnce ::
  "('e, 's) send_fn \<Rightarrow> fwd_config \<Rightarrow> 'e tick \<Rightarrow> 's fwd_state \<Rightarrow> 's fwd_state" where
  "dispatchOnce send cfg t f =
     (case FetchBatch (t_order t) (t_fetch_fault t) (t_fetch t) (BatchSize cfg) (f_db f) of
        (Inl _, db) \<Rightarrow> f\<lparr>f_db := t_during t db\<rparr>
      | (Inr batch, db) \<Rightarrow>
          if batch = [] then f\<lparr>f_db := t_during t db\<rparr>
          else
          (let ids = map ID batch
           in case send (t_net t) (f_net f) batch of
                (Some err, net) \<Rightarrow>
                  f\<lparr>f_net := net, f_status := recordFailure (t_answer t) err (f_status f),
                    f_db := snd (MarkFailed (t_mark_fault t) (t_mark t) ids err (t_during t db))\<rparr>
              | (None, net) \<Rightarrow>
                  f\<lparr>f_net := net, f_status := recordSuccess (t_answer t) (f_status f),
                    f_db := snd (MarkSent (t_mark_fault t) (t_mark t 0) ids (t_during t db))\<rparr>))"

definition Run_forwarder ::
  "('e, 's) send_fn \<Rightarrow> fwd_config \<Rightarrow> fault \<Rightarrow> 'e tick list \<Rightarrow> 's fwd_state \<Rightarrow> 's fwd_state" where
  \<comment> \<open>the ticks up to the cancellation of the context\<close>
  "Run_forwarder send cfg flt ticks f =
     fold (dispatchOnce send cfg) ticks (f\<lparr>f_db := snd (RecoverSendingToPending flt (f_db f))\<rparr>)"

section \<open>The contract of an adapter\<close>

text \<open>\<open>delivered s\<close> is what the server holds in the state \<open>s\<close> of the transport and the
  server. A positive answer means the whole batch is there; a call never removes or rewrites what
  the server holds; and what it adds are entries of the batch. \<open>ok\<close> holds of the outcomes of the
  network the transport is built for.\<close>

locale adapter =
  fixes send :: "('e, 's) send_fn"
    and ok :: "'e \<Rightarrow> 's \<Rightarrow> bool"
    and delivered :: "'s \<Rightarrow> string \<times> int \<Rightarrow> wire_entry option"
  assumes send_ok: "ok env s \<Longrightarrow> send env s b = (None, s') \<Longrightarrow> e \<in> set b \<Longrightarrow>
      delivered s' (entry_key e) \<noteq> None"
    and send_keeps: "delivered s k = Some w \<Longrightarrow> delivered (snd (send env s b)) k = Some w"
    and send_adds: "\<forall>e \<in> set b. millisecond dvd EventTimestamp e \<Longrightarrow>
      delivered (snd (send env s b)) k = Some w \<Longrightarrow>
      delivered s k = Some w \<or> (\<exists>e \<in> set b. entry_key e = k \<and> toWireEntry e = w)"

end
