(* ===== verification/Server.thy ===== *)
theory Server
  imports Forwarder "HOL-Library.List_Lexorder" "HOL-Library.Char_ord"
begin

text \<open>
  The two servers a gateway forwards to: the in-memory development server
  \<open>src/gateway/cmd/server-sim\<close> and the production consumer \<open>src/internal-server\<close>
  (\<open>store.go\<close>, \<open>consumer.go\<close> and the query part of \<open>server.go\<close>).

  The table \<open>readings\<close> is the list of its rows in insertion order; the serial \<open>id\<close>, which no
  query reads, is left out. A TIMESTAMPTZ column keeps an instant to the microsecond. Each INSERT of
  \<open>ingest\<close> commits by itself, so an ingest that fails keeps the rows it had stored.
\<close>

section \<open>Library functions\<close>

definition has_suffix :: "string \<Rightarrow> string \<Rightarrow> bool" where
  "has_suffix s x \<longleftrightarrow> length x \<le> length s \<and> drop (length s - length x) s = x"

definition TrimSuffix :: "string \<Rightarrow> string \<Rightarrow> string" where
  "TrimSuffix s x = (if has_suffix s x then take (length s - length x) s else s)"

lemma TrimSuffix_append [simp]: "TrimSuffix (s @ x) x = s"
  by (simp add: TrimSuffix_def has_suffix_def)

definition digit :: "char \<Rightarrow> nat option" where
  "digit c = (let n = (of_char c :: nat) in if 48 \<le> n \<and> n < 58 then Some (n - 48) else None)"

fun parse_digits :: "nat \<Rightarrow> string \<Rightarrow> nat option" where
  "parse_digits acc [] = Some acc"
| "parse_digits acc (c # cs) =
     (case digit c of None \<Rightarrow> None | Some d \<Rightarrow> parse_digits (10 * acc + d) cs)"

definition ParseInt :: "string \<Rightarrow> int option" where
  \<comment> \<open>\<open>strconv.ParseInt(s, 10, 64)\<close>, and \<open>strconv.Atoi\<close> on a 64-bit platform\<close>
  "ParseInt s =
     (let neg = (s \<noteq> [] \<and> hd s = CHR ''-'');
          body = (if s \<noteq> [] \<and> (hd s = CHR ''-'' \<or> hd s = CHR ''+'') then tl s else s)
      in if body = [] then None
         else case parse_digits 0 body of
                None \<Rightarrow> None
              | Some n \<Rightarrow>
                  (let i = (if neg then - int n else int n)
                   in if - (2 ^ 63) \<le> i \<and> i < 2 ^ 63 then Some i else None))"

section \<open>server-sim\<close>

record sim_store =
  seen :: "string \<times> int \<Rightarrow> wire_entry option"
  received :: "wire_entry list"

definition newStore :: sim_store where
  "newStore = \<lparr>seen = Map.empty, received = []\<rparr>"

fun sim_ingest_loop :: "wire_entry list \<Rightarrow> int \<Rightarrow> int \<Rightarrow> sim_store \<Rightarrow> (int \<times> int) \<times> sim_store" where
  "sim_ingest_loop [] accepted duplicates s = ((accepted, duplicates), s)"
| "sim_ingest_loop (e # es) accepted duplicates s =
     (let k = wire_key e
      in case seen s k of
           Some _ \<Rightarrow> sim_ingest_loop es accepted (duplicates + 1) s
         | None \<Rightarrow> sim_ingest_loop es (accepted + 1) duplicates
             (s\<lparr>seen := (seen s)(k \<mapsto> e), received := received s @ [e]\<rparr>))"

definition sim_ingest :: "wire_entry list \<Rightarrow> sim_store \<Rightarrow> (int \<times> int) \<times> sim_store" where
  "sim_ingest batch s = sim_ingest_loop batch 0 0 s"

definition sim_all :: "sim_store \<Rightarrow> wire_entry list" where
  "sim_all s = received s"

datatype http_body = ErrorText string | Counts int int | Entries "wire_entry list"

definition sim_http_ingest ::
  "string \<Rightarrow> wire_entry list payload \<Rightarrow> sim_store \<Rightarrow> (int \<times> http_body) \<times> sim_store" where
  "sim_http_ingest meth body s =
     (if meth \<noteq> ''POST'' then ((405, ErrorText ''method not allowed''), s)
      else case body of
             Malformed m \<Rightarrow> ((400, ErrorText (''invalid JSON: '' @ m)), s)
           | Json batch \<Rightarrow>
               (case sim_ingest batch s of ((a, d), s') \<Rightarrow> ((200, Counts a d), s')))"

definition sim_http_received :: "sim_store \<Rightarrow> int \<times> http_body" where
  "sim_http_received s = (200, Entries (sim_all s))"

section \<open>MQTT payloads\<close>

record wire_batch =
  BatchID :: string
  B_Entries :: "wire_entry list"

record wire_ack =
  A_BatchID :: string
  A_Error :: string

definition ack_topic_of :: "string \<Rightarrow> string" where
  "ack_topic_of topic = TrimSuffix topic ''/data'' @ ''/ack''"

definition sim_mqtt_message ::
  "string \<Rightarrow> wire_batch payload \<Rightarrow> sim_store \<Rightarrow> (string \<times> wire_ack) option \<times> sim_store" where
  "sim_mqtt_message topic msg s =
     (case msg of
        Malformed _ \<Rightarrow> (None, s)
      | Json batch \<Rightarrow>
          (case sim_ingest (B_Entries batch) s of (_, s') \<Rightarrow>
             (Some (ack_topic_of topic, \<lparr>A_BatchID = BatchID batch, A_Error = []\<rparr>), s')))"

section \<open>internal-server: the readings table\<close>

record reading =
  r_gateway_id :: string
  r_sequence_id :: int
  r_device_id :: int
  r_datapoint_id :: int
  r_value :: "f64 option"
  r_quality :: string
  r_event_timestamp :: gotime
  r_priority :: string
  r_received_at :: gotime

definition timestamptz :: "gotime \<Rightarrow> gotime" where
  "timestamptz t = t div 1000 * 1000"

definition reading_key :: "reading \<Rightarrow> string \<times> int" where
  "reading_key r = (r_gateway_id r, r_sequence_id r)"

text \<open>The instants of one ingest: \<open>i_now i\<close> is the process clock and \<open>i_db i\<close> the database
  clock at its \<open>i\<close>-th entry.\<close>

record ingest_env =
  i_fault :: fault
  i_now :: "nat \<Rightarrow> gotime"
  i_db :: "nat \<Rightarrow> gotime"

fun ingest_loop ::
  "ingest_env \<Rightarrow> nat \<Rightarrow> wire_entry list \<Rightarrow> int \<Rightarrow> int \<Rightarrow> reading list \<Rightarrow>
   (int \<times> int \<times> string option) \<times> reading list" where
  "ingest_loop env i [] accepted duplicates db = ((accepted, duplicates, None), db)"
| "ingest_loop env i (e # es) accepted duplicates db =
     (let ts = (case w_EventTimestamp e of Instant t \<Rightarrow> t | Unparsable _ \<Rightarrow> i_now env i)
      in case fault_at (AtExec i) (i_fault env) of
           Some m \<Rightarrow> ((accepted, duplicates, Some m), db)
         | None \<Rightarrow>
             if wire_key e \<in> reading_key ` set db
             then ingest_loop env (Suc i) es accepted (duplicates + 1) db
             else ingest_loop env (Suc i) es (accepted + 1) duplicates
               (db @ [\<lparr>r_gateway_id = w_GatewayID e, r_sequence_id = w_SequenceID e,
                  r_device_id = w_DeviceID e, r_datapoint_id = w_DatapointID e,
                  r_value = w_Value e, r_quality = w_Quality e, r_event_timestamp = timestamptz ts,
                  r_priority = w_Priority e, r_received_at = timestamptz (i_db env i)\<rparr>]))"

definition ingest ::
  "ingest_env \<Rightarrow> wire_entry list \<Rightarrow> reading list \<Rightarrow> (int \<times> int \<times> string option) \<times> reading list" where
  "ingest env entries db = ingest_loop env 0 entries 0 0 db"

type_synonym 'k reading_order = "(reading \<Rightarrow> 'k) \<Rightarrow> reading list \<Rightarrow> reading list"

definition recent ::
  "int reading_order \<Rightarrow> fault \<Rightarrow> string \<Rightarrow> int option \<Rightarrow> int option \<Rightarrow> gotime option \<Rightarrow> int \<Rightarrow>
   reading list \<Rightarrow> string + reading list" where
  "recent ob flt gatewayID deviceID datapointID since limit db =
     (case fault_at (AtQuery 0) flt of Some m \<Rightarrow> Inl m | None \<Rightarrow>
      Inr (sql_limit limit (ob (\<lambda>r. - r_received_at r) (filter (\<lambda>r.
        (gatewayID = [] \<or> r_gateway_id r = gatewayID) \<and>
        (case deviceID of None \<Rightarrow> True | Some d \<Rightarrow> r_device_id r = d) \<and>
        (case datapointID of None \<Rightarrow> True | Some d \<Rightarrow> r_datapoint_id r = d) \<and>
        (case since of None \<Rightarrow> True | Some t \<Rightarrow> timestamptz t \<le> r_received_at r)) db))))"

definition point_key :: "reading \<Rightarrow> string \<times> int \<times> int" where
  "point_key r = (r_gateway_id r, r_device_id r, r_datapoint_id r)"

function distinct_on :: "('a \<Rightarrow> 'k) \<Rightarrow> 'a list \<Rightarrow> 'a list" where
  \<comment> \<open>\<open>SELECT DISTINCT ON (k)\<close> keeps the first row of every run of equal keys\<close>
  "distinct_on k [] = []"
| "distinct_on k (x # xs) = x # distinct_on k (dropWhile (\<lambda>y. k y = k x) xs)"
  by pat_completeness auto
termination
  by (relation "measure (length \<circ> snd)") (auto simp: le_imp_less_Suc length_dropWhile_le)

definition latest :: "((string \<times> int \<times> int) \<times> int) reading_order \<Rightarrow> fault \<Rightarrow> reading list \<Rightarrow> string + reading list" where
  "latest ob flt db =
     (case fault_at (AtQuery 0) flt of Some m \<Rightarrow> Inl m | None \<Rightarrow>
      Inr (distinct_on point_key (ob (\<lambda>r. (point_key r, - r_received_at r)) db)))"

record gateway_stat =
  st_GatewayID :: string
  st_Count :: int
  st_LastReceived :: gotime
  st_Online :: bool

definition stats_of :: "gotime \<Rightarrow> duration \<Rightarrow> reading list \<Rightarrow> string \<Rightarrow> gateway_stat" where
  "stats_of now onlineThreshold db g =
     (let rs = filter (\<lambda>r. r_gateway_id r = g) db;
          lastr = Max (set (map r_received_at rs))
      in \<lparr>st_GatewayID = g, st_Count = int (length rs), st_LastReceived = lastr,
          st_Online = (now - lastr \<le> onlineThreshold)\<rparr>)"

definition server_stats :: "fault \<Rightarrow> gotime \<Rightarrow> duration \<Rightarrow> reading list \<Rightarrow> string + gateway_stat list" where
  "server_stats flt now onlineThreshold db =
     (case fault_at (AtQuery 0) flt of Some m \<Rightarrow> Inl m | None \<Rightarrow>
      Inr (map (stats_of now onlineThreshold db) (sorted_list_of_set (r_gateway_id ` set db))))"

section \<open>internal-server: the consumer and the query parameters\<close>

record consumer =
  c_connected :: bool

definition c_onConnect :: "consumer \<Rightarrow> consumer" where
  "c_onConnect c = c\<lparr>c_connected := True\<rparr>"

definition c_onConnectionLost :: "consumer \<Rightarrow> consumer" where
  "c_onConnectionLost c = c\<lparr>c_connected := False\<rparr>"

fun subscribe_attempts :: "(nat \<Rightarrow> string option) \<Rightarrow> nat \<Rightarrow> nat \<Rightarrow> bool \<times> duration" where
  \<comment> \<open>the loop from attempt \<open>a\<close> with \<open>n\<close> attempts left: success, and the time slept\<close>
  "subscribe_attempts res a 0 = (False, 0)"
| "subscribe_attempts res a (Suc n) =
     (case res a of
        None \<Rightarrow> (True, 0)
      | Some _ \<Rightarrow> (case subscribe_attempts res (Suc a) n of (ok, d) \<Rightarrow> (ok, int a * second + d)))"

definition subscribeWithRetry :: "(nat \<Rightarrow> string option) \<Rightarrow> bool \<times> duration" where
  "subscribeWithRetry res = subscribe_attempts res 1 3"

definition handleMessage ::
  "ingest_env \<Rightarrow> string \<Rightarrow> wire_batch payload \<Rightarrow> reading list \<Rightarrow>
   (string \<times> wire_ack) option \<times> reading list" where
  "handleMessage env topic msg db =
     (case msg of
        Malformed _ \<Rightarrow> (None, db)
      | Json batch \<Rightarrow>
          (case ingest env (B_Entries batch) db of
             ((_, _, Some _), db') \<Rightarrow> (None, db')
           | ((_, _, None), db') \<Rightarrow>
               (Some (ack_topic_of topic, \<lparr>A_BatchID = BatchID batch, A_Error = []\<rparr>), db')))"

definition parseOptionalInt64 :: "string \<Rightarrow> int option" where
  "parseOptionalInt64 s = (if s = [] then None else ParseInt s)"

definition readings_limit :: "string \<Rightarrow> wire_time option \<Rightarrow> int \<times> gotime option" where
  \<comment> \<open>the \<open>limit\<close> and \<open>since\<close> of \<open>GET /readings\<close>; \<open>None\<close> is an absent \<open>since\<close>\<close>
  "readings_limit limitParam sinceParam =
     (let limit = (case (if limitParam = [] then None else ParseInt limitParam) of
                     Some n \<Rightarrow> if 0 < n \<and> n \<le> 5000 then n else 100
                   | None \<Rightarrow> 100)
      in case sinceParam of
           Some (Instant t) \<Rightarrow> (if limitParam = [] then 5000 else limit, Some t)
         | _ \<Rightarrow> (limit, None))"

definition get_readings ::
  "int reading_order \<Rightarrow> fault \<Rightarrow> string \<Rightarrow> string \<Rightarrow> string \<Rightarrow> string \<Rightarrow> wire_time option \<Rightarrow> reading list \<Rightarrow>
   int \<times> (string + reading list)" where
  "get_readings ob flt gatewayID device_id datapoint_id limitParam sinceParam db =
     (case readings_limit limitParam sinceParam of (limit, since) \<Rightarrow>
      case recent ob flt gatewayID (parseOptionalInt64 device_id) (parseOptionalInt64 datapoint_id) since limit db of
        Inl _ \<Rightarrow> (500, Inl ''internal error'')
      | Inr rows \<Rightarrow> (200, Inr rows))"

section \<open>The contract of an idempotent store\<close>

definition canonical_entry :: "wire_entry \<Rightarrow> bool" where
  \<comment> \<open>the entries a gateway sends: whole milliseconds\<close>
  "canonical_entry e \<longleftrightarrow> (case w_EventTimestamp e of Instant t \<Rightarrow> millisecond dvd t | Unparsable _ \<Rightarrow> False)"

text \<open>\<open>put env b s\<close> is the store after it was given the batch \<open>b\<close>, and \<open>complete env b s\<close>
  says that it reports success. The first entry stored under a key stays.\<close>

locale idempotent_store =
  fixes put :: "'env \<Rightarrow> wire_entry list \<Rightarrow> 's \<Rightarrow> 's"
    and complete :: "'env \<Rightarrow> wire_entry list \<Rightarrow> 's \<Rightarrow> bool"
    and contents :: "'s \<Rightarrow> string \<times> int \<Rightarrow> wire_entry option"
    and good :: "'s \<Rightarrow> bool"
  assumes put_keeps: "contents s k = Some w \<Longrightarrow> contents (put env b s) k = Some w"
    and put_adds: "\<forall>e \<in> set b. canonical_entry e \<Longrightarrow> contents (put env b s) k = Some w \<Longrightarrow>
      contents s k = Some w \<or> w \<in> set b \<and> wire_key w = k"
    and put_only: "k \<notin> wire_key ` set b \<Longrightarrow> contents (put env b s) k = contents s k"
    and put_complete: "complete env b s \<Longrightarrow> e \<in> set b \<Longrightarrow> contents (put env b s) (wire_key e) \<noteq> None"
    and put_good: "good s \<Longrightarrow> good (put env b s)"
begin

text \<open>A batch that is sent again, after any number of other batches, changes nothing.\<close>

lemma put_again:
  assumes "\<And>e. e \<in> set b \<Longrightarrow> contents s (wire_key e) \<noteq> None"
  shows "contents (put env b s) = contents s"
proof
  fix k
  show "contents (put env b s) k = contents s k"
  proof (cases "contents s k")
    case None
    with assms have "k \<notin> wire_key ` set b" by (metis imageE)
    then show ?thesis by (rule put_only)
  next
    case (Some w)
    then show ?thesis using put_keeps by metis
  qed
qed

lemma puts_keep:
  "contents s k = Some w \<Longrightarrow> contents (fold (\<lambda>(env, b). put env b) hist s) k = Some w"
  by (induction hist arbitrary: s) (auto simp: put_keeps)

lemma puts_good: "good s \<Longrightarrow> good (fold (\<lambda>(env, b). put env b) hist s)"
  by (induction hist arbitrary: s) (auto simp: put_good)

lemma resend_idempotent:
  assumes "complete env b s"
  shows "contents (put env' b (fold (\<lambda>(env, b). put env b) hist (put env b s))) =
    contents (fold (\<lambda>(env, b). put env b) hist (put env b s))"
proof (rule put_again)
  fix e assume "e \<in> set b"
  with put_complete [OF assms] obtain w where "contents (put env b s) (wire_key e) = Some w" by blast
  from puts_keep [OF this] show "contents (fold (\<lambda>(env, b). put env b) hist (put env b s)) (wire_key e) \<noteq> None"
    by auto
qed

end

section \<open>server-sim is an idempotent store\<close>

definition sim_good :: "sim_store \<Rightarrow> bool" where
  \<comment> \<open>the index and the log agree, and no key is logged twice\<close>
  "sim_good s \<longleftrightarrow> distinct (map wire_key (received s)) \<and>
     (\<forall>k e. seen s k = Some e \<longleftrightarrow> e \<in> set (received s) \<and> wire_key e = k)"

definition sim_put :: "unit \<Rightarrow> wire_entry list \<Rightarrow> sim_store \<Rightarrow> sim_store" where
  "sim_put u b s = snd (sim_ingest b s)"

lemma sim_loop_counts:
  "fst (sim_ingest_loop b a d s) = (a', d') \<Longrightarrow>
   a' + d' = a + d + int (length b) \<and>
   int (length (received (snd (sim_ingest_loop b a d s)))) = int (length (received s)) + (a' - a)"
proof (induction b arbitrary: a d s)
  case (Cons x b)
  show ?case
  proof (cases "seen s (wire_key x)")
    case None
    with Cons.prems show ?thesis
      using Cons.IH [of "a + 1" d "s\<lparr>seen := (seen s)(wire_key x \<mapsto> x), received := received s @ [x]\<rparr>"]
      by simp
  next
    case (Some y)
    with Cons.prems show ?thesis using Cons.IH [of a "d + 1" s] by simp
  qed
qed simp

lemma sim_loop_keeps:
  "seen s k = Some w \<Longrightarrow> seen (snd (sim_ingest_loop b a d s)) k = Some w"
proof (induction b arbitrary: a d s)
  case (Cons x b)
  have "seen (s\<lparr>seen := (seen s)(wire_key x \<mapsto> x), received := received s @ [x]\<rparr>) k = Some w"
    if "seen s (wire_key x) = None"
    using that Cons.prems by auto
  from Cons.IH [OF this] Cons.IH [OF Cons.prems] show ?case
    by (cases "seen s (wire_key x)") simp_all
qed simp

lemma sim_loop_adds:
  "seen (snd (sim_ingest_loop b a d s)) k = Some w \<Longrightarrow>
   seen s k = Some w \<or> w \<in> set b \<and> wire_key w = k"
proof (induction b arbitrary: a d s)
  case (Cons x b)
  show ?case
  proof (cases "seen s (wire_key x)")
    case None
    with Cons.prems have "seen (snd (sim_ingest_loop b (a + 1) d
        (s\<lparr>seen := (seen s)(wire_key x \<mapsto> x), received := received s @ [x]\<rparr>))) k = Some w" by simp
    from Cons.IH [OF this] show ?thesis by (auto split: if_splits)
  next
    case (Some y)
    with Cons.prems have "seen (snd (sim_ingest_loop b a (d + 1) s)) k = Some w" by simp
    from Cons.IH [OF this] show ?thesis by auto
  qed
qed simp

lemma sim_loop_complete:
  "e \<in> set b \<Longrightarrow> seen (snd (sim_ingest_loop b a d s)) (wire_key e) \<noteq> None"
proof (induction b arbitrary: a d s)
  case (Cons x b)
  then show ?case by (cases "seen s (wire_key x)") (auto simp: sim_loop_keeps)
qed simp

lemma sim_loop_good:
  "sim_good s \<Longrightarrow> sim_good (snd (sim_ingest_loop b a d s))"
proof (induction b arbitrary: a d s)
  case (Cons x b)
  show ?case
  proof (cases "seen s (wire_key x)")
    case None
    with Cons.prems have "wire_key x \<notin> wire_key ` set (received s)"
      unfolding sim_good_def by (metis imageE option.distinct(1))
    with Cons.prems None have "sim_good (s\<lparr>seen := (seen s)(wire_key x \<mapsto> x), received := received s @ [x]\<rparr>)"
      by (auto simp: sim_good_def) (metis image_eqI)
    with Cons.IH None show ?thesis by simp
  qed (use Cons in simp)
qed simp

lemma sim_put_only:
  assumes "k \<notin> wire_key ` set b"
  shows "seen (sim_put env b s) k = seen s k"
proof (cases "seen (sim_put env b s) k")
  case None
  then show ?thesis
    using sim_loop_keeps [of s k _ b 0 0] by (cases "seen s k") (auto simp: sim_put_def sim_ingest_def)
next
  case (Some w)
  then show ?thesis
    using sim_loop_adds [of b 0 0 s k w] assms by (auto simp: sim_put_def sim_ingest_def)
qed

interpretation sim: idempotent_store sim_put "\<lambda>_ _ _. True" seen sim_good
proof unfold_locales
  show "seen s k = Some w \<Longrightarrow> seen (sim_put env b s) k = Some w" for s k w env b
    by (simp add: sim_put_def sim_ingest_def sim_loop_keeps)
  show "seen (sim_put env b s) k = Some w \<Longrightarrow> seen s k = Some w \<or> w \<in> set b \<and> wire_key w = k" for env b s k w
    unfolding sim_put_def sim_ingest_def by (rule sim_loop_adds)
  show "e \<in> set b \<Longrightarrow> seen (sim_put env b s) (wire_key e) \<noteq> None" for e b env s
    unfolding sim_put_def sim_ingest_def by (rule sim_loop_complete)
  show "sim_good s \<Longrightarrow> sim_good (sim_put env b s)" for s env b
    by (simp add: sim_put_def sim_ingest_def sim_loop_good)
qed (rule sim_put_only)

section \<open>internal-server is an idempotent store\<close>

definition wire_of_reading :: "reading \<Rightarrow> wire_entry" where
  "wire_of_reading r = \<lparr>w_GatewayID = r_gateway_id r, w_SequenceID = r_sequence_id r,
     w_DeviceID = r_device_id r, w_DatapointID = r_datapoint_id r, w_Value = r_value r,
     w_Quality = r_quality r, w_EventTimestamp = Instant (r_event_timestamp r), w_Priority = r_priority r\<rparr>"

definition pg_contents :: "reading list \<Rightarrow> string \<times> int \<Rightarrow> wire_entry option" where
  "pg_contents db k = map_option wire_of_reading (find (\<lambda>r. reading_key r = k) db)"

definition pg_put :: "ingest_env \<Rightarrow> wire_entry list \<Rightarrow> reading list \<Rightarrow> reading list" where
  "pg_put env b db = snd (ingest env b db)"

definition pg_complete :: "ingest_env \<Rightarrow> wire_entry list \<Rightarrow> reading list \<Rightarrow> bool" where
  "pg_complete env b db \<longleftrightarrow> snd (snd (fst (ingest env b db))) = None"

definition pg_good :: "reading list \<Rightarrow> bool" where
  \<comment> \<open>the UNIQUE constraint\<close>
  "pg_good db \<longleftrightarrow> distinct (map reading_key db)"

lemma find_append_keep: "find P xs = Some x \<Longrightarrow> find P (xs @ ys) = Some x"
  by (induction xs) auto

lemma find_append_new: "find P xs = None \<Longrightarrow> find P (xs @ ys) = find P ys"
  by (induction xs) auto

lemma find_key_None: "find (\<lambda>r. f r = k) xs = None \<longleftrightarrow> k \<notin> f ` set xs"
  by (auto simp: find_None_iff)

lemma pg_contents_append:
  "pg_contents (db @ [r]) k =
     (if k \<notin> reading_key ` set db \<and> reading_key r = k then Some (wire_of_reading r) else pg_contents db k)"
proof (cases "find (\<lambda>r. reading_key r = k) db")
  case None
  then show ?thesis by (simp add: pg_contents_def find_append_new find_key_None [symmetric])
next
  case (Some x)
  then have "k \<in> reading_key ` set db" by (auto simp: find_Some_iff)
  with Some show ?thesis by (simp add: pg_contents_def find_append_keep)
qed

lemma pg_contents_None: "pg_contents db k = None \<longleftrightarrow> k \<notin> reading_key ` set db"
  by (simp add: pg_contents_def find_key_None)

lemma timestamptz_exact: "millisecond dvd t \<Longrightarrow> timestamptz t = t"
  by (auto simp: timestamptz_def millisecond_def dvd_def)

text \<open>What one iteration of \<open>ingest\<close> does to the contents.\<close>

definition new_reading :: "ingest_env \<Rightarrow> nat \<Rightarrow> wire_entry \<Rightarrow> reading" where
  "new_reading env i e = \<lparr>r_gateway_id = w_GatewayID e, r_sequence_id = w_SequenceID e,
     r_device_id = w_DeviceID e, r_datapoint_id = w_DatapointID e, r_value = w_Value e,
     r_quality = w_Quality e,
     r_event_timestamp = timestamptz (case w_EventTimestamp e of Instant t \<Rightarrow> t | Unparsable _ \<Rightarrow> i_now env i),
     r_priority = w_Priority e, r_received_at = timestamptz (i_db env i)\<rparr>"

lemma ingest_loop_Cons:
  "ingest_loop env i (e # es) a d db =
     (case fault_at (AtExec i) (i_fault env) of
        Some m \<Rightarrow> ((a, d, Some m), db)
      | None \<Rightarrow> if wire_key e \<in> reading_key ` set db then ingest_loop env (Suc i) es a (d + 1) db
          else ingest_loop env (Suc i) es (a + 1) d (db @ [new_reading env i e]))"
  by (simp add: new_reading_def split: option.split)

lemma reading_key_new [simp]: "reading_key (new_reading env i e) = wire_key e"
  by (simp add: reading_key_def new_reading_def wire_key_def)

lemma wire_of_new: "canonical_entry e \<Longrightarrow> wire_of_reading (new_reading env i e) = e"
  by (cases e) (auto simp: wire_of_reading_def new_reading_def canonical_entry_def timestamptz_exact
      split: wire_time.splits)

lemma ingest_loop_keeps:
  "pg_contents db k = Some w \<Longrightarrow> pg_contents (snd (ingest_loop env i es a d db)) k = Some w"
proof (induction es arbitrary: i a d db)
  case (Cons e es)
  then have "k \<in> reading_key ` set db" by (metis option.distinct(1) pg_contents_None)
  with Cons show ?case
    by (auto simp: ingest_loop_Cons pg_contents_append simp del: ingest_loop.simps(2) split: option.splits)
qed simp

lemma ingest_loop_adds:
  assumes "pg_contents (snd (ingest_loop env i es a d db)) k = Some w" "\<forall>e \<in> set es. canonical_entry e"
  shows "pg_contents db k = Some w \<or> w \<in> set es \<and> wire_key w = k"
  using assms
proof (induction es arbitrary: i a d db)
  case (Cons e es)
  show ?case
  proof (cases "fault_at (AtExec i) (i_fault env) = None \<and> wire_key e \<notin> reading_key ` set db")
    case True
    with Cons.prems have "pg_contents (snd (ingest_loop env (Suc i) es (a + 1) d (db @ [new_reading env i e]))) k = Some w"
      by (simp add: ingest_loop_Cons del: ingest_loop.simps(2))
    from Cons.IH [OF this] Cons.prems(2) show ?thesis
      by (auto simp: pg_contents_append wire_of_new split: if_splits)
  next
    case False
    with Cons show ?thesis
      by (auto simp: ingest_loop_Cons simp del: ingest_loop.simps(2) split: option.splits if_splits)
  qed
qed simp

lemma ingest_loop_keys:
  "reading_key ` set (snd (ingest_loop env i es a d db)) \<subseteq> reading_key ` set db \<union> wire_key ` set es"
proof (induction es arbitrary: i a d db)
  case (Cons e es)
  have "reading_key ` set (snd (ingest_loop env i (e # es) a d db)) \<subseteq>
      insert (wire_key e) (reading_key ` set db) \<union> wire_key ` set es"
    using Cons.IH [of "Suc i" a "d + 1" db] Cons.IH [of "Suc i" "a + 1" d "db @ [new_reading env i e]"]
    by (auto simp: ingest_loop_Cons simp del: ingest_loop.simps(2) split: option.split)
  then show ?case by auto
qed simp

lemma ingest_loop_complete:
  "snd (snd (fst (ingest_loop env i es a d db))) = None \<Longrightarrow> e \<in> set es \<Longrightarrow>
   wire_key e \<in> reading_key ` set (snd (ingest_loop env i es a d db))"
proof (induction es arbitrary: i a d db)
  case (Cons x es)
  have keep: "reading_key ` set db' \<subseteq> reading_key ` set (snd (ingest_loop env j es a' d' db'))" for j a' d' db'
  proof
    fix k assume "k \<in> reading_key ` set db'"
    then show "k \<in> reading_key ` set (snd (ingest_loop env j es a' d' db'))"
      using ingest_loop_keeps by (metis not_None_eq pg_contents_None)
  qed
  show ?case
  proof (cases "wire_key x \<in> reading_key ` set db")
    case True
    with Cons.prems Cons.IH [of "Suc i" a "d + 1" db] keep [of db "Suc i" a "d + 1"] show ?thesis
      by (auto simp: ingest_loop_Cons simp del: ingest_loop.simps(2) split: option.splits)
  next
    case False
    with Cons.prems Cons.IH [of "Suc i" "a + 1" d "db @ [new_reading env i x]"]
      keep [of "db @ [new_reading env i x]" "Suc i" "a + 1" d] show ?thesis
      by (auto simp: ingest_loop_Cons simp del: ingest_loop.simps(2) split: option.splits)
  qed
qed simp

lemma ingest_loop_good: "pg_good db \<Longrightarrow> pg_good (snd (ingest_loop env i es a d db))"
  by (induction es arbitrary: i a d db)
    (auto simp: ingest_loop_Cons pg_good_def simp del: ingest_loop.simps(2) split: option.splits)

lemma pg_put_only:
  assumes "k \<notin> wire_key ` set b"
  shows "pg_contents (pg_put env b db) k = pg_contents db k"
proof (cases "pg_contents db k")
  case None
  with assms have "k \<notin> reading_key ` set (pg_put env b db)"
    using ingest_loop_keys [of env 0 b 0 0 db] unfolding pg_contents_None pg_put_def ingest_def by blast
  then have "pg_contents (pg_put env b db) k = None" by (metis pg_contents_None)
  with None show ?thesis by simp
next
  case (Some w)
  then show ?thesis by (simp add: pg_put_def ingest_def ingest_loop_keeps)
qed

interpretation pg: idempotent_store pg_put pg_complete pg_contents pg_good
proof unfold_locales
  show "pg_contents s k = Some w \<Longrightarrow> pg_contents (pg_put env b s) k = Some w" for s k w env b
    by (simp add: pg_put_def ingest_def ingest_loop_keeps)
  show "\<forall>e \<in> set b. canonical_entry e \<Longrightarrow> pg_contents (pg_put env b s) k = Some w \<Longrightarrow>
    pg_contents s k = Some w \<or> w \<in> set b \<and> wire_key w = k" for env b s k w
    unfolding pg_put_def ingest_def by (rule ingest_loop_adds)
  show "pg_complete env b s \<Longrightarrow> e \<in> set b \<Longrightarrow> pg_contents (pg_put env b s) (wire_key e) \<noteq> None" for e b env s
    by (simp add: pg_put_def pg_complete_def ingest_def pg_contents_None ingest_loop_complete)
  show "pg_good s \<Longrightarrow> pg_good (pg_put env b s)" for s env b
    by (simp add: pg_put_def ingest_def ingest_loop_good)
qed (rule pg_put_only)

section \<open>\<open>DISTINCT ON\<close> a sorted table\<close>

lemma dropWhile_key_greater:
  assumes "sorted (map (k :: 'a \<Rightarrow> 'k::linorder) (x # xs))" "y \<in> set (dropWhile (\<lambda>y. k y = k x) xs)"
  shows "k x < k y"
  using assms
proof (induction xs)
  case (Cons z zs)
  show ?case
  proof (cases "k z = k x")
    case True
    with Cons show ?thesis by auto
  next
    case False
    with Cons.prems have "k x < k z" "y = z \<or> y \<in> set zs" by auto
    with Cons.prems(1) show ?thesis by auto
  qed
qed simp

lemma mem_dropWhile_or: "y \<in> set xs \<Longrightarrow> y \<in> set (dropWhile P xs) \<or> P y"
  by (induction xs) auto

lemma sorted_map_first:
  fixes k :: "'a \<Rightarrow> 'k::linorder" and f :: "'a \<Rightarrow> 'l::linorder"
  shows "sorted (map (\<lambda>r. (k r, f r)) xs) \<Longrightarrow> sorted (map k xs)"
  by (induction xs) auto

lemma distinct_on_sorted:
  fixes k :: "'a \<Rightarrow> 'k::linorder" and f :: "'a \<Rightarrow> 'l::linorder"
  assumes "sorted (map (\<lambda>r. (k r, f r)) xs)"
  shows "distinct (map k (distinct_on k xs)) \<and> set (distinct_on k xs) \<subseteq> set xs \<and>
    (\<forall>y \<in> set xs. \<exists>x \<in> set (distinct_on k xs). k x = k y \<and> f x \<le> f y)"
  using assms
proof (induction k xs rule: distinct_on.induct)
  case (2 k x xs)
  let ?ys = "dropWhile (\<lambda>y. k y = k x) xs"
  have sub: "set ?ys \<subseteq> set xs" by (auto dest: set_dropWhileD)
  have "sorted (map (\<lambda>r. (k r, f r)) ?ys)"
    using 2(2) by (simp add: dropWhile_eq_drop drop_map [symmetric] sorted_wrt_drop)
  note IH = 2(1) [OF this]
  have "sorted (map k (x # xs))" by (rule sorted_map_first [OF 2(2)])
  then have gt: "k x < k y" if "y \<in> set ?ys" for y using that by (rule dropWhile_key_greater)
  have cover: "\<exists>z \<in> set (distinct_on k (x # xs)). k z = k y \<and> f z \<le> f y" if "y \<in> set (x # xs)" for y
  proof (cases "k y = k x")
    case True
    with 2(2) that have "f x \<le> f y" by auto
    with True show ?thesis by auto
  next
    case False
    with that have "y \<in> set ?ys" using mem_dropWhile_or [of y xs "\<lambda>y. k y = k x"] by auto
    with IH show ?thesis by auto
  qed
  show ?case using IH gt sub cover by fastforce
qed simp

section \<open>Properties of the servers\<close>

lemma ingest_loop_present:
  assumes "\<forall>e \<in> set es. wire_key e \<in> reading_key ` set db"
  shows "snd (ingest_loop env i es a d db) = db"
  using assms by (induction es arbitrary: i a d) (auto split: option.splits)

lemma ingest_loop_counts:
  "fst (ingest_loop env i es a d db) = (a', d', None) \<Longrightarrow>
   a' + d' = a + d + int (length es) \<and> int (length (snd (ingest_loop env i es a d db))) = int (length db) + (a' - a)"
proof (induction es arbitrary: i a d db)
  case (Cons e es)
  from Cons.prems Cons.IH [of "Suc i" a "d + 1" db]
    Cons.IH [of "Suc i" "a + 1" d "db @ [new_reading env i e]"]
  show ?case
    by (auto simp: ingest_loop_Cons simp del: ingest_loop.simps(2) split: option.splits if_splits)
qed simp

text \<open>C11: a batch that was ingested completely and is delivered again, after any other batches,
  whatever their outcome, leaves the table exactly as it is; and every ingest without an error counts
  each entry once, as accepted or as a duplicate, the accepted ones being the rows added.\<close>

theorem ingest_resend:
  assumes "fst (ingest env b db) = (accepted, duplicates, None)"
    and "db' = fold (\<lambda>(env, b). pg_put env b) hist (snd (ingest env b db))"
  shows "snd (ingest env' b db') = db' \<and>
    accepted + duplicates = int (length b) \<and>
    int (length (snd (ingest env b db))) = int (length db) + accepted"
proof -
  have c: "pg_complete env b db" using assms(1) by (simp add: pg_complete_def)
  have "\<forall>e \<in> set b. wire_key e \<in> reading_key ` set db'"
  proof
    fix e assume "e \<in> set b"
    with pg.put_complete [OF c] obtain w where "pg_contents (pg_put env b db) (wire_key e) = Some w" by blast
    from pg.puts_keep [OF this, of hist] have "pg_contents db' (wire_key e) \<noteq> None"
      by (simp add: assms(2) pg_put_def)
    then show "wire_key e \<in> reading_key ` set db'" by (metis pg_contents_None)
  qed
  then have "snd (ingest env' b db') = db'" by (simp add: ingest_def ingest_loop_present)
  with ingest_loop_counts [of env 0 b 0 0 db] assms(1) show ?thesis by (simp add: ingest_def)
qed

definition sample_wire :: "int \<Rightarrow> wire_entry" where
  "sample_wire n = \<lparr>w_GatewayID = ''GW001'', w_SequenceID = n, w_DeviceID = 1, w_DatapointID = 1,
     w_Value = Some f64_one, w_Quality = ''GOOD'', w_EventTimestamp = Instant (n * millisecond),
     w_Priority = ''NORMAL''\<rparr>"

definition quiet_env :: ingest_env where
  "quiet_env = \<lparr>i_fault = None, i_now = (\<lambda>_. 0), i_db = (\<lambda>_. 0)\<rparr>"

theorem ingest_resend_witness:
  "snd (ingest quiet_env [sample_wire 1, sample_wire 2] (snd (ingest quiet_env [sample_wire 1, sample_wire 2] []))) =
   snd (ingest quiet_env [sample_wire 1, sample_wire 2] [])"
proof -
  have "fst (ingest quiet_env [sample_wire 1, sample_wire 2] []) = (2, 0, None)"
    by (simp add: ingest_def quiet_env_def sample_wire_def wire_key_def reading_key_def)
  from ingest_resend [OF this refl, of quiet_env "[]"] show ?thesis by simp
qed

text \<open>C12: the consumer acknowledges a message only after every entry of its batch is stored, on the
  sibling \<open>/ack\<close> topic of the topic it came from and under the batch's own id; and a message whose
  ingest fails half-way is not acknowledged, while the table keeps its keys unique in every case.\<close>

theorem handleMessage_ack:
  assumes "handleMessage env topic msg db = (res, db')" "pg_good db"
  shows "pg_good db' \<and> reading_key ` set db \<subseteq> reading_key ` set db' \<and>
    (case res of
       None \<Rightarrow> True
     | Some (t, ack) \<Rightarrow> (\<exists>batch. msg = Json batch \<and> A_BatchID ack = BatchID batch \<and> A_Error ack = [] \<and>
         t = ack_topic_of topic \<and> (\<forall>e \<in> set (B_Entries batch). wire_key e \<in> reading_key ` set db')))"
proof (cases msg)
  case (Malformed m)
  with assms show ?thesis by (auto simp: handleMessage_def)
next
  case (Json batch)
  let ?es = "B_Entries batch"
  have db': "db' = pg_put env ?es db"
    using assms(1) Json by (auto simp: handleMessage_def pg_put_def split: prod.splits option.splits)
  have keys: "reading_key ` set db \<subseteq> reading_key ` set db'"
  proof
    fix k assume "k \<in> reading_key ` set db"
    then show "k \<in> reading_key ` set db'"
      using pg.put_keeps [of db k _ env ?es] by (metis db' not_None_eq pg_contents_None)
  qed
  have stored: "wire_key e \<in> reading_key ` set db'" if "pg_complete env ?es db" "e \<in> set ?es" for e
    using pg.put_complete [OF that] by (metis db' pg_contents_None)
  have "res \<noteq> None \<Longrightarrow> pg_complete env ?es db \<and>
      res = Some (ack_topic_of topic, \<lparr>A_BatchID = BatchID batch, A_Error = []\<rparr>)"
    using assms(1) Json by (auto simp: handleMessage_def pg_complete_def split: prod.splits option.splits)
  with Json keys stored pg.put_good [OF assms(2), of env ?es] show ?thesis
    by (auto simp: db' split: option.splits prod.splits)
qed

theorem handleMessage_ack_witness:
  "\<exists>res db'. handleMessage quiet_env ''gateway/GW001/data'' (Json \<lparr>BatchID = ''b1'', B_Entries = [sample_wire 1]\<rparr>) [] = (res, db') \<and>
     res = Some (''gateway/GW001/ack'', \<lparr>A_BatchID = ''b1'', A_Error = []\<rparr>) \<and> pg_good db'"
proof -
  obtain res db' where h: "handleMessage quiet_env ''gateway/GW001/data''
      (Json \<lparr>BatchID = ''b1'', B_Entries = [sample_wire 1]\<rparr>) [] = (res, db')" by fastforce
  have "res = Some (''gateway/GW001/ack'', \<lparr>A_BatchID = ''b1'', A_Error = []\<rparr>)"
    using h by (auto simp: handleMessage_def ingest_def quiet_env_def ack_topic_of_def TrimSuffix_def has_suffix_def)
  with handleMessage_ack [OF h] h show ?thesis by (auto simp: pg_good_def)
qed

text \<open>\<open>latest\<close> returns, for every gateway, device and data point with a stored reading, exactly
  one row of the table, and it is one that was received last.\<close>

theorem latest_spec:
  assumes "sql_order ob" "latest ob flt db = Inr rows"
  shows "distinct (map point_key rows) \<and> set rows \<subseteq> set db \<and>
    (\<forall>r \<in> set db. \<exists>s \<in> set rows. point_key s = point_key r \<and> r_received_at r \<le> r_received_at s)"
proof -
  let ?xs = "ob (\<lambda>r. (point_key r, - r_received_at r)) db"
  have rows: "rows = distinct_on point_key ?xs"
    using assms(2) by (auto simp: latest_def split: option.splits)
  from distinct_on_sorted [OF sql_order.sorted_order_by [OF assms(1)], of point_key "\<lambda>r. - r_received_at r" db]
  show ?thesis by (simp add: rows sql_order.set_order_by [OF assms(1)])
qed

theorem latest_spec_witness:
  "\<exists>rows. latest sort_key None (snd (ingest quiet_env [sample_wire 1, sample_wire 2] [])) = Inr rows \<and>
     distinct (map point_key rows)"
proof -
  obtain rows where r: "latest sort_key None (snd (ingest quiet_env [sample_wire 1, sample_wire 2] [])) = Inr rows"
    by (simp add: latest_def)
  with latest_spec [OF stable.sql_order_axioms r] show ?thesis by blast
qed

end
