(* ===== verification/Modbus.thy ===== *)
theory Modbus
  imports GoFloat "HOL-Library.Sublist"
begin

text \<open>
  The protocol layer \<open>src/gateway/internal/modbus\<close>: register decoding
  (\<open>decode.go\<close>), the classification of errors into data qualities
  (\<open>quality.go\<close>), the client interface with its retry loop (\<open>client.go\<close>)
  and the function-code dispatch of the two clients (\<open>tcp.go\<close>, \<open>rtu.go\<close>).

  A Go \<open>error\<close> is a \<open>go_error\<close>: what the classification can observe of it.
  A \<open>Client\<close> is a record of its four methods over an unknown connection state; the
  third-party Modbus library behind the real clients stays a parameter.
\<close>

section \<open>Data types and decoding\<close>

type_synonym u16 = "16 word"
type_synonym functionCode = "8 word"

datatype modbus_error =
    UnknownDataType string
  | ByteOrderWidth string nat
  | InvalidByteOrderChar char string
  | RawLength nat string nat
  | UnsupportedFunctionCode functionCode

definition ByteWidth :: "string \<Rightarrow> modbus_error + nat" where
  "ByteWidth d =
     (if d = ''INT16'' \<or> d = ''UINT16'' then Inr 2
      else if d = ''INT32'' \<or> d = ''UINT32'' \<or> d = ''FLOAT32'' then Inr 4
      else if d = ''FLOAT64'' then Inr 8
      else Inl (UnknownDataType d))"

definition RegisterCount :: "string \<Rightarrow> modbus_error + u16" where
  "RegisterCount d = (case ByteWidth d of Inl e \<Rightarrow> Inl e | Inr width \<Rightarrow> Inr (of_nat (width div 2)))"

text \<open>The loop of \<open>reorder\<close> over the byte-order string. A Go range over a string
  yields runes; a byte from \<open>0x80\<close> up is never within \<open>'A' + len(raw)\<close> for the
  widths in use, so reading bytes takes the same branch.\<close>

fun reorder_loop :: "byte list \<Rightarrow> string \<Rightarrow> string \<Rightarrow> modbus_error + byte list" where
  "reorder_loop raw order [] = Inr []"
| "reorder_loop raw order (c # cs) =
     (let pos = (of_char c :: int) - of_char (CHR ''A'')
      in if pos < 0 \<or> int (length raw) \<le> pos then Inl (InvalidByteOrderChar c order)
         else (case reorder_loop raw order cs of
                 Inl e \<Rightarrow> Inl e
               | Inr out \<Rightarrow> Inr (raw ! nat pos # out)))"

definition reorder :: "byte list \<Rightarrow> string \<Rightarrow> modbus_error + byte list" where
  "reorder raw order =
     (if order = [] then Inr raw
      else if length order \<noteq> length raw then Inl (ByteOrderWidth order (length raw))
      else reorder_loop raw order order)"

unbundle bit_operations_syntax

definition be :: "byte list \<Rightarrow> 64 word" where
  "be b = foldl (\<lambda>v x. push_bit 8 v OR ucast x) 0 b"

definition Decode :: "byte list \<Rightarrow> string \<Rightarrow> string \<Rightarrow> modbus_error + f64" where
  "Decode raw dataType byteOrder =
     (case ByteWidth dataType of Inl e \<Rightarrow> Inl e | Inr width \<Rightarrow>
      if length raw \<noteq> width then Inl (RawLength width dataType (length raw)) else
      (case reorder raw byteOrder of Inl e \<Rightarrow> Inl e | Inr ordered \<Rightarrow>
       if dataType = ''INT16'' then Inr (f64_of_int (sint (ucast (be ordered) :: 16 word)))
       else if dataType = ''UINT16'' then Inr (f64_of_int (uint (ucast (be ordered) :: 16 word)))
       else if dataType = ''INT32'' then Inr (f64_of_int (sint (ucast (be ordered) :: 32 word)))
       else if dataType = ''UINT32'' then Inr (f64_of_int (uint (ucast (be ordered) :: 32 word)))
       else if dataType = ''FLOAT32'' then Inr (float32frombits (ucast (be ordered)))
       else if dataType = ''FLOAT64'' then Inr (float64frombits (be ordered))
       else Inl (UnknownDataType dataType)))"

text \<open>\<open>fused\<close>: whether the target fuses \<open>raw*scale + offset\<close> into one rounding.\<close>

definition ApplyScale :: "bool \<Rightarrow> f64 \<Rightarrow> f64 \<Rightarrow> f64 \<Rightarrow> f64" where
  "ApplyScale fused raw scale offset =
     (if fused then f64_fma raw scale offset else f64_add (f64_mul raw scale) offset)"

section \<open>Quality\<close>

datatype quality = Good | Timeout | CRCError | DeviceOffline | Invalid

fun quality_string :: "quality \<Rightarrow> string" where
  "quality_string Good = ''GOOD''"
| "quality_string Timeout = ''TIMEOUT''"
| "quality_string CRCError = ''CRC_ERROR''"
| "quality_string DeviceOffline = ''DEVICE_OFFLINE''"
| "quality_string Invalid = ''INVALID''"

record go_error =
  err_net_timeout :: bool \<comment> \<open>\<open>errors.As\<close> finds a \<open>net.Error\<close> with \<open>Timeout()\<close>\<close>
  err_net_closed :: bool  \<comment> \<open>\<open>errors.Is(err, net.ErrClosed)\<close>\<close>
  err_dns :: bool         \<comment> \<open>\<open>errors.As\<close> finds a \<open>*net.DNSError\<close>\<close>
  err_msg :: string

definition lower_char :: "char \<Rightarrow> char" where
  "lower_char c =
     (let n = of_char c :: nat in if 65 \<le> n \<and> n \<le> 90 then char_of (n + 32) else c)"

definition to_lower :: "string \<Rightarrow> string" where
  "to_lower s = map lower_char s"

definition contains :: "string \<Rightarrow> string \<Rightarrow> bool" where
  "contains s sub = sublist sub s"

definition offline_phrases :: "string list" where
  "offline_phrases =
     [''connection refused'', ''actively refused'', ''no route to host'', ''host unreachable'',
      ''network unreachable'', ''broken pipe'', ''connection reset'', ''forcibly closed'',
      ''device or resource busy'', ''no such device'', ''cannot find the file specified'']"

definition QualityFromError :: "go_error option \<Rightarrow> quality" where
  "QualityFromError err =
     (case err of None \<Rightarrow> Good
      | Some e \<Rightarrow>
          if err_net_timeout e then Timeout
          else if err_net_closed e then DeviceOffline
          else if err_dns e then DeviceOffline
          else
            (let msg = to_lower (err_msg e)
             in if contains msg ''crc'' then CRCError
                else if list_ex (contains msg) offline_phrases then DeviceOffline
                else Invalid))"

section \<open>The client interface and the retry loop\<close>

record 'c client =
  cl_connect :: "'c \<Rightarrow> go_error option \<times> 'c"
  cl_close :: "'c \<Rightarrow> go_error option \<times> 'c"
  cl_set_unit :: "byte \<Rightarrow> 'c \<Rightarrow> 'c"
  cl_read :: "functionCode \<Rightarrow> u16 \<Rightarrow> u16 \<Rightarrow> 'c \<Rightarrow> (go_error + byte list) \<times> 'c"

text \<open>One turn of the loop returns the triple of \<open>ReadWithRetry\<close> and the connection
  state; \<open>ctx\<close> is what \<open>ctx.Err()\<close> gives in a connection state.\<close>

function read_loop ::
  "('c \<Rightarrow> go_error option) \<Rightarrow> 'c client \<Rightarrow> functionCode \<Rightarrow> u16 \<Rightarrow> u16 \<Rightarrow> int \<Rightarrow> int \<Rightarrow> int
   \<Rightarrow> go_error option \<Rightarrow> 'c \<Rightarrow> (byte list \<times> int \<times> go_error option) \<times> 'c" where
  "read_loop ctx c fc address quantity maxRetries attempt attempts lastErr st =
     (if maxRetries < attempt then (([], attempts, lastErr), st)
      else
        (let (cerr, st1) =
           (if 0 < attempt then cl_connect c (snd (cl_close c st)) else (None, st))
         in case cerr of
              Some e \<Rightarrow> read_loop ctx c fc address quantity maxRetries (attempt + 1) (attempt + 1) (Some e) st1
            | None \<Rightarrow>
                (case cl_read c fc address quantity st1 of
                   (Inr raw, st2) \<Rightarrow> ((raw, attempt + 1, None), st2)
                 | (Inl e, st2) \<Rightarrow>
                     (case ctx st2 of
                        Some ce \<Rightarrow> (([], attempt + 1, Some ce), st2)
                      | None \<Rightarrow>
                          read_loop ctx c fc address quantity maxRetries (attempt + 1) (attempt + 1) (Some e) st2))))"
  by pat_completeness auto
termination
  by (relation "measure (\<lambda>(_, _, _, _, _, maxRetries, attempt, _, _, _). nat (maxRetries + 1 - attempt))") auto

declare read_loop.simps [simp del]

definition ReadWithRetry ::
  "('c \<Rightarrow> go_error option) \<Rightarrow> 'c client \<Rightarrow> functionCode \<Rightarrow> u16 \<Rightarrow> u16 \<Rightarrow> int \<Rightarrow> 'c
   \<Rightarrow> (byte list \<times> int \<times> go_error option) \<times> 'c" where
  "ReadWithRetry ctx c fc address quantity maxRetries st =
     read_loop ctx c fc address quantity maxRetries 0 0 None st"

text \<open>The third-party library's handler and its four read requests, over its own state.\<close>

record 'c goburrow =
  gb_Connect :: "'c \<Rightarrow> go_error option \<times> 'c"
  gb_Close :: "'c \<Rightarrow> go_error option \<times> 'c"
  gb_SlaveId :: "byte \<Rightarrow> 'c \<Rightarrow> 'c"
  gb_ReadCoils :: "u16 \<Rightarrow> u16 \<Rightarrow> 'c \<Rightarrow> (go_error + byte list) \<times> 'c"
  gb_ReadDiscreteInputs :: "u16 \<Rightarrow> u16 \<Rightarrow> 'c \<Rightarrow> (go_error + byte list) \<times> 'c"
  gb_ReadHoldingRegisters :: "u16 \<Rightarrow> u16 \<Rightarrow> 'c \<Rightarrow> (go_error + byte list) \<times> 'c"
  gb_ReadInputRegisters :: "u16 \<Rightarrow> u16 \<Rightarrow> 'c \<Rightarrow> (go_error + byte list) \<times> 'c"

definition unsupported_fc :: "functionCode \<Rightarrow> go_error" where
  "unsupported_fc fc = \<lparr>err_net_timeout = False, err_net_closed = False, err_dns = False,
     err_msg = ''modbus: unsupported function code '' @ show_nat (unat fc)\<rparr>"

definition readFunc ::
  "'c goburrow \<Rightarrow> functionCode \<Rightarrow> u16 \<Rightarrow> u16 \<Rightarrow> 'c \<Rightarrow> (go_error + byte list) \<times> 'c" where
  "readFunc g fc address quantity st =
     (if fc = 1 then gb_ReadCoils g address quantity st
      else if fc = 2 then gb_ReadDiscreteInputs g address quantity st
      else if fc = 3 then gb_ReadHoldingRegisters g address quantity st
      else if fc = 4 then gb_ReadInputRegisters g address quantity st
      else (Inl (unsupported_fc fc), st))"

definition tcpClient :: "'c goburrow \<Rightarrow> 'c client" where
  "tcpClient g = \<lparr>cl_connect = gb_Connect g, cl_close = gb_Close g,
     cl_set_unit = gb_SlaveId g, cl_read = readFunc g\<rparr>"

definition rtuClient :: "'c goburrow \<Rightarrow> 'c client" where
  "rtuClient g = \<lparr>cl_connect = gb_Connect g, cl_close = gb_Close g,
     cl_set_unit = gb_SlaveId g, cl_read = readFunc g\<rparr>"

section \<open>Widths and register counts\<close>

lemma ByteWidth_cases:
  assumes "ByteWidth d = Inr w"
  obtains "d \<in> {''INT16'', ''UINT16''}" "w = 2"
  | "d \<in> {''INT32'', ''UINT32'', ''FLOAT32''}" "w = 4"
  | "d = ''FLOAT64''" "w = 8"
  using assms by (auto simp: ByteWidth_def split: if_splits)

lemma RegisterCount_ByteWidth:
  assumes "RegisterCount d = Inr q"
  shows "ByteWidth d = Inr (2 * unat q)"
  using assms by (auto simp: RegisterCount_def split: sum.splits elim!: ByteWidth_cases)

lemma RegisterCount_bounds:
  assumes "RegisterCount d = Inr q"
  shows "1 \<le> unat q" "unat q \<le> 4"
  using assms by (auto simp: RegisterCount_def split: sum.splits elim!: ByteWidth_cases)

lemma RegisterCount_Inl_iff: "(\<exists>e. RegisterCount d = Inl e) \<longleftrightarrow> (\<exists>e. ByteWidth d = Inl e)"
  by (auto simp: RegisterCount_def split: sum.splits)

section \<open>Reordering\<close>

definition order_pos :: "char \<Rightarrow> nat" where
  "order_pos c = nat ((of_char c :: int) - of_char (CHR ''A''))"

lemma reorder_loop_Inr:
  "reorder_loop raw order cs = Inr out \<Longrightarrow>
     out = map (\<lambda>c. raw ! order_pos c) cs \<and> (\<forall>c\<in>set cs. order_pos c < length raw)"
proof (induction cs arbitrary: out)
  case Nil
  then show ?case by simp
next
  case (Cons c cs)
  then show ?case
    by (auto simp: Let_def order_pos_def split: if_splits sum.splits)
qed

lemma reorder_length: "reorder raw order = Inr out \<Longrightarrow> length out = length raw"
  by (auto simp: reorder_def split: if_splits dest: reorder_loop_Inr)

lemma reorder_nth:
  assumes "reorder raw order = Inr out" "order \<noteq> []" "i < length raw"
  shows "order_pos (order ! i) < length raw" "out ! i = raw ! order_pos (order ! i)"
  using assms by (auto simp: reorder_def split: if_splits dest!: reorder_loop_Inr)

text \<open>A byte order that names every position once only permutes the bytes.\<close>

lemma reorder_permutes:
  assumes "reorder raw order = Inr out" "order = [] \<or> distinct (map order_pos order)"
  shows "mset out = mset raw"
proof (cases "order = []")
  case True
  with assms show ?thesis by (simp add: reorder_def)
next
  case False
  let ?p = "map order_pos order"
  from False assms(1) have len: "length order = length raw"
    and l: "reorder_loop raw order order = Inr out"
    by (auto simp: reorder_def split: if_splits)
  from reorder_loop_Inr [OF l] have out: "out = map (nth raw) ?p"
    and lt: "\<forall>c\<in>set order. order_pos c < length raw" by auto
  have "set ?p \<subseteq> {..<length raw}" using lt by auto
  moreover have "card (set ?p) = card {..<length raw}"
    using distinct_card [of ?p] False assms(2) len by (simp del: set_map)
  ultimately have "set ?p = {..<length raw}" by (intro card_subset_eq) simp_all
  then have "mset ?p = mset [0..<length raw]"
    using False assms(2) by (intro set_eq_iff_mset_eq_distinct [THEN iffD1]) auto
  then have "mset (map (nth raw) ?p) = mset (map (nth raw) [0..<length raw])"
    by (simp only: mset_map)
  then show ?thesis by (simp only: out map_nth)
qed

section \<open>Big-endian accumulation\<close>

lemma push_or_add:
  fixes v :: "64 word" and x :: byte
  assumes "uint v < 2 ^ 56"
  shows "uint (push_bit 8 v OR ucast x) = 256 * uint v + uint x"
proof -
  have "push_bit 8 v OR ucast x = push_bit 8 v + (ucast x :: 64 word)"
    by (rule disjunctive_add [symmetric]) (auto simp: bit_push_bit_iff bit_ucast_iff dest: bit_imp_le_length)
  moreover have "uint (push_bit 8 v) = 256 * uint v"
    using assms by (simp add: push_bit_eq_mult uint_word_ariths)
  moreover have "uint (ucast x :: 64 word) = uint x" by (simp add: uint_up_ucast is_up)
  moreover have "uint x < 256" using uint_lt2p [of x] by simp
  ultimately show ?thesis
    using assms by (simp add: uint_word_ariths)
qed

lemma be_snoc: "be (bs @ [x]) = push_bit 8 (be bs) OR ucast x"
  by (simp add: be_def)

lemma uint_be:
  "length bs \<le> 8 \<Longrightarrow>
     uint (be bs) = foldl (\<lambda>v x. 256 * v + uint x) 0 bs \<and> uint (be bs) < 256 ^ length bs"
proof (induction bs rule: rev_induct)
  case Nil
  then show ?case by (simp add: be_def)
next
  case (snoc x bs)
  then have IH: "uint (be bs) = foldl (\<lambda>v x. 256 * v + uint x) 0 bs" "uint (be bs) < 256 ^ length bs"
    by auto
  have "(256::int) ^ length bs \<le> 256 ^ 7" using snoc.prems by (intro power_increasing) auto
  with IH(2) have "uint (be bs) < 2 ^ 56" by simp
  then have "uint (be (bs @ [x])) = 256 * uint (be bs) + uint x"
    by (simp add: be_snoc push_or_add)
  moreover have "uint x < 256" using uint_lt2p [of x] by simp
  ultimately show ?case using IH by simp
qed

section \<open>Qualities\<close>

lemma QualityFromError_Good_iff: "QualityFromError err = Good \<longleftrightarrow> err = None"
  by (auto simp: QualityFromError_def Let_def split: option.splits if_splits)

section \<open>The retry loop\<close>

lemma read_loop_attempts:
  assumes "read_loop ctx c fc a q n k att le st = ((raw, att', err), st')"
    and "0 \<le> k" "k \<le> n"
  shows "k < att' \<and> att' \<le> n + 1"
  using assms
proof (induction ctx c fc a q n k att le st rule: read_loop.induct)
  case (1 ctx c fc a q n k att le st)
  note eq = "1.prems"(1) [unfolded read_loop.simps [of ctx c fc a q n k att le st]]
  show ?case
  proof (cases "k + 1 \<le> n")
    case True
    with "1.prems" eq "1.IH" show ?thesis
      by (fastforce simp: Let_def split: prod.splits option.splits sum.splits if_splits)
  next
    case False
    then have "read_loop ctx c fc a q n (k + 1) (k + 1) e s = (([], k + 1, e), s)" for e s
      by (simp add: read_loop.simps)
    with "1.prems" eq False show ?thesis
      by (auto simp: Let_def split: prod.splits option.splits sum.splits if_splits)
  qed
qed

lemma read_loop_result:
  assumes "read_loop ctx c fc a q n k att le st = ((raw, att', err), st')"
    and "0 \<le> k" "k \<le> n \<or> le \<noteq> None"
  shows "if err = None then \<exists>st1. cl_read c fc a q st1 = (Inr raw, st') else raw = []"
  using assms
proof (induction ctx c fc a q n k att le st rule: read_loop.induct)
  case (1 ctx c fc a q n k att le st)
  note eq = "1.prems"(1) [unfolded read_loop.simps [of ctx c fc a q n k att le st]]
  show ?case
  proof (cases "n < k")
    case True
    with "1.prems" eq show ?thesis by auto
  next
    case False
    obtain cerr st1 where con: "(if 0 < k then cl_connect c (snd (cl_close c st)) else (None, st)) = (cerr, st1)"
      by fastforce
    show ?thesis
    proof (cases cerr)
      case (Some e)
      with eq False con have "read_loop ctx c fc a q n (k + 1) (k + 1) (Some e) st1 = ((raw, att', err), st')"
        by (auto simp: Let_def)
      moreover have "0 \<le> k + 1" "k + 1 \<le> n \<or> Some e \<noteq> None" using "1.prems"(2) by simp_all
      ultimately show ?thesis
        using "1.IH"(2) [OF False con [symmetric] refl Some] by blast
    next
      case None
      with eq False con "1.IH"(1) "1.prems"(2) show ?thesis
        by (fastforce simp: Let_def split: prod.splits option.splits sum.splits)
    qed
  qed
qed

section \<open>Properties\<close>

fun register_value :: "string \<Rightarrow> byte list \<Rightarrow> int option" where
  \<comment> \<open>the integer a big-endian byte sequence denotes for an integer data type\<close>
  "register_value d bs =
     (let n = foldl (\<lambda>v x. 256 * v + uint x) 0 bs
      in if d = ''UINT16'' \<or> d = ''UINT32'' then Some n
         else if d = ''INT16'' then Some (if n < 2 ^ 15 then n else n - 2 ^ 16)
         else if d = ''INT32'' then Some (if n < 2 ^ 31 then n else n - 2 ^ 32)
         else None)"

lemma signed_take_bit_split:
  assumes "0 \<le> k" "k < 2 ^ Suc n"
  shows "signed_take_bit n k = (if k < 2 ^ n then k else k - (2::int) ^ Suc n)"
proof (cases "k < 2 ^ n")
  case True
  with assms show ?thesis
    by (simp add: signed_take_bit_int_eq_self order_trans [of "- (2 ^ n)" 0])
next
  case False
  then have "k div 2 ^ n = 1"
    using assms int_div_pos_eq [of k "2 ^ n" 1 "k - 2 ^ n"] by simp
  then have "bit k n" by (simp add: bit_iff_odd)
  moreover have "take_bit (Suc n) k = k" using assms by (simp add: take_bit_int_eq_self)
  ultimately show ?thesis using False by (simp add: signed_take_bit_eq_take_bit_minus)
qed

lemma sint_via_uint16: "sint (w :: 16 word) = (if uint w < 2 ^ 15 then uint w else uint w - 2 ^ 16)"
  using signed_take_bit_split [of "uint w" 15] uint_lt2p [of w] by (simp add: sint_uint)

lemma sint_via_uint32: "sint (w :: 32 word) = (if uint w < 2 ^ 31 then uint w else uint w - 2 ^ 32)"
  using signed_take_bit_split [of "uint w" 31] uint_lt2p [of w] by (simp add: sint_uint)

lemma uint_ucast_be:
  assumes "length bs \<le> 8" "256 ^ length bs = (2::int) ^ LENGTH('a::len)"
  shows "uint (ucast (be bs) :: 'a word) = uint (be bs)"
  unfolding unsigned_ucast_eq using uint_be [OF assms(1)] assms(2) uint_ge_0 [of "be bs"]
  by (intro take_bit_int_eq_self) auto

lemma uint_ucast_be16: "length bs = 2 \<Longrightarrow> uint (ucast (be bs) :: 16 word) = uint (be bs)"
  by (rule uint_ucast_be) simp_all

lemma uint_ucast_be32: "length bs = 4 \<Longrightarrow> uint (ucast (be bs) :: 32 word) = uint (be bs)"
  by (rule uint_ucast_be) simp_all

text \<open>C14: for the integer data types, decoding a register block of the right length returns the
  exact integer the reordered bytes denote (two's complement for the signed types), as a finite
  canonical \<open>float64\<close>: no rounding and no overflow on any input.\<close>

theorem Decode_integer_exact:
  assumes "reorder raw order = Inr bs" "ByteWidth d = Inr (length raw)" "register_value d bs = Some n"
  shows "\<exists>v. Decode raw d order = Inr v \<and> f64_wf v \<and> is_finite v \<and> rval v = of_int n"
proof -
  have len: "length bs = length raw" using assms(1) by (rule reorder_length)
  from assms(2,3) consider (u16) "d = ''UINT16''" "length bs = 2" | (i16) "d = ''INT16''" "length bs = 2"
    | (u32) "d = ''UINT32''" "length bs = 4" | (i32) "d = ''INT32''" "length bs = 4"
    by (auto simp: len Let_def split: if_splits elim!: ByteWidth_cases)
  then have "Decode raw d order = Inr (f64_of_int n) \<and> \<bar>n\<bar> < 2 ^ 53"
  proof cases
    case u16
    with uint_be [of bs] uint_ucast_be16 [of bs] assms len show ?thesis by (auto simp: Decode_def)
  next
    case i16
    with uint_be [of bs] uint_ucast_be16 [of bs] assms len show ?thesis
      by (auto simp: Decode_def sint_via_uint16 split: if_splits)
  next
    case u32
    with uint_be [of bs] uint_ucast_be32 [of bs] assms len show ?thesis by (auto simp: Decode_def)
  next
    case i32
    with uint_be [of bs] uint_ucast_be32 [of bs] assms len show ?thesis
      by (auto simp: Decode_def sint_via_uint32 split: if_splits)
  qed
  then show ?thesis using rval_of_int [of n] by (auto simp: f64_wf_of_int)
qed

theorem Decode_integer_exact_witness:
  "\<exists>v. Decode [0x12, 0xff] ''INT16'' ''BA'' = Inr v \<and> f64_wf v \<and> is_finite v \<and> rval v = of_int (-238)"
  by (rule Decode_integer_exact [where bs = "[0xff, 0x12]"])
     (simp_all add: reorder_def ByteWidth_def)

text \<open>C15: decoding fails exactly when the data type is unknown, the byte count does not match the
  type, or a non-empty byte order has another length or names a position outside the value; in
  every other case a value is returned.\<close>

theorem Decode_error_iff:
  "(\<exists>e. Decode raw d order = Inl e) \<longleftrightarrow>
     (case ByteWidth d of Inl _ \<Rightarrow> True
      | Inr w \<Rightarrow> length raw \<noteq> w \<or> (order \<noteq> [] \<and> (length order \<noteq> w \<or>
          (\<exists>c \<in> set order. (of_char c :: int) < 65 \<or> 65 + int w \<le> of_char c))))"
proof -
  have loop: "(\<exists>e. reorder_loop raw order' cs = Inl e) \<longleftrightarrow>
      (\<exists>c \<in> set cs. (of_char c :: int) < 65 \<or> 65 + int (length raw) \<le> of_char c)" for order' cs
    by (induction cs) (auto simp: Let_def split: sum.splits)
  have "(\<exists>e. Decode raw d order = Inl e) \<longleftrightarrow>
      (case ByteWidth d of Inl _ \<Rightarrow> True
       | Inr w \<Rightarrow> length raw \<noteq> w \<or> (\<exists>e. reorder raw order = Inl e))"
    by (auto simp: Decode_def split: sum.splits elim!: ByteWidth_cases)
  then show ?thesis by (auto simp: reorder_def loop split: sum.splits)
qed

theorem Decode_error_iff_witness:
  "(\<exists>e. Decode [1, 2, 3] ''INT16'' [] = Inl e) \<and> \<not> (\<exists>e. Decode [1, 2] ''UINT16'' ''BA'' = Inl e)"
  unfolding Decode_error_iff by (simp add: ByteWidth_def)

text \<open>With the default scale 1 and offset 0 a decoded value reaches the queue unchanged, on
  targets that fuse the multiply-add and on those that do not; a negative zero becomes zero.\<close>

theorem ApplyScale_identity:
  assumes "f64_wf raw"
  shows "ApplyScale fused raw f64_one f64_zero = (if is_zero raw then f64_zero else raw)"
proof (cases "is_zero raw")
  case True
  with assms obtain s where "raw = Fin s 0 (-1074)"
    by (cases raw) (auto dest: canonical_zero_exp)
  then show ?thesis by (simp add: ApplyScale_def f64_one_def f64_zero_def f64_add_fin_def)
next
  case False
  with assms show ?thesis
    by (simp add: ApplyScale_def f64_mul_one f64_add_zero f64_fma_one_zero)
qed

theorem ApplyScale_identity_witness:
  "ApplyScale True (f64_of_int 2302) f64_one f64_zero = f64_of_int 2302"
  using ApplyScale_identity [OF f64_wf_of_int, of True 2302]
  by (simp add: f64_of_int_def f64_round_def bitlen.simps)

text \<open>A retried read always terminates after between one and \<open>maxRetries + 1\<close> requests; it
  reports success only with the bytes of a read that succeeded, and an error carries no bytes.\<close>

theorem ReadWithRetry_sound:
  assumes "0 \<le> maxRetries"
    and "ReadWithRetry ctx c fc address quantity maxRetries st = ((raw, attempts, err), st')"
  shows "1 \<le> attempts \<and> attempts \<le> maxRetries + 1 \<and>
    (if err = None then \<exists>st1. cl_read c fc address quantity st1 = (Inr raw, st') else raw = [])"
  using read_loop_attempts [OF assms(2) [unfolded ReadWithRetry_def]]
    read_loop_result [OF assms(2) [unfolded ReadWithRetry_def]] assms(1) by auto

definition flaky_client :: "nat client" where
  \<comment> \<open>a client whose second read succeeds\<close>
  "flaky_client = \<lparr>cl_connect = (\<lambda>n. (None, n)), cl_close = (\<lambda>n. (None, n)),
     cl_set_unit = (\<lambda>_ n. n),
     cl_read = (\<lambda>_ _ _ n. (if n = 0 then Inl (unsupported_fc 9) else Inr [0, 7], n + 1))\<rparr>"

theorem ReadWithRetry_sound_witness:
  "ReadWithRetry (\<lambda>_. None) flaky_client 3 100 1 2 0 = (([0, 7], 2, None), 2) \<and>
   1 \<le> (2::int) \<and> (2::int) \<le> 2 + 1"
proof -
  have run: "ReadWithRetry (\<lambda>_. None) flaky_client 3 100 1 2 0 = (([0, 7], 2, None), 2)"
    by (simp add: ReadWithRetry_def read_loop.simps flaky_client_def)
  show ?thesis using ReadWithRetry_sound [OF _ run] run by simp
qed

end
