(* ===== verification/Adapters.thy ===== *)
theory Adapters
  imports Server Modbus
begin

text \<open>
  The two transports behind \<open>forwarder.Adapter\<close>: \<open>HTTPAdapter\<close> (\<open>httpadapter.go\<close>) and
  \<open>MQTTAdapter\<close> (\<open>mqttadapter.go\<close>), each joined to the server it talks to and shown to meet the
  contract \<open>adapter\<close> of the forwarder.

  The network is an argument: for HTTP, whether the request is lost, the reply is lost or both
  arrive; for MQTT, how often the broker delivers the message (at least once means any number of
  times when the publish is not confirmed), which of the acknowledgements published so far reach the
  gateway during the call, in which order, and which case of the \<open>select\<close> fires. The paho client is
  third-party code: the model has its callbacks and its answers, not its insides. The batch id is
  drawn by a UUID library, whose promise, that it does not repeat an id, is the hypothesis
  \<open>mqtt_ok\<close>.
\<close>

section \<open>The text of a duration\<close>

fun drop_zeros :: "string \<Rightarrow> string" where
  \<comment> \<open>leading zeros of a reversed fraction\<close>
  "drop_zeros [] = []"
| "drop_zeros (c # cs) = (if c = CHR ''0'' then drop_zeros cs else c # cs)"

definition pad_digits :: "nat \<Rightarrow> nat \<Rightarrow> string" where
  "pad_digits k n = (let s = show_nat n in replicate (k - length s) (CHR ''0'') @ s)"

definition with_fraction :: "nat \<Rightarrow> nat \<Rightarrow> string" where
  "with_fraction k n =
     (let frac = rev (drop_zeros (rev (pad_digits k (n mod 10 ^ k))))
      in show_nat (n div 10 ^ k) @ (if frac = [] then [] else CHR ''.'' # frac))"

definition micro_sign :: string where
  "micro_sign = [char_of (194 :: nat), char_of (181 :: nat)]"

definition show_duration :: "duration \<Rightarrow> string" where
  \<comment> \<open>\<open>time.Duration.String\<close>\<close>
  "show_duration d =
     (let n = nat \<bar>d\<bar>;
          body = (if n = 0 then ''0s''
            else if n < 1000 then show_nat n @ ''ns''
            else if n < 1000000 then with_fraction 3 n @ micro_sign @ ''s''
            else if n < 1000000000 then with_fraction 6 n @ ''ms''
            else (let s = n div 1000000000; secs = with_fraction 9 (n mod 60000000000) @ ''s''
                  in if s < 60 then secs
                     else if s < 3600 then show_nat (s div 60) @ ''m'' @ secs
                     else show_nat (s div 3600) @ ''h'' @ show_nat (s div 60 mod 60) @ ''m'' @ secs))
      in if d < 0 then CHR ''-'' # body else body)"

section \<open>HTTPAdapter\<close>

definition HTTPAdapter_Send ::
  "string option \<Rightarrow> ('s \<Rightarrow> wire_entry list \<Rightarrow> (string + int \<times> string) \<times> 's) \<Rightarrow>
   's \<Rightarrow> dispatch_entry list \<Rightarrow> string option \<times> 's" where
  \<comment> \<open>\<open>newRequest\<close> is the error of \<open>http.NewRequestWithContext\<close>, \<open>client_do\<close> what the POST
     of the marshalled batch meets: a transport error, or a status code with its text\<close>
  "HTTPAdapter_Send newRequest client_do s batch =
     (let wire = toWireEntries batch
      in case marshal_error wire of Some m \<Rightarrow> (Some (''marshal batch: '' @ m), s) | None \<Rightarrow>
         case newRequest of Some m \<Rightarrow> (Some m, s) | None \<Rightarrow>
         (case client_do s wire of
            (Inl m, s') \<Rightarrow> (Some m, s')
          | (Inr (code, status), s') \<Rightarrow>
              (if code < 200 \<or> 300 \<le> code then Some (''server returned '' @ status) else None, s')))"

datatype http_net = BadURL string | RequestLost string | ReplyLost string | Exchange

definition http_do :: "http_net \<Rightarrow> sim_store \<Rightarrow> wire_entry list \<Rightarrow> (string + int \<times> string) \<times> sim_store" where
  "http_do net s wire =
     (case net of
        RequestLost m \<Rightarrow> (Inl m, s)
      | ReplyLost m \<Rightarrow> (Inl m, snd (sim_http_ingest ''POST'' (Json wire) s))
      | _ \<Rightarrow> (case sim_http_ingest ''POST'' (Json wire) s of ((code, _), s') \<Rightarrow>
               (Inr (code, show_int code), s')))"

definition http_send :: "http_net \<Rightarrow> sim_store \<Rightarrow> dispatch_entry list \<Rightarrow> string option \<times> sim_store" where
  "http_send net = HTTPAdapter_Send (case net of BadURL m \<Rightarrow> Some m | _ \<Rightarrow> None) (http_do net)"

lemma sim_http_ingest_post:
  "sim_http_ingest ''POST'' (Json wire) s = ((200, Counts (fst (fst (sim_ingest wire s))) (snd (fst (sim_ingest wire s)))), sim_put () wire s)"
  by (simp add: sim_http_ingest_def sim_put_def split: prod.splits)

lemma http_send_server:
  "snd (http_send net s b) = s \<or> snd (http_send net s b) = sim_put () (toWireEntries b) s"
  by (auto simp: http_send_def HTTPAdapter_Send_def http_do_def sim_http_ingest_post Let_def
      split: option.splits http_net.splits)

lemma http_send_success:
  assumes "http_send net s b = (None, s')"
  shows "s' = sim_put () (toWireEntries b) s \<and> marshal_error (toWireEntries b) = None"
  using assms by (auto simp: http_send_def HTTPAdapter_Send_def http_do_def sim_http_ingest_post Let_def
      split: option.splits http_net.splits)

lemma wire_key_toWire [simp]: "wire_key (toWireEntry e) = entry_key e"
  by (simp add: wire_key_def toWireEntry_def entry_key_def)

lemma canonical_toWire: "canonical_entry (toWireEntry e) \<longleftrightarrow> millisecond dvd EventTimestamp e"
  by (simp add: canonical_entry_def toWireEntry_def)

lemma set_toWireEntries: "set (toWireEntries b) = toWireEntry ` set b"
  by (simp add: toWireEntries_def)

text \<open>An idempotent store behind any exchange that puts a batch zero or more times keeps the laws
  of an adapter.\<close>

interpretation http: adapter http_send "\<lambda>_ _. True" seen
proof unfold_locales
  show "seen s' (entry_key e) \<noteq> None" if "http_send env s b = (None, s')" "e \<in> set b" for env s b s' e
    using http_send_success [OF that(1)] sim.put_complete [where env = "()" and b = "toWireEntries b" and s = s and e = "toWireEntry e"] that(2)
    by (simp add: set_toWireEntries)
  show "seen (snd (http_send env s b)) k = Some w" if "seen s k = Some w" for s k w env b
    using http_send_server [of env s b] sim.put_keeps [OF that] that by metis
  show "seen s k = Some w \<or> (\<exists>e \<in> set b. entry_key e = k \<and> toWireEntry e = w)"
    if "\<forall>e \<in> set b. millisecond dvd EventTimestamp e" "seen (snd (http_send env s b)) k = Some w" for b env s k w
  proof -
    have "\<forall>e \<in> set (toWireEntries b). canonical_entry e"
      using that(1) by (simp add: set_toWireEntries canonical_toWire)
    note sim.put_adds [OF this, where env = "()" and s = s and k = k and w = w]
    with that(2) http_send_server [of env s b] have "seen s k = Some w \<or> w \<in> toWireEntry ` set b \<and> wire_key w = k"
      by (auto simp: set_toWireEntries)
    then show ?thesis by auto
  qed
qed

section \<open>MQTTAdapter\<close>

record mqtt_config =
  BrokerURL :: string
  QoS :: byte
  DataTopic :: string
  AckTopic :: string
  ConnectTimeout :: duration
  PublishTimeout :: duration
  AckTimeout :: duration
  WatchdogInterval :: duration
  ReconnectStuckAfter :: duration

definition defaultWatchdogInterval :: duration where "defaultWatchdogInterval = 15 * second"
definition defaultReconnectStuckAfter :: duration where "defaultReconnectStuckAfter = 45 * second"

text \<open>\<open>pending\<close> maps a batch id to the buffer of its channel, which holds one acknowledgement;
  \<open>blocked\<close> are the handler goroutines that wait on a full channel.\<close>

record mqtt_adapter =
  m_cfg :: mqtt_config
  pending :: "string \<Rightarrow> wire_ack list option"
  disconnectedAt :: gotime
  blocked :: "wire_ack list"

definition NewMQTTAdapter :: "mqtt_config \<Rightarrow> mqtt_adapter" where
  "NewMQTTAdapter cfg =
     (let cfg = (if WatchdogInterval cfg \<le> 0 then cfg\<lparr>WatchdogInterval := defaultWatchdogInterval\<rparr> else cfg);
          cfg = (if ReconnectStuckAfter cfg \<le> 0 then cfg\<lparr>ReconnectStuckAfter := defaultReconnectStuckAfter\<rparr> else cfg)
      in \<lparr>m_cfg = cfg, pending = Map.empty, disconnectedAt = zero_time, blocked = []\<rparr>)"

definition m_onConnect :: "mqtt_adapter \<Rightarrow> mqtt_adapter" where
  "m_onConnect a = a\<lparr>disconnectedAt := zero_time\<rparr>"

definition m_onConnectionLost :: "gotime \<Rightarrow> mqtt_adapter \<Rightarrow> mqtt_adapter" where
  "m_onConnectionLost now a = a\<lparr>disconnectedAt := now\<rparr>"

definition m_subscribeWithRetry :: "(nat \<Rightarrow> string option) \<Rightarrow> bool \<times> duration" where
  "m_subscribeWithRetry res = subscribe_attempts res 1 3"

definition isPahoAlreadyReconnectingErr :: "string option \<Rightarrow> bool" where
  "isPahoAlreadyReconnectingErr err =
     (case err of None \<Rightarrow> False
      | Some m \<Rightarrow> contains m ''status can only transition to connecting from disconnected'')"

datatype watchdog_log = NoAttempt | Reconnected | AlreadyReconnecting | AttemptFailed string

text \<open>One run of the watchdog: whether the connection is open, the instants it reads, the error of
  the forced \<open>Connect\<close>, whether the connection is open afterwards, and the callbacks paho runs
  meanwhile.\<close>

definition checkAndForceReconnect ::
  "bool \<Rightarrow> gotime \<Rightarrow> string option \<Rightarrow> (mqtt_adapter \<Rightarrow> mqtt_adapter) \<Rightarrow> bool \<Rightarrow> gotime \<Rightarrow> mqtt_adapter \<Rightarrow>
   watchdog_log \<times> mqtt_adapter" where
  "checkAndForceReconnect open1 now connectErr callbacks open2 now2 a =
     (if open1 then (NoAttempt, a)
      else (let stuckSince = disconnectedAt a
       in if stuckSince = zero_time \<or> now - stuckSince < ReconnectStuckAfter (m_cfg a) then (NoAttempt, a)
          else (let a' = callbacks a;
                    l = (case connectErr of None \<Rightarrow> Reconnected
                         | Some m \<Rightarrow> if isPahoAlreadyReconnectingErr (Some m) then AlreadyReconnecting
                                     else AttemptFailed m)
                in (l, if \<not> open2 then a'\<lparr>disconnectedAt := now2\<rparr> else a'))))"

definition handleAck :: "wire_ack payload \<Rightarrow> mqtt_adapter \<Rightarrow> mqtt_adapter" where
  "handleAck msg a =
     (case msg of
        Malformed _ \<Rightarrow> a
      | Json ack \<Rightarrow>
          (case pending a (A_BatchID ack) of
             None \<Rightarrow> a
           | Some [] \<Rightarrow> a\<lparr>pending := (pending a)(A_BatchID ack \<mapsto> [ack])\<rparr>
           | Some _ \<Rightarrow> a\<lparr>blocked := ack # blocked a\<rparr>))"

datatype token_result = TokDone "string option" | TokContext string | TokTimeout

definition waitToken :: "token_result \<Rightarrow> duration \<Rightarrow> string option" where
  "waitToken tok timeout =
     (case tok of
        TokDone err \<Rightarrow> err
      | TokContext m \<Rightarrow> Some m
      | TokTimeout \<Rightarrow> Some (''timed out after '' @ show_duration timeout))"

definition Connect_mqtt :: "token_result \<Rightarrow> mqtt_adapter \<Rightarrow> string option" where
  "Connect_mqtt tok a = map_option (\<lambda>m. ''mqtt connect: '' @ m) (waitToken tok (ConnectTimeout (m_cfg a)))"

datatype select_case = TakeAck | TakeContext string | TakeTimeout

definition await_ack :: "select_case \<Rightarrow> string \<Rightarrow> wire_ack list \<Rightarrow> string option" where
  "await_ack sel bid buf =
     (case (sel, buf) of
        (TakeAck, ack # _) \<Rightarrow>
          if A_Error ack \<noteq> [] then Some (''server rejected batch '' @ bid @ '': '' @ A_Error ack) else None
      | (TakeContext m, _) \<Rightarrow> Some m
      | _ \<Rightarrow> Some (''mqtt: timed out waiting for ack of batch '' @ bid))"

text \<open>\<open>Send\<close> over a network \<open>publish\<close>: it takes the payload to the acknowledgements that reach
  \<open>handleAck\<close> before the call ends, and to the rest of the world after it.\<close>

definition MQTTAdapter_Send ::
  "bool \<Rightarrow> string \<Rightarrow> token_result \<Rightarrow> select_case \<Rightarrow>
   ('s \<Rightarrow> wire_batch \<Rightarrow> wire_ack payload list \<times> 's) \<Rightarrow>
   mqtt_adapter \<Rightarrow> 's \<Rightarrow> dispatch_entry list \<Rightarrow> string option \<times> mqtt_adapter \<times> 's" where
  "MQTTAdapter_Send isConnected uuid tok sel publish a s batch =
     (if \<not> isConnected then (Some (''mqtt: not connected to '' @ BrokerURL (m_cfg a)), a, s)
      else (let payload = \<lparr>BatchID = uuid, B_Entries = toWireEntries batch\<rparr>
       in case marshal_error (B_Entries payload) of
            Some m \<Rightarrow> (Some (''marshal batch: '' @ m), a, s)
          | None \<Rightarrow>
              (let a1 = a\<lparr>pending := (pending a)(BatchID payload \<mapsto> [])\<rparr>;
                   (acks, s') = publish s payload;
                   a2 = fold handleAck acks a1;
                   res = (case waitToken tok (PublishTimeout (m_cfg a)) of
                            Some m \<Rightarrow> Some (''mqtt publish: '' @ m)
                          | None \<Rightarrow> await_ack sel (BatchID payload)
                              (case pending a2 (BatchID payload) of None \<Rightarrow> [] | Some buf \<Rightarrow> buf))
               in (res, a2\<lparr>pending := (pending a2)(BatchID payload := None)\<rparr>, s'))))"

text \<open>The gateway's MQTT side joined to \<open>internal-server\<close>: the broker keeps every acknowledgement
  published so far, with its topic.\<close>

record mqtt_world =
  mw_adapter :: mqtt_adapter
  mw_db :: "reading list"
  mw_acks :: "(string \<times> wire_ack) list"

record mqtt_net =
  e_connected :: bool
  e_uuid :: string
  e_copies :: "ingest_env list"
  e_token :: token_result
  e_deliver :: "nat list"
  e_select :: select_case

fun consume :: "string \<Rightarrow> wire_batch \<Rightarrow> ingest_env list \<Rightarrow> (string \<times> wire_ack) list \<times> reading list \<Rightarrow>
    (string \<times> wire_ack) list \<times> reading list" where
  \<comment> \<open>the broker delivers the message once per element of the list\<close>
  "consume topic m [] w = w"
| "consume topic m (env # envs) (acks, db) =
     (case handleMessage env topic (Json m) db of
        (None, db') \<Rightarrow> consume topic m envs (acks, db')
      | (Some ack, db') \<Rightarrow> consume topic m envs (acks @ [ack], db'))"

definition acks_on :: "string \<Rightarrow> nat list \<Rightarrow> (string \<times> wire_ack) list \<Rightarrow> wire_ack payload list" where
  "acks_on topic idxs acks =
     map (\<lambda>i. Json (snd (acks ! i))) (filter (\<lambda>i. i < length acks \<and> fst (acks ! i) = topic) idxs)"

definition mqtt_send :: "mqtt_net \<Rightarrow> mqtt_world \<Rightarrow> dispatch_entry list \<Rightarrow> string option \<times> mqtt_world" where
  "mqtt_send net w batch =
     (let cfg = m_cfg (mw_adapter w);
          publish = (\<lambda>(acks, db) m. (let (acks', db') = consume (DataTopic cfg) m (e_copies net) (acks, db)
                                     in (acks_on (AckTopic cfg) (e_deliver net) acks', (acks', db'))))
      in case MQTTAdapter_Send (e_connected net) (e_uuid net) (e_token net) (e_select net) publish
                (mw_adapter w) (mw_acks w, mw_db w) batch of
           (res, a, (acks, db)) \<Rightarrow> (res, w\<lparr>mw_adapter := a, mw_db := db, mw_acks := acks\<rparr>))"

definition mqtt_ok :: "mqtt_net \<Rightarrow> mqtt_world \<Rightarrow> bool" where
  \<comment> \<open>\<open>uuid.NewString\<close> does not repeat an id\<close>
  "mqtt_ok net w \<longleftrightarrow> e_uuid net \<notin> A_BatchID ` snd ` set (mw_acks w)"

definition mqtt_delivered :: "mqtt_world \<Rightarrow> string \<times> int \<Rightarrow> wire_entry option" where
  "mqtt_delivered w = pg_contents (mw_db w)"

section \<open>Acknowledgements and deliveries\<close>

lemma handleAck_pending_other:
  "pending (handleAck m a) b = pending a b \<or> (\<exists>ack. m = Json ack \<and> A_BatchID ack = b \<and> pending (handleAck m a) b = Some [ack])"
  by (auto simp: handleAck_def split: payload.splits option.splits list.splits)

lemma fold_handleAck_buffer:
  "pending (fold handleAck ms a) b = Some buf \<Longrightarrow>
   pending a b = Some buf \<or> (\<exists>ack. Json ack \<in> set ms \<and> A_BatchID ack = b \<and> buf = [ack])"
proof (induction ms arbitrary: a)
  case (Cons m ms)
  then have "pending (handleAck m a) b = Some buf \<or> (\<exists>ack. Json ack \<in> set ms \<and> A_BatchID ack = b \<and> buf = [ack])"
    by simp
  with handleAck_pending_other [of m a b] show ?case by auto
qed simp

lemma consume_db:
  assumes "consume topic m envs (acks, db) = (acks', db')"
  shows "db' = fold (\<lambda>env. pg_put env (B_Entries m)) envs db"
  using assms
proof (induction envs arbitrary: acks db)
  case (Cons env envs)
  have "snd (handleMessage env topic (Json m) db) = pg_put env (B_Entries m) db"
    by (auto simp: handleMessage_def pg_put_def split: prod.splits option.splits)
  with Cons show ?case by (auto split: prod.splits option.splits)
qed simp

lemma pg_fold_keeps:
  "pg_contents db k = Some w \<Longrightarrow> pg_contents (fold (\<lambda>env. pg_put env b) envs db) k = Some w"
  by (induction envs arbitrary: db) (auto simp: pg.put_keeps)

lemma pg_fold_adds:
  assumes "\<forall>e \<in> set b. canonical_entry e" "pg_contents (fold (\<lambda>env. pg_put env b) envs db) k = Some w"
  shows "pg_contents db k = Some w \<or> w \<in> set b \<and> wire_key w = k"
  using assms(2) by (induction envs arbitrary: db) (auto dest: pg.put_adds [OF assms(1)])

text \<open>A new acknowledgement in the broker means some delivery stored the whole batch.\<close>

lemma consume_acks:
  assumes "consume topic m envs (acks, db) = (acks', db')" "x \<in> set acks'" "x \<notin> set acks"
    and "e \<in> set (B_Entries m)"
  shows "pg_contents db' (wire_key e) \<noteq> None"
  using assms
proof (induction envs arbitrary: acks db)
  case (Cons env envs)
  show ?case
  proof (cases "fst (handleMessage env topic (Json m) db)")
    case None
    with Cons show ?thesis by (auto split: prod.splits option.splits)
  next
    case (Some ack)
    then have c: "pg_complete env (B_Entries m) db"
      by (auto simp: handleMessage_def pg_complete_def split: prod.splits option.splits)
    from pg.put_complete [OF c Cons.prems(4)] obtain w
      where w: "pg_contents (pg_put env (B_Entries m) db) (wire_key e) = Some w" by blast
    have "db' = fold (\<lambda>env. pg_put env (B_Entries m)) envs (pg_put env (B_Entries m) db)"
      using consume_db [OF Cons.prems(1)] by simp
    with pg_fold_keeps [OF w] show ?thesis by simp
  qed
qed simp

text \<open>What a call does to the server, whatever its answer.\<close>

lemma mqtt_send_db:
  "\<exists>envs. mw_db (snd (mqtt_send net w b)) = fold (\<lambda>env. pg_put env (toWireEntries b)) envs (mw_db w)"
proof -
  obtain acks' db' where c: "consume (DataTopic (m_cfg (mw_adapter w)))
      \<lparr>BatchID = e_uuid net, B_Entries = toWireEntries b\<rparr> (e_copies net) (mw_acks w, mw_db w) = (acks', db')"
    by fastforce
  have "mw_db (snd (mqtt_send net w b)) = mw_db w \<or> mw_db (snd (mqtt_send net w b)) = db'"
    using c by (auto simp: mqtt_send_def MQTTAdapter_Send_def Let_def split: option.splits)
  with consume_db [OF c] show ?thesis
    by (metis fold_simps(1) select_convs(2) wire_batch.select_convs(2))
qed

lemma mqtt_send_success:
  assumes "mqtt_ok net w" "mqtt_send net w b = (None, w')" "e \<in> set b"
  shows "pg_contents (mw_db w') (entry_key e) \<noteq> None"
proof -
  let ?cfg = "m_cfg (mw_adapter w)"
  let ?m = "\<lparr>BatchID = e_uuid net, B_Entries = toWireEntries b\<rparr>"
  let ?a1 = "(mw_adapter w)\<lparr>pending := (pending (mw_adapter w))(e_uuid net \<mapsto> [])\<rparr>"
  obtain acks' db' where c: "consume (DataTopic ?cfg) ?m (e_copies net) (mw_acks w, mw_db w) = (acks', db')"
    by fastforce
  define ms where "ms = acks_on (AckTopic ?cfg) (e_deliver net) acks'"
  have db: "mw_db w' = db'"
    and "\<exists>buf. pending (fold handleAck ms ?a1) (e_uuid net) = Some buf \<and> buf \<noteq> []"
    using assms(2) c by (auto simp: mqtt_send_def MQTTAdapter_Send_def ms_def Let_def await_ack_def
        split: option.splits if_splits select_case.splits list.splits)
  then obtain buf where buf: "pending (fold handleAck ms ?a1) (e_uuid net) = Some buf" "buf \<noteq> []" by blast
  from fold_handleAck_buffer [OF buf(1)] buf(2) obtain ack
    where "Json ack \<in> set ms" and bid: "A_BatchID ack = e_uuid net" by auto
  then obtain i where "i < length acks'" "snd (acks' ! i) = ack" by (auto simp: ms_def acks_on_def)
  then obtain x where x: "x \<in> set acks'" "snd x = ack" using nth_mem by blast
  have "x \<notin> set (mw_acks w)" using assms(1) x(2) bid by (force simp: mqtt_ok_def)
  from consume_acks [OF c x(1) this, of "toWireEntry e"] assms(3) show ?thesis
    by (simp add: db set_toWireEntries)
qed

interpretation mqtt: adapter mqtt_send mqtt_ok mqtt_delivered
proof unfold_locales
  show "mqtt_delivered s' (entry_key e) \<noteq> None"
    if "mqtt_ok env s" "mqtt_send env s b = (None, s')" "e \<in> set b" for env s b s' e
    unfolding mqtt_delivered_def by (rule mqtt_send_success [OF that])
  show "mqtt_delivered (snd (mqtt_send env s b)) k = Some w" if "mqtt_delivered s k = Some w" for s k w env b
    using mqtt_send_db [of env s b] that pg_fold_keeps [of "mw_db s" k w] unfolding mqtt_delivered_def by metis
  show "mqtt_delivered s k = Some w \<or> (\<exists>e \<in> set b. entry_key e = k \<and> toWireEntry e = w)"
    if "\<forall>e \<in> set b. millisecond dvd EventTimestamp e" "mqtt_delivered (snd (mqtt_send env s b)) k = Some w" for b env s k w
  proof -
    have "\<forall>e \<in> set (toWireEntries b). canonical_entry e"
      using that(1) by (simp add: set_toWireEntries canonical_toWire)
    note pg_fold_adds [OF this]
    with that(2) mqtt_send_db [of env s b] show ?thesis
      by (fastforce simp: mqtt_delivered_def set_toWireEntries)
  qed
qed

end
