(* ===== verification/StoreForward.thy ===== *)
theory StoreForward
  imports Adapters
begin

text \<open>
  Store and forward as one system: the persistent queue, the forwarder in any of its phases, the
  transport with the server behind it, and the goroutines that run beside the forwarder (acquisition,
  retention, storage pressure), with crashes and restarts at any point.

  The forwarder's phases are the three database and network calls of \<open>dispatchOnce\<close>
  (\<open>src/gateway/internal/forwarder/forwarder.go\<close>). The fields \<open>sys_inserted\<close> and
  \<open>sys_evicted\<close> are ghosts: what acquisition handed to the queue, by idempotency key, and the keys
  whose rows the storage policy removed.
\<close>

section \<open>The system\<close>

datatype phase = Idle | Fetched "dispatch_entry list" | Answered "dispatch_entry list" "string option"

record 's sys =
  sys_db :: qdb
  sys_phase :: phase
  sys_net :: 's
  sys_inserted :: "string \<times> int \<Rightarrow> wire_entry option"
  sys_evicted :: "(string \<times> int) set"

definition wire_of_row :: "row \<Rightarrow> wire_entry" where
  "wire_of_row r = toWireEntry (to_dispatch r)"

fun flight :: "phase \<Rightarrow> dispatch_entry list" where
  "flight Idle = []"
| "flight (Fetched b) = b"
| "flight (Answered b res) = b"

definition init_sys :: "'s \<Rightarrow> 's sys" where
  "init_sys net = \<lparr>sys_db = empty_qdb, sys_phase = Idle, sys_net = net, sys_inserted = Map.empty,
     sys_evicted = {}\<rparr>"

inductive sys_step :: "('e, 's) send_fn \<Rightarrow> ('e \<Rightarrow> 's \<Rightarrow> bool) \<Rightarrow> 's sys \<Rightarrow> 's sys \<Rightarrow> bool"
  for send :: "('e, 's) send_fn" and ok :: "'e \<Rightarrow> 's \<Rightarrow> bool" where
  sys_ensure: "EnsureGateway flt gid name (sys_db y) = (res, db) \<Longrightarrow> sys_step send ok y (y\<lparr>sys_db := db\<rparr>)"
| sys_insert_ok: "Insert bind flt e (sys_db y) = (Inr e', db) \<Longrightarrow>
    sys_step send ok y (y\<lparr>sys_db := db, sys_inserted :=
      (sys_inserted y)((GatewayID e', SequenceID e') \<mapsto> wire_of_row (last (data_queue db)))\<rparr>)"
| sys_insert_err: "Insert bind flt e (sys_db y) = (Inl err, db) \<Longrightarrow> sys_step send ok y (y\<lparr>sys_db := db\<rparr>)"
| sys_fetch: "sys_phase y = Idle \<Longrightarrow> sql_order ob \<Longrightarrow>
    FetchBatch ob flt now limit (sys_db y) = (Inr batch, db) \<Longrightarrow>
    sys_step send ok y (y\<lparr>sys_db := db, sys_phase := (if batch = [] then Idle else Fetched batch)\<rparr>)"
| sys_send: "sys_phase y = Fetched batch \<Longrightarrow> ok env (sys_net y) \<Longrightarrow> send env (sys_net y) batch = (res, net) \<Longrightarrow>
    sys_step send ok y (y\<lparr>sys_net := net, sys_phase := Answered batch res\<rparr>)"
| sys_mark_failed: "sys_phase y = Answered batch (Some err) \<Longrightarrow>
    MarkFailed flt clock (map ID batch) err (sys_db y) = (res, db) \<Longrightarrow>
    sys_step send ok y (y\<lparr>sys_db := db, sys_phase := Idle\<rparr>)"
| sys_mark_sent: "sys_phase y = Answered batch None \<Longrightarrow>
    MarkSent flt now (map ID batch) (sys_db y) = (res, db) \<Longrightarrow>
    sys_step send ok y (y\<lparr>sys_db := db, sys_phase := Idle\<rparr>)"
| sys_retention: "retention_sweep flt now keep (sys_db y) = (res, db) \<Longrightarrow> sys_step send ok y (y\<lparr>sys_db := db\<rparr>)"
| sys_storage: "sql_order ob \<Longrightarrow> storage_check ob flt usage full n (sys_db y) = (res, db) \<Longrightarrow>
    sys_step send ok y (y\<lparr>sys_db := db, sys_evicted := sys_evicted y \<union>
      (row_key ` set (data_queue (sys_db y)) - row_key ` set (data_queue db))\<rparr>)"
| sys_restart: "RecoverSendingToPending flt (sys_db y) = (res, db) \<Longrightarrow>
    sys_step send ok y (y\<lparr>sys_db := db, sys_phase := Idle\<rparr>)"

inductive sys_reachable :: "('e, 's) send_fn \<Rightarrow> ('e \<Rightarrow> 's \<Rightarrow> bool) \<Rightarrow> 's \<Rightarrow> 's sys \<Rightarrow> bool"
  for send :: "('e, 's) send_fn" and ok :: "'e \<Rightarrow> 's \<Rightarrow> bool" and net :: 's where
  sys_init: "sys_reachable send ok net (init_sys net)"
| sys_next: "sys_reachable send ok net y \<Longrightarrow> sys_step send ok y y' \<Longrightarrow> sys_reachable send ok net y'"

section \<open>How the statements evolve the rows\<close>

definition stems :: "qdb \<Rightarrow> qdb \<Rightarrow> bool" where
  \<comment> \<open>no new row, no new id, no rewound counter\<close>
  "stems db db' \<longleftrightarrow>
     (\<forall>r' \<in> set (data_queue db'). \<exists>r \<in> set (data_queue db). same_identity r r') \<and>
     dq_seq db \<le> dq_seq db' \<and>
     (\<forall>gid g. gateways db gid = Some g \<longrightarrow>
        (\<exists>g'. gateways db' gid = Some g' \<and> g_last_sequence g \<le> g_last_sequence g'))"

lemma stems_refl [simp]: "stems db db"
  unfolding stems_def using same_identity_refl by blast

lemma stems_map:
  assumes "\<And>r. same_identity r (f r)"
  shows "stems db (db\<lparr>data_queue := map f (data_queue db)\<rparr>)"
  using assms by (auto simp: stems_def)

lemma stems_filter: "stems db (db\<lparr>data_queue := filter P (data_queue db)\<rparr>)"
proof -
  have "\<forall>r' \<in> set (filter P (data_queue db)). \<exists>r \<in> set (data_queue db). same_identity r r'"
    by (metis filter_is_subset same_identity_refl subsetD)
  then show ?thesis by (simp add: stems_def)
qed

lemma keys_map:
  assumes "\<And>r. same_identity r (f r)"
  shows "row_key ` set (map f rs) = row_key ` set rs"
proof -
  have "map row_key (map f rs) = map row_key rs" using same_identityD(2) [OF assms] by simp
  then show ?thesis by (metis set_map)
qed

lemma wire_of_row_same: "same_identity r r' \<Longrightarrow> wire_of_row r' = wire_of_row r"
  by (simp add: wire_of_row_def toWireEntry_def to_dispatch_def same_identity_def row_key_def)

text \<open>The rows a statement leaves behind, per operation: every operation except \<open>Insert\<close> either
  rewrites bookkeeping columns of all rows or deletes rows.\<close>

definition row_rewrite :: "qdb \<Rightarrow> qdb \<Rightarrow> (row \<Rightarrow> row) \<Rightarrow> bool" where
  "row_rewrite db db' f \<longleftrightarrow> db' = db\<lparr>data_queue := map f (data_queue db)\<rparr> \<and> (\<forall>r. same_identity r (f r))"

lemma row_rewrite_update_ids:
  "(\<And>r. same_identity r (f r)) \<Longrightarrow>
   row_rewrite db (db\<lparr>data_queue := update_ids ids f (data_queue db)\<rparr>) (\<lambda>r. if q_id r \<in> set ids then f r else r)"
  by (simp add: row_rewrite_def update_ids_def)

lemma row_rewrite_id [simp]: "row_rewrite db db id"
  by (simp add: row_rewrite_def)

lemma row_rewrite_FetchBatch:
  assumes "FetchBatch ob flt now limit db = (Inr batch, db')"
  shows "\<exists>f. row_rewrite db db' f \<and> (\<forall>r. q_status (f r) = SENT \<longrightarrow> q_status r = SENT)"
proof (intro exI conjI allI)
  let ?ids = "map q_id (sql_limit limit (ob dispatch_key (filter (eligible now) (data_queue db))))"
  show "row_rewrite db db' (\<lambda>r. if q_id r \<in> set ?ids then r\<lparr>q_status := SENDING\<rparr> else r)"
    using row_rewrite_update_ids [of "\<lambda>r. r\<lparr>q_status := SENDING\<rparr>" db ?ids]
    by (simp add: FetchBatch_Inr [OF assms])
qed simp

lemma row_rewrite_MarkSent:
  assumes "MarkSent flt now ids db = (res, db')"
  shows "\<exists>f. row_rewrite db db' f \<and> (\<forall>r. q_status (f r) = SENT \<longrightarrow> q_status r = SENT \<or> q_id r \<in> set ids)"
proof (cases "db' = db")
  case True
  then show ?thesis by (intro exI [of _ id]) simp
next
  case False
  let ?f = "\<lambda>r. if q_id r \<in> set ids then r\<lparr>q_status := SENT, q_sent_at := Some (millis now)\<rparr> else r"
  from False assms have "db' = db\<lparr>data_queue := update_ids ids (\<lambda>r. r\<lparr>q_status := SENT, q_sent_at := Some (millis now)\<rparr>) (data_queue db)\<rparr>"
    by (auto simp: MarkSent_def split: if_splits option.splits)
  then show ?thesis
    using row_rewrite_update_ids [of "\<lambda>r. r\<lparr>q_status := SENT, q_sent_at := Some (millis now)\<rparr>" db ids]
    by (intro exI [of _ ?f]) simp
qed

lemma mark_failed_loop_status:
  assumes "mark_failed_loop flt clock e i ids rs = Inr rs'"
  shows "\<exists>f. rs' = map f rs \<and> (\<forall>r. same_identity r (f r)) \<and> (\<forall>r. q_status (f r) = SENT \<longrightarrow> q_status r = SENT)"
  using assms
proof (induction ids arbitrary: i rs)
  case Nil
  then show ?case by (intro exI [of _ id]) simp
next
  case (Cons x xs)
  let ?g = "\<lambda>(r0 :: row) r. if q_id r = x then fail_row (clock i) e (q_retry_count r0) r else r"
  from Cons.prems obtain r0 where
    "mark_failed_loop flt clock e (Suc i) xs (map (?g r0) rs) = Inr rs'"
    by (auto simp: update_ids_def split: option.splits)
  from Cons.IH [OF this] obtain f where f: "rs' = map (f \<circ> ?g r0) rs"
    "\<And>r. same_identity r (f r)" "\<And>r. q_status (f r) = SENT \<Longrightarrow> q_status r = SENT"
    by auto
  have "same_identity r ((f \<circ> ?g r0) r)" for r
    using f(2) [of "?g r0 r"] same_identity_trans [of r "?g r0 r"] by auto
  moreover have "q_status ((f \<circ> ?g r0) r) = SENT \<Longrightarrow> q_status r = SENT" for r
    using f(3) [of "?g r0 r"] by (auto simp: fail_row_def split: if_splits)
  ultimately show ?case using f(1) by blast
qed

lemma row_rewrite_MarkFailed:
  assumes "MarkFailed flt clock ids e db = (res, db')"
  shows "\<exists>f. row_rewrite db db' f \<and> (\<forall>r. q_status (f r) = SENT \<longrightarrow> q_status r = SENT)"
proof (cases "db' = db")
  case True
  then show ?thesis by (intro exI [of _ id]) simp
next
  case False
  with assms obtain rs where rs: "mark_failed_loop flt clock e 0 ids (data_queue db) = Inr rs" "db' = db\<lparr>data_queue := rs\<rparr>"
    by (auto simp: MarkFailed_def split: if_splits option.splits sum.splits)
  from mark_failed_loop_status [OF rs(1)] rs(2) show ?thesis
    by (auto simp: row_rewrite_def)
qed

lemma row_rewrite_Recover:
  assumes "RecoverSendingToPending flt db = (res, db')"
  shows "\<exists>f. row_rewrite db db' f \<and> (\<forall>r. q_status (f r) = SENT \<longrightarrow> q_status r = SENT)"
proof (cases "db' = db")
  case True
  then show ?thesis by (intro exI [of _ id]) simp
next
  case False
  with assms have "db' = db\<lparr>data_queue := map (\<lambda>r. if q_status r = SENDING then r\<lparr>q_status := PENDING\<rparr> else r) (data_queue db)\<rparr>"
    by (auto simp: RecoverSendingToPending_def split: option.splits)
  then show ?thesis
    by (intro exI [of _ "\<lambda>r. if q_status r = SENDING then r\<lparr>q_status := PENDING\<rparr> else r"]) (simp add: row_rewrite_def)
qed

lemma retention_rows:
  assumes "retention_sweep flt now keep db = (res, db')"
  shows "\<exists>P. db' = db\<lparr>data_queue := filter P (data_queue db)\<rparr> \<and> (\<forall>r. \<not> P r \<longrightarrow> q_status r = SENT)"
proof (cases "fault_at (AtExec 0) flt")
  case None
  with assms show ?thesis
    by (auto simp: retention_sweep_def DeleteSentOlderThan_def Let_def)
next
  case (Some m)
  with assms have "db' = db\<lparr>data_queue := filter (\<lambda>_. True) (data_queue db)\<rparr>"
    by (auto simp: retention_sweep_def DeleteSentOlderThan_def)
  then show ?thesis by blast
qed

lemma storage_rows:
  assumes "storage_check ob flt usage full n db = (res, db')"
  shows "\<exists>P. db' = db\<lparr>data_queue := filter P (data_queue db)\<rparr>"
proof (cases "db' = db")
  case True
  then show ?thesis by (intro exI [of _ "\<lambda>_. True"]) simp
next
  case False
  with assms show ?thesis
    by (auto simp: storage_check_def EvictOldestNonCritical_def Let_def
        split: option.splits sum.splits storage_level.splits)
qed

section \<open>The invariant\<close>

text \<open>\<open>sys_inv del y\<close>, with \<open>del\<close> what the server holds: the queue's own invariant; every stored
  row and everything at the server is what acquisition inserted under that key; a row is SENT only if
  the server holds its entry; a key that is neither stored nor delivered was evicted; what is in
  flight is what was inserted, under ids that no other row has or will ever have; and a positive
  answer means the batch was delivered.\<close>

definition sys_inv :: "('s \<Rightarrow> string \<times> int \<Rightarrow> wire_entry option) \<Rightarrow> 's sys \<Rightarrow> bool" where
  "sys_inv del y \<longleftrightarrow>
     queue_inv (sys_db y) \<and>
     (\<forall>r \<in> set (data_queue (sys_db y)). sys_inserted y (row_key r) = Some (wire_of_row r)) \<and>
     (\<forall>k w. del (sys_net y) k = Some w \<longrightarrow> sys_inserted y k = Some w) \<and>
     (\<forall>r \<in> set (data_queue (sys_db y)). q_status r = SENT \<longrightarrow> del (sys_net y) (row_key r) \<noteq> None) \<and>
     (\<forall>k. sys_inserted y k \<noteq> None \<longrightarrow>
        k \<in> row_key ` set (data_queue (sys_db y)) \<or> del (sys_net y) k \<noteq> None \<or> k \<in> sys_evicted y) \<and>
     (\<forall>gid n. sys_inserted y (gid, n) \<noteq> None \<longrightarrow>
        (\<exists>g. gateways (sys_db y) gid = Some g \<and> n \<le> g_last_sequence g)) \<and>
     (\<forall>e \<in> set (flight (sys_phase y)). sys_inserted y (entry_key e) = Some (toWireEntry e) \<and>
        ID e \<le> dq_seq (sys_db y) \<and> millisecond dvd EventTimestamp e \<and>
        (\<forall>r \<in> set (data_queue (sys_db y)). q_id r = ID e \<longrightarrow> row_key r = entry_key e)) \<and>
     (\<forall>b. sys_phase y = Answered b None \<longrightarrow> (\<forall>e \<in> set b. del (sys_net y) (entry_key e) \<noteq> None))"

lemma sys_invD:
  assumes "sys_inv del y"
  shows "queue_inv (sys_db y)"
    and "\<And>r. r \<in> set (data_queue (sys_db y)) \<Longrightarrow> sys_inserted y (row_key r) = Some (wire_of_row r)"
    and "\<And>k w. del (sys_net y) k = Some w \<Longrightarrow> sys_inserted y k = Some w"
    and "\<And>r. r \<in> set (data_queue (sys_db y)) \<Longrightarrow> q_status r = SENT \<Longrightarrow> del (sys_net y) (row_key r) \<noteq> None"
    and "\<And>k. sys_inserted y k \<noteq> None \<Longrightarrow>
        k \<in> row_key ` set (data_queue (sys_db y)) \<or> del (sys_net y) k \<noteq> None \<or> k \<in> sys_evicted y"
    and "\<And>gid n. sys_inserted y (gid, n) \<noteq> None \<Longrightarrow>
        \<exists>g. gateways (sys_db y) gid = Some g \<and> n \<le> g_last_sequence g"
    and "\<And>e. e \<in> set (flight (sys_phase y)) \<Longrightarrow> sys_inserted y (entry_key e) = Some (toWireEntry e)"
    and "\<And>e. e \<in> set (flight (sys_phase y)) \<Longrightarrow> ID e \<le> dq_seq (sys_db y)"
    and "\<And>e. e \<in> set (flight (sys_phase y)) \<Longrightarrow> millisecond dvd EventTimestamp e"
    and "\<And>e r. e \<in> set (flight (sys_phase y)) \<Longrightarrow> r \<in> set (data_queue (sys_db y)) \<Longrightarrow>
        q_id r = ID e \<Longrightarrow> row_key r = entry_key e"
    and "\<And>b e. sys_phase y = Answered b None \<Longrightarrow> e \<in> set b \<Longrightarrow> del (sys_net y) (entry_key e) \<noteq> None"
  using assms unfolding sys_inv_def by blast+

text \<open>A statement that adds no row keeps the invariant if the rows it makes SENT are delivered and
  the rows it removes are delivered or counted as evicted.\<close>

lemma sys_inv_stems:
  assumes inv: "sys_inv del y" and q: "queue_inv db'" and st: "stems (sys_db y) db'"
    and sent: "\<And>r. r \<in> set (data_queue db') \<Longrightarrow> q_status r = SENT \<Longrightarrow> del (sys_net y) (row_key r) \<noteq> None"
    and lost: "\<And>r. r \<in> set (data_queue (sys_db y)) \<Longrightarrow> row_key r \<notin> row_key ` set (data_queue db') \<Longrightarrow>
        del (sys_net y) (row_key r) \<noteq> None \<or> row_key r \<in> ev"
    and ev: "sys_evicted y \<subseteq> ev"
  shows "sys_inv del (y\<lparr>sys_db := db', sys_evicted := ev\<rparr>)"
proof -
  note D = sys_invD [OF inv]
  have orig: "\<exists>s \<in> set (data_queue (sys_db y)). same_identity s r" if "r \<in> set (data_queue db')" for r
    using st that by (auto simp: stems_def)
  have rows: "sys_inserted y (row_key r) = Some (wire_of_row r)" if "r \<in> set (data_queue db')" for r
    using orig [OF that] D(2) same_identityD(2) wire_of_row_same by metis
  have cover: "k \<in> row_key ` set (data_queue db') \<or> del (sys_net y) k \<noteq> None \<or> k \<in> ev"
    if "sys_inserted y k \<noteq> None" for k
    using D(5) [OF that] lost ev by blast
  have gws: "\<exists>g. gateways db' gid = Some g \<and> n \<le> g_last_sequence g" if "sys_inserted y (gid, n) \<noteq> None" for gid n
    using D(6) [OF that] st by (fastforce simp: stems_def)
  have ids: "row_key r = entry_key e" if "e \<in> set (flight (sys_phase y))" "r \<in> set (data_queue db')" "q_id r = ID e" for e r
    using orig [OF that(2)] D(10) [OF that(1)] that(3) same_identityD(1,2) by metis
  have seq: "ID e \<le> dq_seq db'" if "e \<in> set (flight (sys_phase y))" for e
    using D(8) [OF that] st by (simp add: stems_def)
  show ?thesis
    unfolding sys_inv_def using q rows sent cover gws ids seq D(3,7,9,11) by auto
qed

lemma sys_inv_rewrite:
  assumes inv: "sys_inv del y" and q: "queue_inv db'" and rw: "row_rewrite (sys_db y) db' f"
    and sent: "\<And>r. r \<in> set (data_queue (sys_db y)) \<Longrightarrow> q_status (f r) = SENT \<Longrightarrow>
        q_status r = SENT \<or> del (sys_net y) (row_key r) \<noteq> None"
  shows "sys_inv del (y\<lparr>sys_db := db'\<rparr>)"
proof -
  have f: "\<And>r. same_identity r (f r)" and db': "db' = (sys_db y)\<lparr>data_queue := map f (data_queue (sys_db y))\<rparr>"
    using rw by (auto simp: row_rewrite_def)
  have "sys_inv del (y\<lparr>sys_db := db', sys_evicted := sys_evicted y\<rparr>)"
  proof (rule sys_inv_stems [OF inv q])
    show "stems (sys_db y) db'" unfolding db' by (rule stems_map [OF f])
    show "del (sys_net y) (row_key r) \<noteq> None" if "r \<in> set (data_queue db')" "q_status r = SENT" for r
    proof -
      from that(1) obtain s where s: "s \<in> set (data_queue (sys_db y))" "r = f s" by (auto simp: db')
      with that(2) sent [OF s(1)] sys_invD(4) [OF inv s(1)] same_identityD(2) [OF f] show ?thesis by metis
    qed
    show "del (sys_net y) (row_key r) \<noteq> None \<or> row_key r \<in> sys_evicted y"
      if "r \<in> set (data_queue (sys_db y))" "row_key r \<notin> row_key ` set (data_queue db')" for r
      using that keys_map [of f "data_queue (sys_db y)", OF f] by (auto simp: db')
  qed simp
  then show ?thesis by simp
qed

lemma sys_inv_phase_Idle: "sys_inv del y \<Longrightarrow> sys_inv del (y\<lparr>sys_phase := Idle\<rparr>)"
  by (simp add: sys_inv_def)

lemma sys_inv_insert:
  assumes inv: "sys_inv del y" and ins: "Insert bind flt e (sys_db y) = (Inr e', db)"
  shows "sys_inv del (y\<lparr>sys_db := db, sys_inserted :=
      (sys_inserted y)((GatewayID e', SequenceID e') \<mapsto> wire_of_row (last (data_queue db)))\<rparr>)"
proof -
  note D = sys_invD [OF inv]
  let ?db = "sys_db y"
  from ins obtain g where g: "gateways ?db (GatewayID e) = Some g"
    by (auto simp: Insert_def split: option.splits)
  let ?k = "(GatewayID e, g_last_sequence g + 1)"
  let ?r = "new_row bind (dq_seq ?db + 1) (e\<lparr>SequenceID := g_last_sequence g + 1\<rparr>)"
  have db: "db = ?db\<lparr>gateways := (gateways ?db)(GatewayID e \<mapsto> g\<lparr>g_last_sequence := g_last_sequence g + 1\<rparr>),
      data_queue := data_queue ?db @ [?r], dq_seq := dq_seq ?db + 1\<rparr>"
    and k: "(GatewayID e', SequenceID e') = ?k"
    using ins g by (auto simp: Insert_def Let_def split: option.splits if_splits)
  have rk: "row_key ?r = ?k" by (simp add: row_key_def new_row_def)
  have fresh: "sys_inserted y ?k = None"
  proof (rule ccontr)
    assume "sys_inserted y ?k \<noteq> None"
    from D(6) [OF this] g show False by simp
  qed
  have q: "queue_inv db" using queue_inv_Insert [OF D(1), of bind flt e] ins by simp
  have old: "row_key r \<noteq> ?k" if "r \<in> set (data_queue ?db)" for r
    using D(2) [OF that] fresh by auto
  have fl: "entry_key x \<noteq> ?k" if "x \<in> set (flight (sys_phase y))" for x
    using D(7) [OF that] fresh by auto
  have dk: "del (sys_net y) ?k = None" using D(3) fresh by (metis not_None_eq)
  have idr: "q_id ?r \<noteq> ID x" if "x \<in> set (flight (sys_phase y))" for x
    using D(8) [OF that] by (simp add: new_row_def)
  have st: "q_status ?r \<noteq> SENT" by (simp add: new_row_def)
  have gws: "\<exists>g'. gateways db gid = Some g' \<and> n \<le> g_last_sequence g'"
    if "sys_inserted y (gid, n) \<noteq> None \<or> (gid, n) = ?k" for gid n
    using that D(6) [of gid n] g by (auto simp: db)
  have seq: "ID x \<le> dq_seq db" if "x \<in> set (flight (sys_phase y))" for x
    using D(8) [OF that] by (simp add: db)
  have rows: "data_queue db = data_queue ?db @ [?r]" by (simp add: db)
  show ?thesis
    unfolding sys_inv_def k using q rk st dk D(2,3,4,5,7,9,10,11) old fl idr gws seq
    by (auto simp: rows)
qed

lemma sys_inv_fetch:
  assumes inv: "sys_inv del y" and ord: "sql_order ob"
    and f: "FetchBatch ob flt now limit (sys_db y) = (Inr batch, db)"
  shows "sys_inv del (y\<lparr>sys_db := db, sys_phase := (if batch = [] then Idle else Fetched batch)\<rparr>)"
proof -
  note D = sys_invD [OF inv]
  define rows where "rows = sql_limit limit (ob dispatch_key (filter (eligible now) (data_queue (sys_db y))))"
  note b = FetchBatch_Inr [OF f, folded rows_def]
  have q: "queue_inv db" using queue_inv_FetchBatch [OF D(1), of ob flt now limit] f by simp
  from row_rewrite_FetchBatch [OF f] obtain h where h: "row_rewrite (sys_db y) db h"
    "\<And>r. q_status (h r) = SENT \<Longrightarrow> q_status r = SENT" by blast
  have inv': "sys_inv del (y\<lparr>sys_db := db\<rparr>)" by (rule sys_inv_rewrite [OF inv q h(1)]) (use h(2) in blast)
  note D' = sys_invD [OF inv']
  have "sys_inserted y (entry_key e) = Some (toWireEntry e) \<and> ID e \<le> dq_seq db \<and>
      millisecond dvd EventTimestamp e \<and> (\<forall>r \<in> set (data_queue db). q_id r = ID e \<longrightarrow> row_key r = entry_key e)"
    if "e \<in> set batch" for e
  proof -
    from that obtain r where r: "r \<in> set rows" "e = (to_dispatch r)\<lparr>Status := ''SENDING''\<rparr>" by (auto simp: b(1))
    have mem: "r \<in> set (data_queue (sys_db y))"
      using r(1) sql_order.limit_subset [OF ord, of limit dispatch_key "filter (eligible now) (data_queue (sys_db y))"]
      unfolding rows_def by auto
    have key: "entry_key e = row_key r" and wire: "toWireEntry e = wire_of_row r"
      and id: "ID e = q_id r" and ms: "millisecond dvd EventTimestamp e"
      by (simp_all add: r(2) entry_key_def to_dispatch_def row_key_def toWireEntry_def wire_of_row_def)
    have hr: "h r \<in> set (data_queue db)" "same_identity r (h r)" using h(1) mem by (auto simp: row_rewrite_def)
    have "row_key x = row_key r" if "x \<in> set (data_queue db)" "q_id x = q_id r" for x
      using distinct_map_same [OF queue_invD(1) [OF q] that(1) hr(1)] that(2) same_identityD(1,2) [OF hr(2)] by metis
    with D(2) [OF mem] queue_invD(3) [OF q hr(1)] same_identityD(1) [OF hr(2)] ms show ?thesis
      by (simp add: key wire id)
  qed
  then show ?thesis
    unfolding sys_inv_def using q D'(2,3,4,5,6) by auto
qed

lemma sys_inv_retention:
  assumes inv: "sys_inv del y" and r: "retention_sweep flt now keep (sys_db y) = (res, db)"
  shows "sys_inv del (y\<lparr>sys_db := db\<rparr>)"
proof -
  note D = sys_invD [OF inv]
  from retention_rows [OF r] obtain P where P: "db = (sys_db y)\<lparr>data_queue := filter P (data_queue (sys_db y))\<rparr>"
    "\<And>r. \<not> P r \<Longrightarrow> q_status r = SENT" by blast
  have q: "queue_inv db" using queue_inv_retention [OF D(1), of flt now keep] r by simp
  have "sys_inv del (y\<lparr>sys_db := db, sys_evicted := sys_evicted y\<rparr>)"
  proof (rule sys_inv_stems [OF inv q])
    show "stems (sys_db y) db" unfolding P(1) by (rule stems_filter)
    show "del (sys_net y) (row_key r) \<noteq> None" if "r \<in> set (data_queue db)" "q_status r = SENT" for r
      using that by (intro D(4)) (auto simp: P(1))
    show "del (sys_net y) (row_key r) \<noteq> None \<or> row_key r \<in> sys_evicted y"
      if "r \<in> set (data_queue (sys_db y))" "row_key r \<notin> row_key ` set (data_queue db)" for r
      using that D(4) [OF that(1)] P(2) [of r] by (auto simp: P(1))
  qed simp
  then show ?thesis by simp
qed

lemma sys_inv_storage:
  assumes inv: "sys_inv del y" and c: "storage_check ob flt usage full n (sys_db y) = (res, db)"
  shows "sys_inv del (y\<lparr>sys_db := db, sys_evicted := sys_evicted y \<union>
      (row_key ` set (data_queue (sys_db y)) - row_key ` set (data_queue db))\<rparr>)"
proof -
  note D = sys_invD [OF inv]
  from storage_rows [OF c] obtain P where P: "db = (sys_db y)\<lparr>data_queue := filter P (data_queue (sys_db y))\<rparr>" by blast
  have q: "queue_inv db" using queue_inv_storage_check [OF D(1), of ob flt usage full n] c by simp
  show ?thesis
  proof (rule sys_inv_stems [OF inv q])
    show "stems (sys_db y) db" unfolding P by (rule stems_filter)
    show "del (sys_net y) (row_key r) \<noteq> None" if "r \<in> set (data_queue db)" "q_status r = SENT" for r
      using that by (intro D(4)) (auto simp: P)
  qed auto
qed

lemma sys_inv_ensure:
  assumes inv: "sys_inv del y" and c: "EnsureGateway flt gid name (sys_db y) = (res, db)"
  shows "sys_inv del (y\<lparr>sys_db := db\<rparr>)"
proof -
  note D = sys_invD [OF inv]
  have rows: "data_queue db = data_queue (sys_db y)" "dq_seq db = dq_seq (sys_db y)"
    using c by (auto simp: EnsureGateway_def split: option.splits)
  have gws: "\<exists>g'. gateways db x = Some g' \<and> g_last_sequence g \<le> g_last_sequence g'"
    if "gateways (sys_db y) x = Some g" for x g
    using c that by (auto simp: EnsureGateway_def split: option.splits)
  have q: "queue_inv db" using queue_inv_EnsureGateway [OF D(1), of flt gid name] c by simp
  have st: "stems (sys_db y) db"
    unfolding stems_def rows using gws same_identity_refl order_refl by blast
  have "sys_inv del (y\<lparr>sys_db := db, sys_evicted := sys_evicted y\<rparr>)"
    by (rule sys_inv_stems [OF inv q st]) (use D(4) in \<open>auto simp: rows\<close>)
  then show ?thesis by simp
qed

lemma sys_inv_mark:
  assumes inv: "sys_inv del y" and ph: "sys_phase y = Answered batch res"
    and rw: "row_rewrite (sys_db y) db f" and q: "queue_inv db"
    and sent: "\<And>r. q_status (f r) = SENT \<Longrightarrow> q_status r = SENT \<or> res = None \<and> q_id r \<in> ID ` set batch"
  shows "sys_inv del (y\<lparr>sys_db := db, sys_phase := Idle\<rparr>)"
proof -
  have "sys_inv del (y\<lparr>sys_db := db\<rparr>)"
  proof (rule sys_inv_rewrite [OF inv q rw])
    fix r assume r: "r \<in> set (data_queue (sys_db y))" and "q_status (f r) = SENT"
    from sent [OF this(2)] show "q_status r = SENT \<or> del (sys_net y) (row_key r) \<noteq> None"
    proof (elim disjE conjE imageE)
      fix e assume e: "q_id r = ID e" "e \<in> set batch" "res = None"
      with sys_invD(10) [OF inv, of e r] sys_invD(11) [OF inv, of batch e] ph r show ?thesis by simp
    qed simp
  qed
  then show ?thesis by (drule_tac sys_inv_phase_Idle) simp
qed

section \<open>Every adapter delivers without loss\<close>

context adapter
begin

lemma sys_inv_send:
  assumes inv: "sys_inv delivered y" and ph: "sys_phase y = Fetched batch"
    and ok: "ok env (sys_net y)" and s: "send env (sys_net y) batch = (res, net)"
  shows "sys_inv delivered (y\<lparr>sys_net := net, sys_phase := Answered batch res\<rparr>)"
proof -
  note D = sys_invD [OF inv]
  have fl: "flight (sys_phase y) = batch" by (simp add: ph)
  have ms: "\<forall>e \<in> set batch. millisecond dvd EventTimestamp e" using D(9) by (simp add: fl)
  have keeps: "delivered net k \<noteq> None" if "delivered (sys_net y) k \<noteq> None" for k
    using that send_keeps [of "sys_net y" k _ env batch] s by (metis not_None_eq snd_conv)
  have adds: "sys_inserted y k = Some w" if "delivered net k = Some w" for k w
    using send_adds [OF ms, of env "sys_net y" k w] that s D(3) D(7) fl by (metis snd_conv)
  have pos: "delivered net (entry_key e) \<noteq> None" if "res = None" "e \<in> set batch" for e
    using send_ok [OF ok _ that(2)] s that(1) by metis
  have cover: "k \<in> row_key ` set (data_queue (sys_db y)) \<or> delivered net k \<noteq> None \<or> k \<in> sys_evicted y"
    if "sys_inserted y k \<noteq> None" for k
    using D(5) [OF that] keeps by blast
  have sent: "delivered net (row_key r) \<noteq> None" if "r \<in> set (data_queue (sys_db y))" "q_status r = SENT" for r
    using D(4) [OF that] by (rule keeps)
  show ?thesis
    unfolding sys_inv_def using D(1,2,6,7,8,9,10) adds cover sent pos by (simp add: fl)
qed

lemma sys_inv_step:
  assumes "sys_step send ok y y'" "sys_inv delivered y"
  shows "sys_inv delivered y'"
  using assms
proof (induction rule: sys_step.induct)
  case (sys_insert_err bind flt e y err db)
  then have "db = sys_db y" by (auto simp: Insert_def Let_def split: option.splits if_splits)
  with sys_insert_err show ?case by simp
next
  case (sys_mark_failed y batch err flt clock res db)
  from row_rewrite_MarkFailed [OF this(2)] obtain f where "row_rewrite (sys_db y) db f"
    "\<And>r. q_status (f r) = SENT \<Longrightarrow> q_status r = SENT" by blast
  moreover have "queue_inv db"
    using queue_inv_MarkFailed [OF sys_invD(1) [OF sys_mark_failed(3)], of flt clock "map ID batch" err] sys_mark_failed(2) by simp
  ultimately show ?case using sys_inv_mark [OF sys_mark_failed(3,1)] by blast
next
  case (sys_mark_sent y batch flt now res db)
  from row_rewrite_MarkSent [OF this(2)] obtain f where "row_rewrite (sys_db y) db f"
    "\<And>r. q_status (f r) = SENT \<Longrightarrow> q_status r = SENT \<or> q_id r \<in> ID ` set batch" by auto
  moreover have "queue_inv db"
    using queue_inv_MarkSent [OF sys_invD(1) [OF sys_mark_sent(3)], of flt now "map ID batch"] sys_mark_sent(2) by simp
  ultimately show ?case using sys_inv_mark [OF sys_mark_sent(3,1)] by blast
next
  case (sys_restart flt y res db)
  from row_rewrite_Recover [OF this(1)] obtain f where "row_rewrite (sys_db y) db f"
    "\<And>r. q_status (f r) = SENT \<Longrightarrow> q_status r = SENT" by blast
  moreover have "queue_inv db"
    using queue_inv_Recover [OF sys_invD(1) [OF sys_restart(2)], of flt] sys_restart(1) by simp
  ultimately have "sys_inv delivered (y\<lparr>sys_db := db\<rparr>)" using sys_inv_rewrite [OF sys_restart(2)] by blast
  then show ?case by (drule_tac sys_inv_phase_Idle) simp
qed (blast intro: sys_inv_ensure sys_inv_insert sys_inv_fetch sys_inv_send sys_inv_retention sys_inv_storage)+

lemma sys_inv_reachable:
  assumes "\<And>k. delivered net k = None" "sys_reachable send ok net y"
  shows "sys_inv delivered y"
  using assms(2)
proof (induction rule: sys_reachable.induct)
  case sys_init
  then show ?case by (simp add: sys_inv_def init_sys_def queue_inv_empty assms(1)) (simp add: empty_qdb_def)
qed (rule sys_inv_step)

lemma no_loss:
  assumes "\<And>k. delivered net k = None" "sys_reachable send ok net y" "sys_inserted y k = Some w"
  shows "(\<exists>r \<in> set (data_queue (sys_db y)). row_key r = k \<and> wire_of_row r = w \<and> q_status r \<noteq> SENT) \<or>
    delivered (sys_net y) k = Some w \<or> k \<in> sys_evicted y"
proof -
  note D = sys_invD [OF sys_inv_reachable [OF assms(1,2)]]
  have del: "delivered (sys_net y) k = Some w" if "delivered (sys_net y) k \<noteq> None"
    using that D(3) assms(3) by fastforce
  from D(5) [of k] assms(3) consider r where "r \<in> set (data_queue (sys_db y))" "row_key r = k"
    | "delivered (sys_net y) k \<noteq> None" | "k \<in> sys_evicted y" by auto
  then show ?thesis
  proof cases
    case 1
    then show ?thesis using D(2) [OF 1(1)] D(4) [OF 1(1)] assms(3) del by fastforce
  qed (use del in blast)+
qed

lemma no_invention:
  assumes "\<And>k. delivered net k = None" "sys_reachable send ok net y" "delivered (sys_net y) k = Some w"
  shows "sys_inserted y k = Some w"
  using sys_invD(3) [OF sys_inv_reachable [OF assms(1,2)]] assms(3) by blast

end

end
