(* ===== verification/Delivery.thy ===== *)
theory Delivery
  imports StoreForward
begin

text \<open>
  The promises of store and forward, stated for the two transports of the gateway: no reading is lost
  and none is stored twice, whatever the network, the disk and the power supply do; the dispatch loop
  of \<open>forwarder.go\<close> takes exactly the steps of the system; and with a working server the loop
  empties the queue. The last section is about the one kind of reading that cannot be sent.
\<close>

section \<open>Lifting a server invariant\<close>

lemma sys_net_invariant:
  assumes "sys_reachable send ok net y" "P net" "\<And>env s b. P s \<Longrightarrow> P (snd (send env s b))"
  shows "P (sys_net y)"
  using assms(1)
proof (induction rule: sys_reachable.induct)
  case (sys_next y y')
  from sys_next(2) show ?case
  proof cases
    case (sys_send batch env res net')
    with assms(3) [OF sys_next.IH, of env batch] show ?thesis by simp
  qed (use sys_next.IH in simp_all)
qed (simp add: init_sys_def assms(2))

lemma sim_good_new: "sim_good newStore"
  by (simp add: sim_good_def newStore_def)

lemma sim_good_send: "sim_good s \<Longrightarrow> sim_good (snd (http_send env s b))"
  using http_send_server [of env s b] sim.put_good by metis

definition new_world :: "mqtt_config \<Rightarrow> mqtt_world" where
  "new_world cfg = \<lparr>mw_adapter = NewMQTTAdapter cfg, mw_db = [], mw_acks = []\<rparr>"

lemma pg_good_send: "pg_good (mw_db s) \<Longrightarrow> pg_good (mw_db (snd (mqtt_send env s b)))"
proof -
  assume g: "pg_good (mw_db s)"
  have "pg_good (fold (\<lambda>env. pg_put env (toWireEntries b)) envs db)" if "pg_good db" for envs db
    using that by (induction envs arbitrary: db) (simp_all add: pg.put_good)
  with mqtt_send_db [of env s b] g show ?thesis by metis
qed

section \<open>No loss and no duplicates\<close>

lemma http_no_loss:
  assumes "sys_reachable http_send (\<lambda>_ _. True) newStore y"
  shows "(\<forall>k w. sys_inserted y k = Some w \<longrightarrow>
      (\<exists>r \<in> set (data_queue (sys_db y)). row_key r = k \<and> wire_of_row r = w \<and> q_status r \<noteq> SENT) \<or>
      w \<in> set (received (sys_net y)) \<or> k \<in> sys_evicted y) \<and>
    distinct (map wire_key (received (sys_net y))) \<and>
    (\<forall>w \<in> set (received (sys_net y)). sys_inserted y (wire_key w) = Some w)"
proof -
  have empty: "seen newStore k = None" for k by (simp add: newStore_def)
  have good: "sim_good (sys_net y)"
    by (rule sys_net_invariant [OF assms sim_good_new sim_good_send])
  then have iff: "seen (sys_net y) k = Some w \<longleftrightarrow> w \<in> set (received (sys_net y)) \<and> wire_key w = k" for k w
    unfolding sim_good_def by blast
  from http.no_loss [OF empty assms] http.no_invention [OF empty assms] good show ?thesis
    unfolding iff sim_good_def by blast
qed

text \<open>C4: gateway and development server over HTTP. In every reachable state, whatever requests and
  replies were lost, whatever statements failed and whenever the gateway was restarted, a reading that
  acquisition has put in the queue is still there unsent, or is at the server with the same content, or
  was evicted because the disk was full; and the server holds no key twice and nothing that was not
  inserted.\<close>

theorem http_store_and_forward:
  assumes "sys_reachable http_send (\<lambda>_ _. True) newStore y"
  shows "(\<forall>k w. sys_inserted y k = Some w \<longrightarrow>
      (\<exists>r \<in> set (data_queue (sys_db y)). row_key r = k \<and> wire_of_row r = w \<and> q_status r \<noteq> SENT) \<or>
      w \<in> set (received (sys_net y)) \<or> k \<in> sys_evicted y) \<and>
    distinct (map wire_key (received (sys_net y))) \<and>
    (\<forall>w \<in> set (received (sys_net y)). sys_inserted y (wire_key w) = Some w)"
  by (rule http_no_loss [OF assms])

definition sample_sys :: "'s \<Rightarrow> 's sys" where
  \<comment> \<open>a registered gateway after one reading\<close>
  "sample_sys net = \<lparr>sys_db = snd (Insert Some None sample_entry (snd (EnsureGateway None ''GW001'' ''Dev'' empty_qdb))),
     sys_phase = Idle, sys_net = net,
     sys_inserted = [(''GW001'', 1) \<mapsto> wire_of_row (new_row Some 1 (sample_entry\<lparr>SequenceID := 1\<rparr>))],
     sys_evicted = {}\<rparr>"

lemma sample_sys_reachable: "sys_reachable send ok net (sample_sys net)"
proof -
  let ?y = "(init_sys net)\<lparr>sys_db := snd (EnsureGateway None ''GW001'' ''Dev'' empty_qdb)\<rparr>"
  have "sys_step send ok (init_sys net) ?y"
    by (rule sys_ensure [of None "''GW001''" "''Dev''"]) (simp add: init_sys_def EnsureGateway_def)
  then have r: "sys_reachable send ok net ?y" by (rule sys_next [OF sys_init])
  obtain e' db where i: "Insert Some None sample_entry (sys_db ?y) = (Inr e', db)"
    and e': "(GatewayID e', SequenceID e') = (''GW001'', 1)"
    and l: "last (data_queue db) = new_row Some 1 (sample_entry\<lparr>SequenceID := 1\<rparr>)"
    by (auto simp: Insert_def EnsureGateway_def empty_qdb_def sample_entry_def)
  have "sys_step send ok ?y (?y\<lparr>sys_db := db, sys_inserted :=
      (sys_inserted ?y)((GatewayID e', SequenceID e') \<mapsto> wire_of_row (last (data_queue db)))\<rparr>)"
    by (rule sys_insert_ok [OF i])
  moreover have "?y\<lparr>sys_db := db, sys_inserted :=
      (sys_inserted ?y)((GatewayID e', SequenceID e') \<mapsto> wire_of_row (last (data_queue db)))\<rparr> = sample_sys net"
    using i by (simp add: e' l sample_sys_def init_sys_def)
  ultimately have "sys_step send ok ?y (sample_sys net)" by simp
  with r show ?thesis by (rule sys_next)
qed

lemma sample_sys_inserted:
  "sys_inserted (sample_sys net) (''GW001'', 1) = Some (wire_of_row (new_row Some 1 (sample_entry\<lparr>SequenceID := 1\<rparr>)))"
  "sys_evicted (sample_sys net) = {}" "sys_net (sample_sys net) = net"
  by (simp_all add: sample_sys_def)

theorem http_store_and_forward_witness:
  "\<exists>r \<in> set (data_queue (sys_db (sample_sys newStore))). row_key r = (''GW001'', 1) \<and> q_status r \<noteq> SENT"
  using http_store_and_forward [OF sample_sys_reachable, THEN conjunct1, rule_format, OF sample_sys_inserted(1)]
  by (auto simp: sample_sys_inserted newStore_def)

lemma mqtt_no_loss:
  assumes "sys_reachable mqtt_send mqtt_ok (new_world cfg) y"
  shows "(\<forall>k w. sys_inserted y k = Some w \<longrightarrow>
      (\<exists>r \<in> set (data_queue (sys_db y)). row_key r = k \<and> wire_of_row r = w \<and> q_status r \<noteq> SENT) \<or>
      (\<exists>r \<in> set (mw_db (sys_net y)). reading_key r = k \<and> wire_of_reading r = w) \<or> k \<in> sys_evicted y) \<and>
    distinct (map reading_key (mw_db (sys_net y))) \<and>
    (\<forall>r \<in> set (mw_db (sys_net y)). sys_inserted y (reading_key r) = Some (wire_of_reading r))"
proof -
  have empty: "mqtt_delivered (new_world cfg) k = None" for k
    by (simp add: mqtt_delivered_def new_world_def pg_contents_def)
  have good: "pg_good (mw_db (sys_net y))"
    by (rule sys_net_invariant [where P = "\<lambda>w. pg_good (mw_db w)", OF assms _ pg_good_send])
      (simp add: new_world_def pg_good_def)
  have del: "mqtt_delivered (sys_net y) k = Some w \<longleftrightarrow>
      (\<exists>r \<in> set (mw_db (sys_net y)). reading_key r = k \<and> wire_of_reading r = w)" for k w
  proof
    assume "mqtt_delivered (sys_net y) k = Some w"
    then show "\<exists>r \<in> set (mw_db (sys_net y)). reading_key r = k \<and> wire_of_reading r = w"
      by (auto simp: mqtt_delivered_def pg_contents_def find_Some_iff dest: nth_mem)
  next
    assume "\<exists>r \<in> set (mw_db (sys_net y)). reading_key r = k \<and> wire_of_reading r = w"
    then obtain r where r: "r \<in> set (mw_db (sys_net y))" "reading_key r = k" "wire_of_reading r = w" by blast
    then obtain s where s: "find (\<lambda>r. reading_key r = k) (mw_db (sys_net y)) = Some s"
      by (cases "find (\<lambda>r. reading_key r = k) (mw_db (sys_net y))") (auto simp: find_None_iff)
    then have "s \<in> set (mw_db (sys_net y))" "reading_key s = k" by (auto simp: find_Some_iff)
    with r good have "s = r" unfolding pg_good_def by (metis distinct_map_same)
    with s r show "mqtt_delivered (sys_net y) k = Some w" by (simp add: mqtt_delivered_def pg_contents_def)
  qed
  from mqtt.no_loss [OF empty assms] mqtt.no_invention [OF empty assms] good show ?thesis
    unfolding del pg_good_def by blast
qed

text \<open>C5: gateway and internal server over MQTT at QoS 1. In every reachable state, whatever the broker
  drops, repeats or delays, as long as batch ids do not repeat: a reading that acquisition has put in
  the queue is still there unsent, or is in the readings table with the same content, or was evicted;
  and the table holds no key twice and nothing that was not inserted.\<close>

theorem mqtt_store_and_forward:
  assumes "sys_reachable mqtt_send mqtt_ok (new_world cfg) y"
  shows "(\<forall>k w. sys_inserted y k = Some w \<longrightarrow>
      (\<exists>r \<in> set (data_queue (sys_db y)). row_key r = k \<and> wire_of_row r = w \<and> q_status r \<noteq> SENT) \<or>
      (\<exists>r \<in> set (mw_db (sys_net y)). reading_key r = k \<and> wire_of_reading r = w) \<or> k \<in> sys_evicted y) \<and>
    distinct (map reading_key (mw_db (sys_net y))) \<and>
    (\<forall>r \<in> set (mw_db (sys_net y)). sys_inserted y (reading_key r) = Some (wire_of_reading r))"
  by (rule mqtt_no_loss [OF assms])

definition sample_mqtt :: mqtt_config where
  "sample_mqtt = \<lparr>BrokerURL = ''tcp://broker:1883'', QoS = 1, DataTopic = ''gateway/GW001/data'',
     AckTopic = ''gateway/GW001/ack'', ConnectTimeout = 5 * second, PublishTimeout = 5 * second,
     AckTimeout = 10 * second, WatchdogInterval = 0, ReconnectStuckAfter = 0\<rparr>"

theorem mqtt_store_and_forward_witness:
  "\<exists>r \<in> set (data_queue (sys_db (sample_sys (new_world sample_mqtt)))). row_key r = (''GW001'', 1) \<and> q_status r \<noteq> SENT"
  using mqtt_store_and_forward [OF sample_sys_reachable, THEN conjunct1, rule_format, OF sample_sys_inserted(1)]
  by (auto simp: sample_sys_inserted new_world_def)

section \<open>The dispatch loop takes the system's steps\<close>

definition mark_answer :: "'e tick \<Rightarrow> dispatch_entry list \<Rightarrow> string option \<Rightarrow> qdb \<Rightarrow> qdb" where
  \<comment> \<open>what \<open>dispatchOnce\<close> does to the queue after the answer\<close>
  "mark_answer t batch ans db = (case ans of
       Some err \<Rightarrow> snd (MarkFailed (t_mark_fault t) (t_mark t) (map ID batch) err db)
     | None \<Rightarrow> snd (MarkSent (t_mark_fault t) (t_mark t 0) (map ID batch) db))"

lemma mark_answer_step:
  assumes "sys_phase y = Answered batch ans"
  shows "sys_step send ok y (y\<lparr>sys_db := mark_answer t batch ans (sys_db y), sys_phase := Idle\<rparr>)"
proof (cases ans)
  case None
  then show ?thesis unfolding mark_answer_def None option.case
    using assms None by (intro sys_mark_sent) (auto intro: prod.collapse [symmetric])
next
  case (Some err)
  then show ?thesis unfolding mark_answer_def Some option.case
    using assms Some by (intro sys_mark_failed) (auto intro: prod.collapse [symmetric])
qed

text \<open>C7: one call of \<open>dispatchOnce\<close> from an idle forwarder is a run of the system, from the same
  queue and server to the same queue and server, that ends idle again, whatever the background
  goroutines do between its fetch and its final update as long as they take steps of the system
  themselves; so everything shown of reachable states holds between any two ticks.\<close>

theorem dispatchOnce_refines:
  assumes ord: "sql_order (t_order t)" and ok: "ok (t_net t) (f_net f)"
    and idle: "sys_phase y = Idle" and same: "sys_db y = f_db f" "sys_net y = f_net f"
    and bg: "\<And>z. \<exists>z'. (sys_step send ok)\<^sup>*\<^sup>* z z' \<and> sys_db z' = t_during t (sys_db z) \<and>
      sys_phase z' = sys_phase z \<and> sys_net z' = sys_net z"
  shows "\<exists>y'. (sys_step send ok)\<^sup>*\<^sup>* y y' \<and> sys_phase y' = Idle \<and>
    sys_db y' = f_db (dispatchOnce send cfg t f) \<and> sys_net y' = f_net (dispatchOnce send cfg t f)"
proof -
  obtain res db where f: "FetchBatch (t_order t) (t_fetch_fault t) (t_fetch t) (BatchSize cfg) (f_db f) = (res, db)"
    by fastforce
  show ?thesis
  proof (cases res)
    case (Inl err)
    then have "db = f_db f" using f by (auto simp: FetchBatch_def Let_def split: option.splits if_splits)
    moreover obtain y' where "(sys_step send ok)\<^sup>*\<^sup>* y y'" "sys_db y' = t_during t (sys_db y)"
      "sys_phase y' = sys_phase y" "sys_net y' = sys_net y" using bg by blast
    ultimately show ?thesis using f Inl same idle by (intro exI [of _ y']) (simp add: dispatchOnce_def)
  next
    case (Inr batch)
    let ?y1 = "y\<lparr>sys_db := db, sys_phase := (if batch = [] then Idle else Fetched batch)\<rparr>"
    have s1: "sys_step send ok y ?y1"
      by (rule sys_fetch [OF idle ord]) (use f Inr same in simp)
    show ?thesis
    proof (cases "batch = []")
      case True
      obtain y' where "(sys_step send ok)\<^sup>*\<^sup>* ?y1 y'" "sys_db y' = t_during t (sys_db ?y1)"
        "sys_phase y' = sys_phase ?y1" "sys_net y' = sys_net ?y1" using bg by blast
      with s1 True f Inr same show ?thesis
        by (intro exI [of _ y']) (auto simp: dispatchOnce_def intro: converse_rtranclp_into_rtranclp)
    next
      case False
      obtain ans net where snd: "send (t_net t) (f_net f) batch = (ans, net)" by fastforce
      let ?y2 = "?y1\<lparr>sys_net := net, sys_phase := Answered batch ans\<rparr>"
      have s2: "sys_step send ok ?y1 ?y2"
        by (rule sys_send) (use False ok same snd in simp_all)
      obtain y3 where s3: "(sys_step send ok)\<^sup>*\<^sup>* ?y2 y3" "sys_db y3 = t_during t db"
        "sys_phase y3 = Answered batch ans" "sys_net y3 = net" using bg [of ?y2] by auto
      let ?y4 = "y3\<lparr>sys_db := mark_answer t batch ans (sys_db y3), sys_phase := Idle\<rparr>"
      have s4: "sys_step send ok y3 ?y4" by (rule mark_answer_step) fact
      have "(sys_step send ok)\<^sup>*\<^sup>* y ?y4"
        using s1 s2 s3(1) s4 by (meson converse_rtranclp_into_rtranclp rtranclp.rtrancl_into_rtrancl)
      moreover have "f_db (dispatchOnce send cfg t f) = mark_answer t batch ans (t_during t db)" "f_net (dispatchOnce send cfg t f) = net"
        using f Inr False snd by (auto simp: dispatchOnce_def mark_answer_def Let_def split: option.splits)
      ultimately show ?thesis using s3 by (intro exI [of _ ?y4]) simp
    qed
  qed
qed

definition good_tick :: "gotime \<Rightarrow> http_net tick" where
  \<comment> \<open>a tick without failures, with the rows sorted stably\<close>
  "good_tick now = \<lparr>t_order = sort_key, t_fetch_fault = None, t_mark_fault = None, t_fetch = now,
     t_answer = now, t_mark = (\<lambda>_. now), t_net = Exchange, t_during = id\<rparr>"

definition sample_cfg :: fwd_config where
  "sample_cfg = \<lparr>BatchSize = 10, PollInterval = second\<rparr>"

definition sample_fwd :: "sim_store fwd_state" where
  "sample_fwd = \<lparr>f_db = sys_db (sample_sys newStore), f_status = init_status, f_net = newStore\<rparr>"

theorem dispatchOnce_refines_witness:
  "\<exists>y'. (sys_step http_send (\<lambda>_ _. True))\<^sup>*\<^sup>* (sample_sys newStore) y' \<and> sys_phase y' = Idle \<and>
    sys_db y' = f_db (dispatchOnce http_send sample_cfg (good_tick 0) sample_fwd) \<and>
    sys_net y' = f_net (dispatchOnce http_send sample_cfg (good_tick 0) sample_fwd)"
  by (rule dispatchOnce_refines [where t = "good_tick 0" and ok = "\<lambda>_ _. True"])
    (auto simp: good_tick_def sample_fwd_def sample_sys_def stable.sql_order_axioms)

section \<open>A working server empties the queue\<close>

definition sendable :: "row \<Rightarrow> bool" where
  "sendable r \<longleftrightarrow> (case q_value r of None \<Rightarrow> True | Some v \<Rightarrow> is_finite v)"

definition unsent :: "qdb \<Rightarrow> row list" where
  "unsent db = filter (\<lambda>r. q_status r = PENDING) (data_queue db)"

lemma json_number_ok: "json_number_error v = None \<longleftrightarrow> is_finite v"
  by (cases v) auto

lemma marshal_ok: "(\<forall>w \<in> set ws. \<forall>v. w_Value w = Some v \<longrightarrow> is_finite v) \<longleftrightarrow> marshal_error ws = None"
proof (induction ws)
  case (Cons w ws)
  have "Option.bind (w_Value w) json_number_error = None \<longleftrightarrow> (\<forall>v. w_Value w = Some v \<longrightarrow> is_finite v)"
    by (cases "w_Value w") (simp_all add: json_number_ok)
  with Cons show ?case by (auto split: option.splits)
qed simp

lemma http_exchange_ok:
  assumes "\<forall>e \<in> set b. \<forall>v. Value e = Some v \<longrightarrow> is_finite v"
  shows "http_send Exchange s b = (None, sim_put () (toWireEntries b) s)"
proof -
  have "marshal_error (toWireEntries b) = None"
    using assms by (subst marshal_ok [symmetric]) (auto simp: set_toWireEntries toWireEntry_def)
  then show ?thesis
    by (simp add: http_send_def HTTPAdapter_Send_def http_do_def sim_http_ingest_post)
qed

text \<open>The effect of one successful tick on the rows: the fetched ones are SENT, the others are as
  they were.\<close>

lemma update_twice:
  assumes "\<And>r. q_id (f r) = q_id r"
  shows "update_ids ids g (update_ids ids f rs) = update_ids ids (\<lambda>r. g (f r)) rs"
  using assms by (simp add: update_ids_def)

lemma good_tick_rows:
  fixes f :: "sim_store fwd_state" and now :: gotime and cfg :: fwd_config
  defines "rows \<equiv> sql_limit (BatchSize cfg) (sort_key dispatch_key (filter (eligible now) (data_queue (f_db f))))"
  assumes "\<forall>r \<in> set (data_queue (f_db f)). sendable r"
  shows "f_db (dispatchOnce http_send cfg (good_tick now) f) = (f_db f)\<lparr>data_queue :=
     update_ids (map q_id rows) (\<lambda>r. r\<lparr>q_status := SENT, q_sent_at := Some (millis now)\<rparr>) (data_queue (f_db f))\<rparr>"
proof -
  obtain batch db where f: "FetchBatch sort_key None now (BatchSize cfg) (f_db f) = (Inr batch, db)"
    by (rule FetchBatch_no_fault)
  note b = FetchBatch_Inr [OF f, folded rows_def]
  have sub: "set rows \<subseteq> set (data_queue (f_db f))"
    using stable.limit_subset [of "BatchSize cfg" dispatch_key "filter (eligible now) (data_queue (f_db f))"]
    unfolding rows_def by auto
  have "is_finite v" if "e \<in> set batch" "Value e = Some v" for e v
  proof -
    from that obtain r where r: "r \<in> set rows" "q_value r = Some v" by (auto simp: b(1) to_dispatch_def)
    then have "sendable r" using assms(2) sub by blast
    with r(2) show ?thesis by (simp add: sendable_def)
  qed
  then have send: "http_send Exchange (f_net f) batch = (None, sim_put () (toWireEntries batch) (f_net f))"
    by (intro http_exchange_ok) blast
  have ids: "map ID batch = map q_id rows" by (simp add: b(1) to_dispatch_def)
  show ?thesis
  proof (cases "batch = []")
    case True
    then have "rows = []" using b(1) by simp
    with True f b(2) show ?thesis by (simp add: dispatchOnce_def good_tick_def update_ids_def)
  next
    case False
    with b(1) have "rows \<noteq> []" by auto
    with False f send show ?thesis
      by (simp add: dispatchOnce_def good_tick_def ids MarkSent_def b(2) update_twice)
  qed
qed

lemma good_tick_progress:
  fixes f :: "sim_store fwd_state" and now :: gotime and cfg :: fwd_config
  assumes "queue_inv (f_db f)" "0 < BatchSize cfg"
    and "\<forall>r \<in> set (data_queue (f_db f)). sendable r \<and> q_status r \<noteq> SENDING \<and> q_next_attempt_at r \<le> millis now"
  defines "f' \<equiv> dispatchOnce http_send cfg (good_tick now) f"
  shows "length (unsent (f_db f')) = length (unsent (f_db f)) - nat (BatchSize cfg)"
    and "queue_inv (f_db f')"
    and "\<forall>r \<in> set (data_queue (f_db f')). sendable r \<and> q_status r \<noteq> SENDING"
    and "map (\<lambda>r. (q_id r, q_next_attempt_at r)) (data_queue (f_db f')) = map (\<lambda>r. (q_id r, q_next_attempt_at r)) (data_queue (f_db f))"
proof -
  let ?rs = "data_queue (f_db f)"
  define rows where "rows = sql_limit (BatchSize cfg) (sort_key dispatch_key (filter (eligible now) ?rs))"
  define g where "g r = (if q_id r \<in> q_id ` set rows then r\<lparr>q_status := SENT, q_sent_at := Some (millis now)\<rparr> else r)" for r :: row
  have f': "f_db f' = (f_db f)\<lparr>data_queue := map g ?rs\<rparr>"
    using good_tick_rows [of f cfg now] assms(3) unfolding f'_def rows_def [symmetric] update_ids_def g_def by simp
  have elig: "filter (eligible now) ?rs = unsent (f_db f)"
    using assms(3) by (auto simp: unsent_def eligible_def intro: filter_cong)
  have dist: "distinct (map q_id ?rs)" by (rule queue_invD(1) [OF assms(1)])
  have sub: "set rows \<subseteq> set (unsent (f_db f))"
    unfolding rows_def elig by (rule stable.limit_subset)
  have mem: "q_id r \<in> q_id ` set rows \<longleftrightarrow> r \<in> set rows" if "r \<in> set ?rs" for r
    using sub that by (intro filter_ids_mem [OF dist]) (auto simp: unsent_def)
  have len: "length rows = min (nat (BatchSize cfg)) (length (unsent (f_db f)))"
    unfolding rows_def elig using assms(2) by (intro stable.limit_length) simp
  have du: "distinct (unsent (f_db f))" using dist by (auto simp: unsent_def distinct_map)
  have dr: "distinct rows"
    unfolding rows_def elig using stable.limit_distinct [of "\<lambda>r. r" "unsent (f_db f)"] du by simp
  have "length (unsent (f_db f')) = length (filter (\<lambda>r. q_status (g r) = PENDING) ?rs)"
    by (simp add: f' unsent_def filter_map o_def)
  also have "filter (\<lambda>r. q_status (g r) = PENDING) ?rs = filter (\<lambda>r. r \<notin> set rows) (unsent (f_db f))"
    unfolding unsent_def filter_filter using mem by (intro filter_cong) (auto simp: g_def)
  also have "length \<dots> = length (unsent (f_db f)) - length rows"
    using du dr sub by (metis card_Diff_subset distinct_card distinct_filter finite_set set_diff_eq set_filter)
  finally show "length (unsent (f_db f')) = length (unsent (f_db f)) - nat (BatchSize cfg)" using len by (simp add: min_def)
  show "queue_inv (f_db f')"
    unfolding f' by (rule queue_inv_map [OF assms(1)]) (simp add: g_def)
  show "\<forall>r \<in> set (data_queue (f_db f')). sendable r \<and> q_status r \<noteq> SENDING"
    using assms(3) by (auto simp: f' g_def sendable_def)
  show "map (\<lambda>r. (q_id r, q_next_attempt_at r)) (data_queue (f_db f')) = map (\<lambda>r. (q_id r, q_next_attempt_at r)) (data_queue (f_db f))"
    by (simp add: f' g_def)
qed

lemma good_ticks_drain:
  fixes f :: "sim_store fwd_state"
  assumes "queue_inv (f_db f)" "0 < BatchSize cfg"
    and "\<forall>r \<in> set (data_queue (f_db f)). sendable r \<and> q_status r \<noteq> SENDING"
    and "\<forall>now \<in> set nows. \<forall>r \<in> set (data_queue (f_db f)). q_next_attempt_at r \<le> millis now"
    and "length (unsent (f_db f)) \<le> length nows * nat (BatchSize cfg)"
  defines "f' \<equiv> fold (dispatchOnce http_send cfg) (map good_tick nows) f"
  shows "(\<forall>r \<in> set (data_queue (f_db f')). q_status r \<noteq> PENDING \<and> q_status r \<noteq> SENDING) \<and>
    map q_id (data_queue (f_db f')) = map q_id (data_queue (f_db f))"
  using assms(1,3,4,5) unfolding f'_def
proof (induction nows arbitrary: f)
  case Nil
  then show ?case by (auto simp: unsent_def filter_empty_conv)
next
  case (Cons now nows)
  let ?f1 = "dispatchOnce http_send cfg (good_tick now) f"
  have pre: "\<forall>r \<in> set (data_queue (f_db f)). sendable r \<and> q_status r \<noteq> SENDING \<and> q_next_attempt_at r \<le> millis now"
    using Cons.prems(2,3) by simp
  note step = good_tick_progress [OF Cons.prems(1) assms(2) pre]
  have ids: "map q_id (data_queue (f_db ?f1)) = map q_id (data_queue (f_db f))"
    using arg_cong [OF step(4), of "map fst"] by (simp add: o_def)
  have "q_next_attempt_at ` set (data_queue (f_db ?f1)) = q_next_attempt_at ` set (data_queue (f_db f))"
    using arg_cong [OF step(4), of "\<lambda>xs. snd ` set xs"] by (simp add: image_image)
  then have "\<forall>t \<in> set nows. \<forall>r \<in> set (data_queue (f_db ?f1)). q_next_attempt_at r \<le> millis t"
    using Cons.prems(3) by (metis (no_types, lifting) imageE imageI list.set_intros(2))
  from Cons.IH [OF step(2,3) this] Cons.prems(4) step(1) ids show ?case by simp
qed



section \<open>A reading that cannot be sent\<close>

text \<open>C16: a batch with an infinite or undefined value is never sent over either transport: the call
  fails before any byte leaves the gateway, so the server is unchanged and every reading of the batch
  waits with it.\<close>

theorem nonfinite_value_blocks_batch:
  assumes "e \<in> set b" "Value e = Some v" "\<not> is_finite v"
  shows "(\<exists>m. http_send net s b = (Some (''marshal batch: '' @ m), s)) \<and>
    (\<exists>m. fst (mqtt_send net' w b) = Some m) \<and> mw_db (snd (mqtt_send net' w b)) = mw_db w"
proof -
  have "\<not> (\<forall>x \<in> set (toWireEntries b). \<forall>v. w_Value x = Some v \<longrightarrow> is_finite v)"
    using assms by (force simp: set_toWireEntries toWireEntry_def)
  then have "marshal_error (toWireEntries b) \<noteq> None" by (subst (asm) marshal_ok) simp
  then obtain m where m: "marshal_error (toWireEntries b) = Some m" by blast
  show ?thesis
    by (auto simp: m http_send_def HTTPAdapter_Send_def mqtt_send_def MQTTAdapter_Send_def Let_def)
qed

definition sample_inf :: dispatch_entry where
  "sample_inf = (to_dispatch (new_row Some 1 sample_entry))\<lparr>Value := Some (Inf False)\<rparr>"

theorem nonfinite_value_blocks_batch_witness:
  "\<exists>m. http_send Exchange newStore [sample_inf] = (Some (''marshal batch: '' @ m), newStore)"
  using nonfinite_value_blocks_batch [of sample_inf "[sample_inf]" "Inf False" Exchange newStore]
  by (simp add: sample_inf_def)

end
