(* ===== verification/ConfigStore.thy ===== *)
theory ConfigStore
  imports Modbus
begin

text \<open>
  The configuration model: connections (\<open>src/gateway/internal/connection\<close>), devices
  (\<open>src/gateway/internal/device\<close>) and data points (\<open>src/gateway/internal/datapoint\<close>), each with
  its validation and its repository.

  The three tables live in one database. The migrations give \<open>connection\<close> and \<open>datapoint\<close> an
  AUTOINCREMENT key; \<open>device\<close> was rebuilt without it, so a new device takes the largest key in use
  plus one. The foreign keys are enforced: a device needs its connection, a data point its device, and
  deleting a device deletes its data points. The columns \<open>created_at\<close> and \<open>updated_at\<close>, which no
  query reads, are left out. \<open>bind\<close> is how the driver stores a \<open>float64\<close> in a NOT NULL column.
\<close>

section \<open>Records\<close>

record connection =
  c_ID :: int
  c_Name :: string
  c_Protocol :: string
  c_Interface :: string
  c_IPAddress :: string
  c_Port :: int
  c_TimeoutMs :: int
  c_Retry :: int
  c_Enabled :: bool
  c_NextDeviceDelayMs :: int
  c_BaudRate :: int
  c_DataBits :: int
  c_Parity :: string
  c_StopBits :: int

record device =
  d_ID :: int
  d_Name :: string
  d_ConnectionID :: int
  d_SlaveID :: int
  d_Enabled :: bool

record datapoint =
  dp_ID :: int
  dp_DeviceID :: int
  dp_TagName :: string
  dp_FunctionCode :: "8 word"
  dp_RegisterAddress :: u16
  dp_DataType :: string
  dp_ByteOrder :: string
  dp_WordOrder :: string
  dp_Scale :: f64
  dp_Offset :: f64
  dp_Unit :: string
  dp_Priority :: string
  dp_Enabled :: bool

section \<open>Validation\<close>

datatype validation_error = Msg string | DataTypeErr modbus_error

definition Validate_connection :: "connection \<Rightarrow> string option" where
  "Validate_connection c =
     (if c_Name c = [] then Some ''name is required''
      else case
        (if c_Protocol c = ''TCP'' then
           (if c_IPAddress c = [] then Some ''ip_address is required for TCP connections''
            else if c_Port c \<le> 0 \<or> 65535 < c_Port c then Some ''port must be between 1 and 65535''
            else None)
         else if c_Protocol c = ''RTU'' then
           (if c_Interface c = [] then Some ''interface is required for RTU connections''
            else if c_BaudRate c \<le> 0 then Some ''baud_rate must be positive''
            else if c_Parity c \<noteq> ''N'' \<and> c_Parity c \<noteq> ''E'' \<and> c_Parity c \<noteq> ''O'' then Some ''parity must be one of N, E, O''
            else None)
         else Some ''protocol must be RTU or TCP'') of
          Some m \<Rightarrow> Some m
        | None \<Rightarrow>
            (if c_TimeoutMs c \<le> 0 then Some ''timeout_ms must be positive''
             else if c_Retry c < 0 then Some ''retry must not be negative''
             else if c_NextDeviceDelayMs c < 0 then Some ''next_device_delay_ms must not be negative''
             else None))"

definition Validate_device :: "device \<Rightarrow> string option" where
  "Validate_device d =
     (if d_Name d = [] then Some ''name is required''
      else if d_ConnectionID d \<le> 0 then Some ''connection_id is required''
      else if d_SlaveID d < 1 \<or> 247 < d_SlaveID d then Some ''slave_id must be between 1 and 247''
      else None)"

definition Validate_datapoint :: "datapoint \<Rightarrow> validation_error option" where
  "Validate_datapoint dp =
     (if dp_TagName dp = [] then Some (Msg ''tag_name is required'')
      else if dp_FunctionCode dp \<notin> {1, 2, 3, 4} then Some (Msg ''function_code must be one of 1, 2, 3, 4'')
      else case ByteWidth (dp_DataType dp) of
          Inl e \<Rightarrow> Some (DataTypeErr e)
        | Inr _ \<Rightarrow>
            (if dp_Priority dp \<notin> {''CRITICAL'', ''HIGH'', ''NORMAL'', ''LOW'', []}
             then Some (Msg ''priority must be one of CRITICAL, HIGH, NORMAL, LOW'')
             else if is_zero (dp_Scale dp) then Some (Msg ''scale must not be zero'')
             else None))"

section \<open>Tables\<close>

record conn_row =
  cr_id :: int
  cr_name :: string
  cr_protocol :: string
  cr_interface :: "string option"
  cr_ip_address :: "string option"
  cr_port :: "int option"
  cr_timeout_ms :: int
  cr_retry :: int
  cr_enabled :: int
  cr_next_device_delay_ms :: int
  cr_baud_rate :: int
  cr_data_bits :: int
  cr_parity :: string
  cr_stop_bits :: int

record dev_row =
  dr_id :: int
  dr_name :: string
  dr_connection_id :: int
  dr_slave_id :: "int option"
  dr_enabled :: int

record dp_row =
  pr_id :: int
  pr_device_id :: int
  pr_tag_name :: string
  pr_function_code :: "8 word"
  pr_register_address :: u16
  pr_data_type :: string
  pr_byte_order :: string
  pr_word_order :: string
  pr_scale :: f64
  pr_offset :: f64
  pr_unit :: "string option"
  pr_priority :: string
  pr_enabled :: int

record cfgdb =
  connections :: "conn_row list"
  conn_seq :: int
  devices :: "dev_row list"
  datapoints :: "dp_row list"
  dp_seq :: int

datatype cfg_error = NotFound | InUse | CfgDb string

definition fk_failed :: string where "fk_failed = ''FOREIGN KEY constraint failed''"
definition check_failed :: string where "check_failed = ''CHECK constraint failed''"
definition not_null_failed :: string where "not_null_failed = ''NOT NULL constraint failed''"

definition nullable :: "string \<Rightarrow> string option" where
  "nullable s = (if s = [] then None else Some s)"

definition null_string :: "string option \<Rightarrow> string" where
  \<comment> \<open>\<open>sql.NullString\<close>\<close>
  "null_string x = (case x of None \<Rightarrow> [] | Some s \<Rightarrow> s)"

definition null_int :: "int option \<Rightarrow> int" where
  "null_int x = (case x of None \<Rightarrow> 0 | Some i \<Rightarrow> i)"

definition boolToInt :: "bool \<Rightarrow> int" where
  "boolToInt b = (if b then 1 else 0)"

text \<open>One row of a table by its key, and the outcome of an UPDATE or DELETE of one key.\<close>

definition row_by :: "('r \<Rightarrow> int) \<Rightarrow> int \<Rightarrow> 'r list \<Rightarrow> 'r option" where
  "row_by key i rs = find (\<lambda>r. key r = i) rs"

definition update_row :: "('r \<Rightarrow> int) \<Rightarrow> int \<Rightarrow> ('r \<Rightarrow> 'r) \<Rightarrow> 'r list \<Rightarrow> 'r list" where
  "update_row key i f rs = map (\<lambda>r. if key r = i then f r else r) rs"

definition delete_row :: "('r \<Rightarrow> int) \<Rightarrow> int \<Rightarrow> 'r list \<Rightarrow> 'r list" where
  "delete_row key i rs = filter (\<lambda>r. key r \<noteq> i) rs"

definition checkRowsAffected :: "fault \<Rightarrow> nat \<Rightarrow> cfg_error option" where
  "checkRowsAffected flt n =
     (case fault_at AtLastId flt of Some m \<Rightarrow> Some (CfgDb m) | None \<Rightarrow> if n = 0 then Some NotFound else None)"

definition last_insert_id :: "fault \<Rightarrow> int \<Rightarrow> cfg_error + int" where
  "last_insert_id flt i = (case fault_at AtLastId flt of Some m \<Rightarrow> Inl (CfgDb m) | None \<Rightarrow> Inr i)"

section \<open>Connections\<close>

definition scanConnection :: "conn_row \<Rightarrow> connection" where
  "scanConnection r = \<lparr>c_ID = cr_id r, c_Name = cr_name r, c_Protocol = cr_protocol r,
     c_Interface = null_string (cr_interface r), c_IPAddress = null_string (cr_ip_address r),
     c_Port = null_int (cr_port r), c_TimeoutMs = cr_timeout_ms r, c_Retry = cr_retry r,
     c_Enabled = (cr_enabled r \<noteq> 0), c_NextDeviceDelayMs = cr_next_device_delay_ms r,
     c_BaudRate = cr_baud_rate r, c_DataBits = cr_data_bits r, c_Parity = cr_parity r,
     c_StopBits = cr_stop_bits r\<rparr>"

definition conn_row_of :: "int \<Rightarrow> connection \<Rightarrow> conn_row" where
  \<comment> \<open>the values both INSERT and UPDATE write\<close>
  "conn_row_of i c = \<lparr>cr_id = i, cr_name = c_Name c, cr_protocol = c_Protocol c,
     cr_interface = nullable (c_Interface c), cr_ip_address = nullable (c_IPAddress c),
     cr_port = Some (c_Port c), cr_timeout_ms = c_TimeoutMs c, cr_retry = c_Retry c,
     cr_enabled = boolToInt (c_Enabled c), cr_next_device_delay_ms = c_NextDeviceDelayMs c,
     cr_baud_rate = c_BaudRate c, cr_data_bits = c_DataBits c, cr_parity = c_Parity c,
     cr_stop_bits = c_StopBits c\<rparr>"

definition conn_check :: "connection \<Rightarrow> bool" where
  "conn_check c \<longleftrightarrow> c_Protocol c \<in> {''RTU'', ''TCP''}"

definition List_connections :: "fault \<Rightarrow> cfgdb \<Rightarrow> cfg_error + connection list" where
  "List_connections flt db =
     (case fault_at (AtQuery 0) flt of Some m \<Rightarrow> Inl (CfgDb m) | None \<Rightarrow>
      Inr (map scanConnection (sort_key cr_id (connections db))))"

definition ListEnabled_connections :: "fault \<Rightarrow> cfgdb \<Rightarrow> cfg_error + connection list" where
  "ListEnabled_connections flt db =
     (case fault_at (AtQuery 0) flt of Some m \<Rightarrow> Inl (CfgDb m) | None \<Rightarrow>
      Inr (map scanConnection (sort_key cr_id (filter (\<lambda>r. cr_enabled r = 1) (connections db)))))"

definition Get_connection :: "fault \<Rightarrow> int \<Rightarrow> cfgdb \<Rightarrow> cfg_error + connection" where
  "Get_connection flt i db =
     (case fault_at (AtQuery 0) flt of Some m \<Rightarrow> Inl (CfgDb m) | None \<Rightarrow>
      case row_by cr_id i (connections db) of None \<Rightarrow> Inl NotFound | Some r \<Rightarrow> Inr (scanConnection r))"

definition Create_connection :: "fault \<Rightarrow> connection \<Rightarrow> cfgdb \<Rightarrow> (cfg_error + int) \<times> cfgdb" where
  "Create_connection flt c db =
     (case fault_at (AtExec 0) flt of Some m \<Rightarrow> (Inl (CfgDb m), db) | None \<Rightarrow>
      if \<not> conn_check c then (Inl (CfgDb check_failed), db)
      else (let i = conn_seq db + 1
            in (last_insert_id flt i, db\<lparr>connections := connections db @ [conn_row_of i c], conn_seq := i\<rparr>)))"

definition Update_connection :: "fault \<Rightarrow> int \<Rightarrow> connection \<Rightarrow> cfgdb \<Rightarrow> cfg_error option \<times> cfgdb" where
  "Update_connection flt i c db =
     (case fault_at (AtExec 0) flt of Some m \<Rightarrow> (Some (CfgDb m), db) | None \<Rightarrow>
      let n = length (filter (\<lambda>r. cr_id r = i) (connections db))
      in if 0 < n \<and> \<not> conn_check c then (Some (CfgDb check_failed), db)
         else (checkRowsAffected flt n,
               db\<lparr>connections := update_row cr_id i (\<lambda>_. conn_row_of i c) (connections db)\<rparr>))"

definition Delete_connection :: "fault \<Rightarrow> int \<Rightarrow> cfgdb \<Rightarrow> cfg_error option \<times> cfgdb" where
  "Delete_connection flt i db =
     (case fault_at (AtQuery 0) flt of Some m \<Rightarrow> (Some (CfgDb m), db) | None \<Rightarrow>
      if 0 < length (filter (\<lambda>r. dr_connection_id r = i) (devices db)) then (Some InUse, db)
      else case fault_at (AtExec 0) flt of Some m \<Rightarrow> (Some (CfgDb m), db) | None \<Rightarrow>
      (checkRowsAffected flt (length (filter (\<lambda>r. cr_id r = i) (connections db))),
       db\<lparr>connections := delete_row cr_id i (connections db)\<rparr>))"

section \<open>Devices\<close>

definition scanDevice :: "dev_row \<Rightarrow> device" where
  "scanDevice r = \<lparr>d_ID = dr_id r, d_Name = dr_name r, d_ConnectionID = dr_connection_id r,
     d_SlaveID = null_int (dr_slave_id r), d_Enabled = (dr_enabled r \<noteq> 0)\<rparr>"

definition dev_row_of :: "int \<Rightarrow> device \<Rightarrow> dev_row" where
  "dev_row_of i d = \<lparr>dr_id = i, dr_name = d_Name d, dr_connection_id = d_ConnectionID d,
     dr_slave_id = Some (d_SlaveID d), dr_enabled = boolToInt (d_Enabled d)\<rparr>"

definition dev_fk :: "device \<Rightarrow> cfgdb \<Rightarrow> bool" where
  "dev_fk d db \<longleftrightarrow> d_ConnectionID d \<in> cr_id ` set (connections db)"

definition next_rowid :: "int list \<Rightarrow> int" where
  \<comment> \<open>the key of a new row of a table without AUTOINCREMENT\<close>
  "next_rowid ids = foldr max ids 0 + 1"

definition List_devices :: "fault \<Rightarrow> cfgdb \<Rightarrow> cfg_error + device list" where
  "List_devices flt db =
     (case fault_at (AtQuery 0) flt of Some m \<Rightarrow> Inl (CfgDb m) | None \<Rightarrow>
      Inr (map scanDevice (sort_key dr_id (devices db))))"

definition ListEnabled_devices :: "fault \<Rightarrow> cfgdb \<Rightarrow> cfg_error + device list" where
  "ListEnabled_devices flt db =
     (case fault_at (AtQuery 0) flt of Some m \<Rightarrow> Inl (CfgDb m) | None \<Rightarrow>
      Inr (map scanDevice (sort_key dr_id (filter (\<lambda>r. dr_enabled r = 1) (devices db)))))"

definition Count_devices :: "fault \<Rightarrow> cfgdb \<Rightarrow> cfg_error + int \<times> int" where
  "Count_devices flt db =
     (case fault_at (AtQuery 0) flt of Some m \<Rightarrow> Inl (CfgDb m) | None \<Rightarrow>
      Inr (int (length (devices db)), int (length (filter (\<lambda>r. dr_enabled r = 1) (devices db)))))"

definition Get_device :: "fault \<Rightarrow> int \<Rightarrow> cfgdb \<Rightarrow> cfg_error + device" where
  "Get_device flt i db =
     (case fault_at (AtQuery 0) flt of Some m \<Rightarrow> Inl (CfgDb m) | None \<Rightarrow>
      case row_by dr_id i (devices db) of None \<Rightarrow> Inl NotFound | Some r \<Rightarrow> Inr (scanDevice r))"

definition Create_device :: "fault \<Rightarrow> device \<Rightarrow> cfgdb \<Rightarrow> (cfg_error + int) \<times> cfgdb" where
  "Create_device flt d db =
     (case fault_at (AtExec 0) flt of Some m \<Rightarrow> (Inl (CfgDb m), db) | None \<Rightarrow>
      if \<not> dev_fk d db then (Inl (CfgDb fk_failed), db)
      else (let i = next_rowid (map dr_id (devices db))
            in (last_insert_id flt i, db\<lparr>devices := devices db @ [dev_row_of i d]\<rparr>)))"

definition Update_device :: "fault \<Rightarrow> int \<Rightarrow> device \<Rightarrow> cfgdb \<Rightarrow> cfg_error option \<times> cfgdb" where
  "Update_device flt i d db =
     (case fault_at (AtExec 0) flt of Some m \<Rightarrow> (Some (CfgDb m), db) | None \<Rightarrow>
      let n = length (filter (\<lambda>r. dr_id r = i) (devices db))
      in if 0 < n \<and> \<not> dev_fk d db then (Some (CfgDb fk_failed), db)
         else (checkRowsAffected flt n,
               db\<lparr>devices := update_row dr_id i (\<lambda>_. dev_row_of i d) (devices db)\<rparr>))"

definition Delete_device :: "fault \<Rightarrow> int \<Rightarrow> cfgdb \<Rightarrow> cfg_error option \<times> cfgdb" where
  \<comment> \<open>ON DELETE CASCADE\<close>
  "Delete_device flt i db =
     (case fault_at (AtExec 0) flt of Some m \<Rightarrow> (Some (CfgDb m), db) | None \<Rightarrow>
      (let n = length (filter (\<lambda>r. dr_id r = i) (devices db))
       in (checkRowsAffected flt n,
           db\<lparr>devices := delete_row dr_id i (devices db),
              datapoints := (if n = 0 then datapoints db else delete_row pr_device_id i (datapoints db))\<rparr>)))"

section \<open>Data points\<close>

definition dp_priorityOrDefault :: "string \<Rightarrow> string" where
  "dp_priorityOrDefault p = (if p = [] then ''NORMAL'' else p)"

definition scanDataPoint :: "dp_row \<Rightarrow> datapoint" where
  "scanDataPoint r = \<lparr>dp_ID = pr_id r, dp_DeviceID = pr_device_id r, dp_TagName = pr_tag_name r,
     dp_FunctionCode = pr_function_code r, dp_RegisterAddress = pr_register_address r,
     dp_DataType = pr_data_type r, dp_ByteOrder = pr_byte_order r, dp_WordOrder = pr_word_order r,
     dp_Scale = pr_scale r, dp_Offset = pr_offset r, dp_Unit = null_string (pr_unit r),
     dp_Priority = pr_priority r, dp_Enabled = (pr_enabled r \<noteq> 0)\<rparr>"

definition dp_row_of :: "f64 \<Rightarrow> f64 \<Rightarrow> int \<Rightarrow> int \<Rightarrow> datapoint \<Rightarrow> dp_row" where
  "dp_row_of scale offset i dev dp = \<lparr>pr_id = i, pr_device_id = dev, pr_tag_name = dp_TagName dp,
     pr_function_code = dp_FunctionCode dp, pr_register_address = dp_RegisterAddress dp,
     pr_data_type = dp_DataType dp, pr_byte_order = dp_ByteOrder dp, pr_word_order = dp_WordOrder dp,
     pr_scale = scale, pr_offset = offset, pr_unit = nullable (dp_Unit dp),
     pr_priority = dp_priorityOrDefault (dp_Priority dp), pr_enabled = boolToInt (dp_Enabled dp)\<rparr>"

definition dp_check :: "datapoint \<Rightarrow> bool" where
  "dp_check dp \<longleftrightarrow> dp_priorityOrDefault (dp_Priority dp) \<in> {''CRITICAL'', ''HIGH'', ''NORMAL'', ''LOW''}"

definition ListByDevice :: "fault \<Rightarrow> int \<Rightarrow> cfgdb \<Rightarrow> cfg_error + datapoint list" where
  "ListByDevice flt dev db =
     (case fault_at (AtQuery 0) flt of Some m \<Rightarrow> Inl (CfgDb m) | None \<Rightarrow>
      Inr (map scanDataPoint (sort_key pr_id (filter (\<lambda>r. pr_device_id r = dev) (datapoints db)))))"

definition ListEnabledByDevice :: "fault \<Rightarrow> int \<Rightarrow> cfgdb \<Rightarrow> cfg_error + datapoint list" where
  "ListEnabledByDevice flt dev db =
     (case fault_at (AtQuery 0) flt of Some m \<Rightarrow> Inl (CfgDb m) | None \<Rightarrow>
      Inr (map scanDataPoint (sort_key pr_id
        (filter (\<lambda>r. pr_device_id r = dev \<and> pr_enabled r = 1) (datapoints db)))))"

definition CountAll :: "fault \<Rightarrow> cfgdb \<Rightarrow> cfg_error + int" where
  "CountAll flt db =
     (case fault_at (AtQuery 0) flt of Some m \<Rightarrow> Inl (CfgDb m) | None \<Rightarrow> Inr (int (length (datapoints db))))"

definition Get_datapoint :: "fault \<Rightarrow> int \<Rightarrow> cfgdb \<Rightarrow> cfg_error + datapoint" where
  "Get_datapoint flt i db =
     (case fault_at (AtQuery 0) flt of Some m \<Rightarrow> Inl (CfgDb m) | None \<Rightarrow>
      case row_by pr_id i (datapoints db) of None \<Rightarrow> Inl NotFound | Some r \<Rightarrow> Inr (scanDataPoint r))"

definition Create_datapoint ::
  "(f64 \<Rightarrow> f64 option) \<Rightarrow> fault \<Rightarrow> datapoint \<Rightarrow> cfgdb \<Rightarrow> (cfg_error + int) \<times> cfgdb" where
  "Create_datapoint bind flt dp db =
     (case fault_at (AtExec 0) flt of Some m \<Rightarrow> (Inl (CfgDb m), db) | None \<Rightarrow>
      case (bind (dp_Scale dp), bind (dp_Offset dp)) of
        (Some s, Some off) \<Rightarrow>
          (if \<not> dp_check dp then (Inl (CfgDb check_failed), db)
           else if dp_DeviceID dp \<notin> dr_id ` set (devices db) then (Inl (CfgDb fk_failed), db)
           else (let i = dp_seq db + 1
                 in (last_insert_id flt i, db\<lparr>datapoints := datapoints db @ [dp_row_of s off i (dp_DeviceID dp) dp], dp_seq := i\<rparr>)))
      | _ \<Rightarrow> (Inl (CfgDb not_null_failed), db))"

definition Update_datapoint ::
  "(f64 \<Rightarrow> f64 option) \<Rightarrow> fault \<Rightarrow> int \<Rightarrow> datapoint \<Rightarrow> cfgdb \<Rightarrow> cfg_error option \<times> cfgdb" where
  \<comment> \<open>\<open>device_id\<close> is not among the updated columns\<close>
  "Update_datapoint bind flt i dp db =
     (case fault_at (AtExec 0) flt of Some m \<Rightarrow> (Some (CfgDb m), db) | None \<Rightarrow>
      let n = length (filter (\<lambda>r. pr_id r = i) (datapoints db))
      in if n = 0 then (checkRowsAffected flt n, db)
         else case (bind (dp_Scale dp), bind (dp_Offset dp)) of
           (Some s, Some off) \<Rightarrow>
             (if \<not> dp_check dp then (Some (CfgDb check_failed), db)
              else (checkRowsAffected flt n,
                    db\<lparr>datapoints := update_row pr_id i (\<lambda>r. dp_row_of s off i (pr_device_id r) dp) (datapoints db)\<rparr>))
         | _ \<Rightarrow> (Some (CfgDb not_null_failed), db))"

definition Delete_datapoint :: "fault \<Rightarrow> int \<Rightarrow> cfgdb \<Rightarrow> cfg_error option \<times> cfgdb" where
  "Delete_datapoint flt i db =
     (case fault_at (AtExec 0) flt of Some m \<Rightarrow> (Some (CfgDb m), db) | None \<Rightarrow>
      (checkRowsAffected flt (length (filter (\<lambda>r. pr_id r = i) (datapoints db))),
       db\<lparr>datapoints := delete_row pr_id i (datapoints db)\<rparr>))"

section \<open>Rows by key\<close>

lemma row_by_append:
  "row_by key i (rs @ [r]) = (case row_by key i rs of Some x \<Rightarrow> Some x | None \<Rightarrow> if key r = i then Some r else None)"
  by (induction rs) (auto simp: row_by_def)

lemma row_by_None: "row_by key i rs = None \<longleftrightarrow> i \<notin> key ` set rs"
  by (induction rs) (auto simp: row_by_def)

lemma row_by_SomeD: "row_by key i rs = Some r \<Longrightarrow> r \<in> set rs \<and> key r = i"
  by (induction rs) (auto simp: row_by_def split: if_splits)

lemma row_by_update:
  assumes "\<And>r. key r = i \<Longrightarrow> key (f r) = i"
  shows "row_by key j (update_row key i f rs) = (if j = i then map_option f (row_by key i rs) else row_by key j rs)"
  using assms by (induction rs) (auto simp: row_by_def update_row_def)

lemma row_by_delete: "row_by key j (delete_row key i rs) = (if j = i then None else row_by key j rs)"
  by (induction rs) (auto simp: row_by_def delete_row_def)

lemma count_key_pos: "0 < length (filter (\<lambda>r. key r = i) rs) \<longleftrightarrow> i \<in> key ` set rs"
  by (induction rs) auto

lemma count_key_zero: "filter (\<lambda>r. key r = i) rs = [] \<longleftrightarrow> i \<notin> key ` set rs"
  by (induction rs) auto

lemma keys_update:
  assumes "\<And>r. key r = i \<Longrightarrow> key (f r) = i"
  shows "map key (update_row key i f rs) = map key rs"
  using assms by (auto simp: update_row_def)

lemma next_rowid_fresh: "x \<in> set ids \<Longrightarrow> x < next_rowid ids"
proof -
  have "x \<in> set ids \<Longrightarrow> x \<le> foldr max ids 0" by (induction ids) (auto simp: max_def)
  then show "x \<in> set ids \<Longrightarrow> x < next_rowid ids" by (simp add: next_rowid_def)
qed

lemma next_rowid_pos: "0 < next_rowid ids"
proof -
  have "0 \<le> foldr max ids 0" by (induction ids) auto
  then show ?thesis by (simp add: next_rowid_def)
qed

lemma nullable_round [simp]: "null_string (nullable s) = s"
  by (simp add: nullable_def null_string_def)

lemma boolToInt_nonzero [simp]: "boolToInt b \<noteq> 0 \<longleftrightarrow> b"
  by (simp add: boolToInt_def)

section \<open>The invariant of the configuration\<close>

definition cfg_inv :: "cfgdb \<Rightarrow> bool" where
  "cfg_inv db \<longleftrightarrow>
     distinct (map cr_id (connections db)) \<and> distinct (map dr_id (devices db)) \<and>
     distinct (map pr_id (datapoints db)) \<and>
     (\<forall>r \<in> set (connections db). cr_id r \<le> conn_seq db \<and> cr_protocol r \<in> {''RTU'', ''TCP''}) \<and>
     (\<forall>r \<in> set (devices db). dr_connection_id r \<in> cr_id ` set (connections db)) \<and>
     (\<forall>r \<in> set (datapoints db). pr_id r \<le> dp_seq db \<and> pr_device_id r \<in> dr_id ` set (devices db) \<and>
        pr_priority r \<in> {''CRITICAL'', ''HIGH'', ''NORMAL'', ''LOW''})"

definition empty_cfg :: cfgdb where
  "empty_cfg = \<lparr>connections = [], conn_seq = 0, devices = [], datapoints = [], dp_seq = 0\<rparr>"

lemma cfg_inv_empty: "cfg_inv empty_cfg"
  by (simp add: cfg_inv_def empty_cfg_def)

lemma cfg_invD:
  assumes "cfg_inv db"
  shows "distinct (map cr_id (connections db))" "distinct (map dr_id (devices db))" "distinct (map pr_id (datapoints db))"
    and "\<And>r. r \<in> set (connections db) \<Longrightarrow> cr_id r \<le> conn_seq db"
    and "\<And>r. r \<in> set (connections db) \<Longrightarrow> cr_protocol r \<in> {''RTU'', ''TCP''}"
    and "\<And>r. r \<in> set (devices db) \<Longrightarrow> dr_connection_id r \<in> cr_id ` set (connections db)"
    and "\<And>r. r \<in> set (datapoints db) \<Longrightarrow> pr_id r \<le> dp_seq db"
    and "\<And>r. r \<in> set (datapoints db) \<Longrightarrow> pr_device_id r \<in> dr_id ` set (devices db)"
    and "\<And>r. r \<in> set (datapoints db) \<Longrightarrow> pr_priority r \<in> {''CRITICAL'', ''HIGH'', ''NORMAL'', ''LOW''}"
  using assms by (simp_all add: cfg_inv_def)

lemma fresh_conn: "cfg_inv db \<Longrightarrow> conn_seq db + 1 \<notin> cr_id ` set (connections db)"
  using cfg_invD(4) by force

lemma fresh_dp: "cfg_inv db \<Longrightarrow> dp_seq db + 1 \<notin> pr_id ` set (datapoints db)"
  using cfg_invD(7) by force

lemma fresh_dev: "next_rowid (map dr_id (devices db)) \<notin> dr_id ` set (devices db)"
  using next_rowid_fresh [of _ "map dr_id (devices db)"] by force

lemma set_keys_update:
  assumes "\<And>r. key r = i \<Longrightarrow> key (f r) = i"
  shows "key ` set (update_row key i f rs) = key ` set rs"
  using keys_update [of key i f rs, OF assms] by (metis set_map)

lemma cfg_inv_Create_connection [inv_intros]: "cfg_inv db \<Longrightarrow> cfg_inv (snd (Create_connection flt c db))"
  using fresh_conn [of db]
  by (auto simp: Create_connection_def cfg_inv_def conn_check_def conn_row_of_def Let_def split: option.splits)

lemma cfg_inv_Update_connection [inv_intros]:
  assumes inv: "cfg_inv db"
  shows "cfg_inv (snd (Update_connection flt i c db))"
proof -
  let ?rs = "update_row cr_id i (\<lambda>_. conn_row_of i c) (connections db)"
  have "cfg_inv (db\<lparr>connections := ?rs\<rparr>)" if "conn_check c \<or> i \<notin> cr_id ` set (connections db)"
  proof -
    have k: "map cr_id ?rs = map cr_id (connections db)" by (rule keys_update) (simp add: conn_row_of_def)
    then have ks: "cr_id ` set ?rs = cr_id ` set (connections db)" by (metis set_map)
    have "cr_id r \<le> conn_seq db \<and> cr_protocol r \<in> {''RTU'', ''TCP''}" if "r \<in> set ?rs" for r
      using that \<open>conn_check c \<or> _\<close> cfg_invD(4,5) [OF inv]
      by (auto simp: update_row_def conn_row_of_def conn_check_def)
    with inv show ?thesis by (simp add: cfg_inv_def k ks)
  qed
  with inv show ?thesis
    by (auto simp: Update_connection_def Let_def count_key_pos count_key_zero split: option.splits)
qed

lemma cfg_inv_Delete_connection [inv_intros]:
  assumes inv: "cfg_inv db"
  shows "cfg_inv (snd (Delete_connection flt i db))"
proof -
  have "cfg_inv (db\<lparr>connections := delete_row cr_id i (connections db)\<rparr>)"
    if "i \<notin> dr_connection_id ` set (devices db)"
  proof -
    have "cr_id ` set (delete_row cr_id i (connections db)) = cr_id ` set (connections db) - {i}"
      by (auto simp: delete_row_def)
    with inv that show ?thesis
      by (auto simp: cfg_inv_def delete_row_def distinct_map_filter)
  qed
  with inv show ?thesis
    by (auto simp: Delete_connection_def Let_def count_key_pos count_key_zero split: option.splits)
qed

lemma cfg_inv_Create_device [inv_intros]: "cfg_inv db \<Longrightarrow> cfg_inv (snd (Create_device flt d db))"
  using fresh_dev [of db]
  by (auto simp: Create_device_def cfg_inv_def dev_fk_def dev_row_of_def Let_def split: option.splits)

lemma cfg_inv_Update_device [inv_intros]:
  assumes inv: "cfg_inv db"
  shows "cfg_inv (snd (Update_device flt i d db))"
proof -
  let ?rs = "update_row dr_id i (\<lambda>_. dev_row_of i d) (devices db)"
  have "cfg_inv (db\<lparr>devices := ?rs\<rparr>)" if "dev_fk d db \<or> i \<notin> dr_id ` set (devices db)"
  proof -
    have k: "map dr_id ?rs = map dr_id (devices db)" by (rule keys_update) (simp add: dev_row_of_def)
    then have ks: "dr_id ` set ?rs = dr_id ` set (devices db)" by (metis set_map)
    have "dr_connection_id r \<in> cr_id ` set (connections db)" if "r \<in> set ?rs" for r
      using that \<open>dev_fk d db \<or> _\<close> cfg_invD(6) [OF inv]
      by (auto simp: update_row_def dev_row_of_def dev_fk_def)
    with inv show ?thesis by (simp add: cfg_inv_def k ks)
  qed
  with inv show ?thesis
    by (auto simp: Update_device_def Let_def count_key_pos count_key_zero split: option.splits)
qed

lemma cfg_inv_Delete_device [inv_intros]:
  assumes inv: "cfg_inv db"
  shows "cfg_inv (snd (Delete_device flt i db))"
proof (cases "i \<in> dr_id ` set (devices db)")
  case True
  have "dr_id ` set (delete_row dr_id i (devices db)) = dr_id ` set (devices db) - {i}"
    by (auto simp: delete_row_def)
  with inv have "cfg_inv (db\<lparr>devices := delete_row dr_id i (devices db), datapoints := delete_row pr_device_id i (datapoints db)\<rparr>)"
    by (auto simp: cfg_inv_def delete_row_def distinct_map_filter)
  with True inv count_key_zero [of dr_id i "devices db"] show ?thesis
    by (auto simp: Delete_device_def Let_def split: option.splits)
next
  case False
  then have "delete_row dr_id i (devices db) = devices db" by (auto simp: delete_row_def intro!: filter_True)
  with False inv count_key_zero [of dr_id i "devices db"] show ?thesis
    by (auto simp: Delete_device_def Let_def split: option.splits)
qed

lemma cfg_inv_Create_datapoint [inv_intros]: "cfg_inv db \<Longrightarrow> cfg_inv (snd (Create_datapoint bind flt dp db))"
  using fresh_dp [of db]
  by (auto simp: Create_datapoint_def cfg_inv_def dp_check_def dp_row_of_def Let_def split: option.splits)

lemma cfg_inv_Update_datapoint [inv_intros]:
  assumes inv: "cfg_inv db"
  shows "cfg_inv (snd (Update_datapoint bind flt i dp db))"
proof -
  have "cfg_inv (db\<lparr>datapoints := update_row pr_id i (\<lambda>r. dp_row_of s off i (pr_device_id r) dp) (datapoints db)\<rparr>)"
    if "dp_check dp" for s off
  proof -
    let ?rs = "update_row pr_id i (\<lambda>r. dp_row_of s off i (pr_device_id r) dp) (datapoints db)"
    have k: "map pr_id ?rs = map pr_id (datapoints db)" by (rule keys_update) (simp add: dp_row_of_def)
    have "pr_id r \<le> dp_seq db \<and> pr_device_id r \<in> dr_id ` set (devices db) \<and>
        pr_priority r \<in> {''CRITICAL'', ''HIGH'', ''NORMAL'', ''LOW''}" if "r \<in> set ?rs" for r
      using that \<open>dp_check dp\<close> cfg_invD(7,8,9) [OF inv]
      by (auto simp: update_row_def dp_row_of_def dp_check_def)
    with inv show ?thesis by (simp add: cfg_inv_def k)
  qed
  with inv show ?thesis
    by (auto simp: Update_datapoint_def Let_def split: option.splits)
qed

lemma cfg_inv_Delete_datapoint [inv_intros]: "cfg_inv db \<Longrightarrow> cfg_inv (snd (Delete_datapoint flt i db))"
  by (auto simp: Delete_datapoint_def cfg_inv_def delete_row_def distinct_map_filter split: option.splits)

section \<open>The contract of a repository\<close>

text \<open>\<open>stored i x\<close> is the record read back after \<open>x\<close> was created under the key \<open>i\<close>, and
  \<open>edited old x\<close> the one read back after \<open>old\<close> was updated with \<open>x\<close>.\<close>

locale crud =
  fixes create :: "fault \<Rightarrow> 'x \<Rightarrow> 'db \<Rightarrow> (cfg_error + int) \<times> 'db"
    and get :: "fault \<Rightarrow> int \<Rightarrow> 'db \<Rightarrow> cfg_error + 'x"
    and update :: "fault \<Rightarrow> int \<Rightarrow> 'x \<Rightarrow> 'db \<Rightarrow> cfg_error option \<times> 'db"
    and delete :: "fault \<Rightarrow> int \<Rightarrow> 'db \<Rightarrow> cfg_error option \<times> 'db"
    and stored :: "int \<Rightarrow> 'x \<Rightarrow> 'x"
    and edited :: "'x \<Rightarrow> 'x \<Rightarrow> 'x"
    and inv :: "'db \<Rightarrow> bool"
  assumes create_get: "inv db \<Longrightarrow> create flt x db = (Inr i, db') \<Longrightarrow>
      get None j db' = (if j = i then Inr (stored i x) else get None j db)"
    and create_fresh: "inv db \<Longrightarrow> create flt x db = (Inr i, db') \<Longrightarrow> get None i db = Inl NotFound"
    and create_inv: "inv db \<Longrightarrow> inv (snd (create flt x db))"
    and update_get: "update flt i x db = (None, db') \<Longrightarrow>
      \<exists>old. get None i db = Inr old \<and> (\<forall>j. get None j db' = (if j = i then Inr (edited old x) else get None j db))"
    and update_missing: "get None i db = Inl NotFound \<Longrightarrow> update None i x db = (Some NotFound, db)"
    and update_inv: "inv db \<Longrightarrow> inv (snd (update flt i x db))"
    and delete_get: "delete flt i db = (None, db') \<Longrightarrow>
      get None j db' = (if j = i then Inl NotFound else get None j db)"
    and delete_missing: "inv db \<Longrightarrow> get None i db = Inl NotFound \<Longrightarrow> fst (delete None i db) = Some NotFound"
    and delete_inv: "inv db \<Longrightarrow> inv (snd (delete flt i db))"
begin

lemma create_twice:
  assumes "inv db" "create flt x db = (Inr i, db1)" "create flt' y db1 = (Inr j, db2)"
  shows "i \<noteq> j \<and> get None i db2 = Inr (stored i x) \<and> get None j db2 = Inr (stored j y)"
proof -
  have inv1: "inv db1" using create_inv [OF assms(1), of flt x] assms(2) by simp
  have "i \<noteq> j" using create_fresh [OF inv1 assms(3)] create_get [OF assms(1,2), of i] by auto
  then show ?thesis
    using create_get [OF inv1 assms(3)] create_get [OF assms(1,2), of i] by simp
qed

lemma create_delete:
  assumes "inv db" "create flt x db = (Inr i, db1)" "delete flt' i db1 = (None, db2)"
  shows "get None j db2 = get None j db"
  using create_fresh [OF assms(1,2)] create_get [OF assms(1,2), of j] delete_get [OF assms(3), of j] by simp

lemma create_update:
  assumes "inv db" "create flt x db = (Inr i, db1)" "update flt' i y db1 = (None, db2)"
  shows "get None i db2 = Inr (edited (stored i x) y)"
  using update_get [OF assms(3)] create_get [OF assms(1,2), of i] by auto

end

lemma checkRowsAffected_None: "checkRowsAffected flt n = None \<Longrightarrow> 0 < n"
  by (auto simp: checkRowsAffected_def split: option.splits if_splits)

lemmas row_by_ops = row_by_append row_by_update row_by_delete row_by_None

lemma get_conn_None: "Get_connection None i db = Inl NotFound \<longleftrightarrow> i \<notin> cr_id ` set (connections db)"
  by (auto simp: Get_connection_def row_by_None [symmetric] split: option.splits)

lemma get_dev_None: "Get_device None i db = Inl NotFound \<longleftrightarrow> i \<notin> dr_id ` set (devices db)"
  by (auto simp: Get_device_def row_by_None [symmetric] split: option.splits)

lemma get_dp_None: "Get_datapoint None i db = Inl NotFound \<longleftrightarrow> i \<notin> pr_id ` set (datapoints db)"
  by (auto simp: Get_datapoint_def row_by_None [symmetric] split: option.splits)

lemma update_row_id: "i \<notin> key ` set rs \<Longrightarrow> update_row key i f rs = rs"
  by (auto simp: update_row_def intro!: map_idI)

lemma row_by_Some: "i \<in> key ` set rs \<Longrightarrow> \<exists>r. row_by key i rs = Some r \<and> key r = i"
  by (metis not_None_eq row_by_None row_by_SomeD)

lemma row_of_key [simp]:
  "cr_id (conn_row_of i c) = i" "dr_id (dev_row_of i d) = i" "pr_id (dp_row_of s off i k p) = i"
  by (simp_all add: conn_row_of_def dev_row_of_def dp_row_of_def)

lemma scan_row_of [simp]:
  "scanConnection (conn_row_of i c) = c\<lparr>c_ID := i\<rparr>"
  "scanDevice (dev_row_of i d) = d\<lparr>d_ID := i\<rparr>"
  "scanDataPoint (dp_row_of s off i k p) = p\<lparr>dp_ID := i, dp_DeviceID := k, dp_Scale := s, dp_Offset := off,
     dp_Priority := dp_priorityOrDefault (dp_Priority p)\<rparr>"
  by (simp_all add: scanConnection_def conn_row_of_def scanDevice_def dev_row_of_def scanDataPoint_def dp_row_of_def null_int_def)

lemma scan_key [simp]:
  "c_ID (scanConnection r) = cr_id r" "d_ID (scanDevice d) = dr_id d"
  "dp_ID (scanDataPoint p) = pr_id p" "dp_DeviceID (scanDataPoint p) = pr_device_id p"
  by (simp_all add: scanConnection_def scanDevice_def scanDataPoint_def)

interpretation conn: crud Create_connection Get_connection Update_connection Delete_connection
  "\<lambda>i c. c\<lparr>c_ID := i\<rparr>" "\<lambda>old c. c\<lparr>c_ID := c_ID old\<rparr>" cfg_inv
proof unfold_locales
  fix db db' :: cfgdb and flt :: fault and c :: connection and i j :: int
  show "Get_connection None j db' = (if j = i then Inr (c\<lparr>c_ID := i\<rparr>) else Get_connection None j db)"
    if "cfg_inv db" "Create_connection flt c db = (Inr i, db')"
  proof -
    have "i = conn_seq db + 1" "connections db' = connections db @ [conn_row_of i c]"
      using that(2) by (auto simp: Create_connection_def last_insert_id_def Let_def split: option.splits if_splits)
    moreover from this have "row_by cr_id i (connections db) = None" using fresh_conn [OF that(1)] by (simp add: row_by_None)
    ultimately show ?thesis
      by (auto simp: Get_connection_def row_by_append split: option.splits)
  qed
  show "Get_connection None i db = Inl NotFound" if "cfg_inv db" "Create_connection flt c db = (Inr i, db')"
    using that(2) fresh_conn [OF that(1)] unfolding get_conn_None
    by (auto simp: Create_connection_def last_insert_id_def Let_def split: option.splits if_splits)
  show "\<exists>old. Get_connection None i db = Inr old \<and>
      (\<forall>j. Get_connection None j db' = (if j = i then Inr (c\<lparr>c_ID := c_ID old\<rparr>) else Get_connection None j db))"
    if "Update_connection flt i c db = (None, db')"
  proof -
    from that have mem: "i \<in> cr_id ` set (connections db)"
      and rows: "connections db' = update_row cr_id i (\<lambda>_. conn_row_of i c) (connections db)"
      using count_key_pos [of cr_id i "connections db"]
      by (auto simp: Update_connection_def Let_def dest!: checkRowsAffected_None split: option.splits if_splits)
    from row_by_Some [OF mem] obtain r where "row_by cr_id i (connections db) = Some r" "cr_id r = i" by blast
    with rows show ?thesis
      by (intro exI [of _ "scanConnection r"]) (simp add: Get_connection_def row_by_update)
  qed
  show "Update_connection None i c db = (Some NotFound, db)" if "Get_connection None i db = Inl NotFound"
    using that count_key_zero [of cr_id i "connections db"] unfolding get_conn_None
    by (simp add: Update_connection_def checkRowsAffected_def update_row_id)
  show "Get_connection None j db' = (if j = i then Inl NotFound else Get_connection None j db)"
    if "Delete_connection flt i db = (None, db')"
    using that by (auto simp: Delete_connection_def Get_connection_def row_by_delete split: option.splits if_splits)
  show "fst (Delete_connection None i db) = Some NotFound" if "cfg_inv db" "Get_connection None i db = Inl NotFound"
  proof -
    have "i \<notin> dr_connection_id ` set (devices db)"
      using that(2) cfg_invD(6) [OF that(1)] unfolding get_conn_None by auto
    with that(2) show ?thesis
      using count_key_zero [of cr_id i "connections db"] count_key_zero [of dr_connection_id i "devices db"]
      unfolding get_conn_None by (simp add: Delete_connection_def checkRowsAffected_def)
  qed
qed (simp_all add: inv_intros)

interpretation dev: crud Create_device Get_device Update_device Delete_device
  "\<lambda>i d. d\<lparr>d_ID := i\<rparr>" "\<lambda>old d. d\<lparr>d_ID := d_ID old\<rparr>" cfg_inv
proof unfold_locales
  fix db db' :: cfgdb and flt :: fault and d :: device and i j :: int
  show "Get_device None j db' = (if j = i then Inr (d\<lparr>d_ID := i\<rparr>) else Get_device None j db)"
    if "cfg_inv db" "Create_device flt d db = (Inr i, db')"
  proof -
    have "i = next_rowid (map dr_id (devices db))" "devices db' = devices db @ [dev_row_of i d]"
      using that(2) by (auto simp: Create_device_def last_insert_id_def Let_def split: option.splits if_splits)
    moreover from this have "row_by dr_id i (devices db) = None" using fresh_dev [of db] by (simp add: row_by_None)
    ultimately show ?thesis
      by (auto simp: Get_device_def row_by_append split: option.splits)
  qed
  show "Get_device None i db = Inl NotFound" if "cfg_inv db" "Create_device flt d db = (Inr i, db')"
    using that(2) fresh_dev [of db] unfolding get_dev_None
    by (auto simp: Create_device_def last_insert_id_def Let_def split: option.splits if_splits)
  show "\<exists>old. Get_device None i db = Inr old \<and>
      (\<forall>j. Get_device None j db' = (if j = i then Inr (d\<lparr>d_ID := d_ID old\<rparr>) else Get_device None j db))"
    if "Update_device flt i d db = (None, db')"
  proof -
    from that have mem: "i \<in> dr_id ` set (devices db)"
      and rows: "devices db' = update_row dr_id i (\<lambda>_. dev_row_of i d) (devices db)"
      using count_key_pos [of dr_id i "devices db"]
      by (auto simp: Update_device_def Let_def dest!: checkRowsAffected_None split: option.splits if_splits)
    from row_by_Some [OF mem] obtain r where "row_by dr_id i (devices db) = Some r" "dr_id r = i" by blast
    with rows show ?thesis
      by (intro exI [of _ "scanDevice r"]) (simp add: Get_device_def row_by_update)
  qed
  show "Update_device None i d db = (Some NotFound, db)" if "Get_device None i db = Inl NotFound"
    using that count_key_zero [of dr_id i "devices db"] unfolding get_dev_None
    by (simp add: Update_device_def checkRowsAffected_def update_row_id)
  show "Get_device None j db' = (if j = i then Inl NotFound else Get_device None j db)"
    if "Delete_device flt i db = (None, db')"
    using that by (auto simp: Delete_device_def Get_device_def Let_def row_by_delete split: option.splits if_splits)
  show "fst (Delete_device None i db) = Some NotFound" if "cfg_inv db" "Get_device None i db = Inl NotFound"
    using that(2) count_key_zero [of dr_id i "devices db"] unfolding get_dev_None
    by (simp add: Delete_device_def checkRowsAffected_def)
qed (simp_all add: inv_intros)

definition stored_datapoint :: "(f64 \<Rightarrow> f64 option) \<Rightarrow> int \<Rightarrow> datapoint \<Rightarrow> datapoint" where
  "stored_datapoint bind i p = p\<lparr>dp_ID := i, dp_Scale := the (bind (dp_Scale p)),
     dp_Offset := the (bind (dp_Offset p)), dp_Priority := dp_priorityOrDefault (dp_Priority p)\<rparr>"

lemma Create_datapoint_Inr:
  assumes "Create_datapoint bind flt p db = (Inr i, db')"
  shows "i = dp_seq db + 1"
    "datapoints db' = datapoints db @
       [dp_row_of (the (bind (dp_Scale p))) (the (bind (dp_Offset p))) i (dp_DeviceID p) p]"
  using assms
  by (auto simp: Create_datapoint_def last_insert_id_def Let_def split: option.splits if_splits)

lemma Update_datapoint_None:
  assumes "Update_datapoint bind flt i p db = (None, db')"
  shows "i \<in> pr_id ` set (datapoints db)"
    "datapoints db' = update_row pr_id i
       (\<lambda>r. dp_row_of (the (bind (dp_Scale p))) (the (bind (dp_Offset p))) i (pr_device_id r) p) (datapoints db)"
  using assms count_key_zero [of pr_id i "datapoints db"]
  by (auto simp: Update_datapoint_def Let_def dest!: checkRowsAffected_None split: option.splits if_splits)

interpretation dp: crud "Create_datapoint bind" Get_datapoint "Update_datapoint bind" Delete_datapoint
  "stored_datapoint bind" "\<lambda>old p. (stored_datapoint bind (dp_ID old) p)\<lparr>dp_DeviceID := dp_DeviceID old\<rparr>" cfg_inv
  for bind :: "f64 \<Rightarrow> f64 option"
proof unfold_locales
  fix db db' :: cfgdb and flt :: fault and p :: datapoint and i j :: int
  show "Get_datapoint None j db' = (if j = i then Inr (stored_datapoint bind i p) else Get_datapoint None j db)"
    if "cfg_inv db" "Create_datapoint bind flt p db = (Inr i, db')"
    using Create_datapoint_Inr [OF that(2)] fresh_dp [OF that(1)]
    by (auto simp: Get_datapoint_def row_by_append stored_datapoint_def row_by_None [symmetric] split: option.splits)
  show "Get_datapoint None i db = Inl NotFound" if "cfg_inv db" "Create_datapoint bind flt p db = (Inr i, db')"
    using Create_datapoint_Inr(1) [OF that(2)] fresh_dp [OF that(1)] unfolding get_dp_None by simp
  show "\<exists>old. Get_datapoint None i db = Inr old \<and> (\<forall>j. Get_datapoint None j db' =
      (if j = i then Inr ((stored_datapoint bind (dp_ID old) p)\<lparr>dp_DeviceID := dp_DeviceID old\<rparr>) else Get_datapoint None j db))"
    if "Update_datapoint bind flt i p db = (None, db')"
  proof -
    note u = Update_datapoint_None [OF that]
    from row_by_Some [OF u(1)] obtain r where "row_by pr_id i (datapoints db) = Some r" "pr_id r = i" by blast
    with u(2) show ?thesis
      by (intro exI [of _ "scanDataPoint r"]) (simp add: Get_datapoint_def row_by_update stored_datapoint_def)
  qed
  show "Update_datapoint bind None i p db = (Some NotFound, db)" if "Get_datapoint None i db = Inl NotFound"
    using that count_key_zero [of pr_id i "datapoints db"] unfolding get_dp_None
    by (simp add: Update_datapoint_def checkRowsAffected_def)
  show "Get_datapoint None j db' = (if j = i then Inl NotFound else Get_datapoint None j db)"
    if "Delete_datapoint flt i db = (None, db')"
    using that by (auto simp: Delete_datapoint_def Get_datapoint_def row_by_delete split: option.splits if_splits)
  show "fst (Delete_datapoint None i db) = Some NotFound" if "cfg_inv db" "Get_datapoint None i db = Inl NotFound"
    using that(2) count_key_zero [of pr_id i "datapoints db"] unfolding get_dp_None
    by (simp add: Delete_datapoint_def checkRowsAffected_def)
qed (simp_all add: inv_intros)

definition priority_ok :: "string \<Rightarrow> bool" where
  "priority_ok p \<longleftrightarrow> p \<in> {''CRITICAL'', ''HIGH'', ''NORMAL'', ''LOW''}"

section \<open>Reachable configurations\<close>

inductive cfg_step :: "cfgdb \<Rightarrow> cfgdb \<Rightarrow> bool" where
  cfg_create_conn: "cfg_step db (snd (Create_connection flt c db))"
| cfg_update_conn: "cfg_step db (snd (Update_connection flt i c db))"
| cfg_delete_conn: "cfg_step db (snd (Delete_connection flt i db))"
| cfg_create_dev: "cfg_step db (snd (Create_device flt d db))"
| cfg_update_dev: "cfg_step db (snd (Update_device flt i d db))"
| cfg_delete_dev: "cfg_step db (snd (Delete_device flt i db))"
| cfg_create_dp: "cfg_step db (snd (Create_datapoint bind flt p db))"
| cfg_update_dp: "cfg_step db (snd (Update_datapoint bind flt i p db))"
| cfg_delete_dp: "cfg_step db (snd (Delete_datapoint flt i db))"

lemma cfg_inv_step: "cfg_step db db' \<Longrightarrow> cfg_inv db \<Longrightarrow> cfg_inv db'"
  by (induction rule: cfg_step.induct) (auto intro: inv_intros)

lemma cfg_inv_steps: "cfg_step\<^sup>*\<^sup>* db db' \<Longrightarrow> cfg_inv db \<Longrightarrow> cfg_inv db'"
  by (induction rule: rtranclp_induct) (auto intro: cfg_inv_step)

section \<open>Properties of the configuration\<close>

text \<open>C23: whatever sequence of repository calls is made, with whatever arguments and database failures,
  keys stay unique in the three tables, every device has its connection and every data point its
  device, and the stored protocols and priorities are legal.\<close>

theorem config_integrity:
  assumes "cfg_step\<^sup>*\<^sup>* empty_cfg db"
  shows "distinct (map cr_id (connections db)) \<and> distinct (map dr_id (devices db)) \<and>
    distinct (map pr_id (datapoints db)) \<and>
    (\<forall>r \<in> set (devices db). \<exists>c. Get_connection None (dr_connection_id r) db = Inr c) \<and>
    (\<forall>r \<in> set (datapoints db). \<exists>d. Get_device None (pr_device_id r) db = Inr d) \<and>
    (\<forall>r \<in> set (connections db). cr_protocol r \<in> {''RTU'', ''TCP''}) \<and>
    (\<forall>r \<in> set (datapoints db). priority_ok (pr_priority r))"
proof -
  note D = cfg_invD [OF cfg_inv_steps [OF assms cfg_inv_empty]]
  have "\<exists>c. Get_connection None i db = Inr c" if "i \<in> cr_id ` set (connections db)" for i
    using row_by_Some [OF that] by (auto simp: Get_connection_def)
  moreover have "\<exists>d. Get_device None i db = Inr d" if "i \<in> dr_id ` set (devices db)" for i
    using row_by_Some [OF that] by (auto simp: Get_device_def)
  ultimately show ?thesis using D by (simp add: priority_ok_def)
qed

definition sample_conn :: connection where
  "sample_conn = \<lparr>c_ID = 0, c_Name = ''bus'', c_Protocol = ''TCP'', c_Interface = [], c_IPAddress = ''10.0.0.5'',
     c_Port = 502, c_TimeoutMs = 1000, c_Retry = 3, c_Enabled = True, c_NextDeviceDelayMs = 250,
     c_BaudRate = 9600, c_DataBits = 8, c_Parity = ''N'', c_StopBits = 1\<rparr>"

definition sample_dev :: device where
  "sample_dev = \<lparr>d_ID = 0, d_Name = ''meter'', d_ConnectionID = 1, d_SlaveID = 7, d_Enabled = True\<rparr>"

definition sample_dp :: datapoint where
  "sample_dp = \<lparr>dp_ID = 0, dp_DeviceID = 1, dp_TagName = ''temperature'', dp_FunctionCode = 4,
     dp_RegisterAddress = 1, dp_DataType = ''INT16'', dp_ByteOrder = ''AB'', dp_WordOrder = ''AB'',
     dp_Scale = f64_one, dp_Offset = f64_zero, dp_Unit = [], dp_Priority = [], dp_Enabled = True\<rparr>"

definition sample_cfg_db :: cfgdb where
  "sample_cfg_db = snd (Create_datapoint Some None sample_dp (snd (Create_device None sample_dev
     (snd (Create_connection None sample_conn empty_cfg)))))"

lemma sample_cfg_steps: "cfg_step\<^sup>*\<^sup>* empty_cfg sample_cfg_db"
  unfolding sample_cfg_db_def
  by (meson cfg_create_conn cfg_create_dev cfg_create_dp rtranclp.rtrancl_into_rtrancl rtranclp.rtrancl_refl)

lemma sample_cfg_rows:
  "connections sample_cfg_db = [conn_row_of 1 sample_conn]" "devices sample_cfg_db = [dev_row_of 1 sample_dev]"
  "datapoints sample_cfg_db = [dp_row_of f64_one f64_zero 1 1 sample_dp]"
  by (simp_all add: sample_cfg_db_def Create_datapoint_def Create_device_def Create_connection_def empty_cfg_def
      conn_check_def dev_fk_def dp_check_def sample_conn_def sample_dev_def sample_dp_def next_rowid_def
      dp_priorityOrDefault_def)

theorem config_integrity_witness:
  "(\<exists>c. Get_connection None 1 sample_cfg_db = Inr c) \<and> priority_ok ''NORMAL''"
  using config_integrity [OF sample_cfg_steps]
  by (simp add: sample_cfg_rows dev_row_of_def dp_row_of_def sample_dev_def sample_dp_def dp_priorityOrDefault_def)

text \<open>A connection that was created is read back with the same fields under its new key, leaves
  every other connection as it was, and after an update reads back the new fields under the same key;
  deleting it again restores what every key showed before.\<close>

theorem connection_roundtrip:
  assumes "cfg_inv db" "Create_connection flt c db = (Inr i, db1)"
  shows "Get_connection None i db1 = Inr (c\<lparr>c_ID := i\<rparr>) \<and>
    (\<forall>j. j \<noteq> i \<longrightarrow> Get_connection None j db1 = Get_connection None j db) \<and>
    (\<forall>flt' c' db2. Update_connection flt' i c' db1 = (None, db2) \<longrightarrow> Get_connection None i db2 = Inr (c'\<lparr>c_ID := i\<rparr>)) \<and>
    (\<forall>flt' db2. Delete_connection flt' i db1 = (None, db2) \<longrightarrow> (\<forall>j. Get_connection None j db2 = Get_connection None j db))"
  using conn.create_get [OF assms] conn.create_update [OF assms] conn.create_delete [OF assms] by simp

lemma cfg_inv_sample: "cfg_inv sample_cfg_db"
  by (rule cfg_inv_steps [OF sample_cfg_steps cfg_inv_empty])

theorem connection_roundtrip_witness:
  "\<exists>i db1. Create_connection None sample_conn sample_cfg_db = (Inr i, db1) \<and>
     Get_connection None i db1 = Inr (sample_conn\<lparr>c_ID := i\<rparr>)"
proof -
  obtain i db1 where c: "Create_connection None sample_conn sample_cfg_db = (Inr i, db1)"
    by (simp add: Create_connection_def last_insert_id_def conn_check_def sample_conn_def Let_def)
  with connection_roundtrip [OF cfg_inv_sample c] show ?thesis by blast
qed

text \<open>A data point that was created is read back with the same fields, the priority NORMAL if none was
  given; updating it replaces every field but the device it belongs to, whatever device the new record
  names; and no call disturbs another data point.\<close>

theorem datapoint_roundtrip:
  assumes "cfg_inv db" "Create_datapoint Some flt p db = (Inr i, db1)"
  shows "Get_datapoint None i db1 = Inr (p\<lparr>dp_ID := i, dp_Priority := dp_priorityOrDefault (dp_Priority p)\<rparr>) \<and>
    (\<forall>j. j \<noteq> i \<longrightarrow> Get_datapoint None j db1 = Get_datapoint None j db) \<and>
    (\<forall>flt' p' db2. Update_datapoint Some flt' i p' db1 = (None, db2) \<longrightarrow>
       Get_datapoint None i db2 = Inr (p'\<lparr>dp_ID := i, dp_DeviceID := dp_DeviceID p,
         dp_Priority := dp_priorityOrDefault (dp_Priority p')\<rparr>))"
  using dp.create_get [OF assms] dp.create_update [OF assms] by (simp add: stored_datapoint_def)

theorem datapoint_roundtrip_witness:
  "\<exists>i db1. Create_datapoint Some None sample_dp sample_cfg_db = (Inr i, db1) \<and>
     Get_datapoint None i db1 = Inr (sample_dp\<lparr>dp_ID := i, dp_Priority := ''NORMAL''\<rparr>)"
proof -
  obtain i db1 where c: "Create_datapoint Some None sample_dp sample_cfg_db = (Inr i, db1)"
    by (simp add: Create_datapoint_def last_insert_id_def sample_cfg_rows dp_check_def dp_priorityOrDefault_def sample_dp_def Let_def)
  with datapoint_roundtrip [OF cfg_inv_sample c] show ?thesis
    by (intro exI [of _ i] exI [of _ db1]) (simp add: sample_dp_def dp_priorityOrDefault_def)
qed

lemma filter_delete_row:
  "filter (\<lambda>r. key r = j) (delete_row key i rs) = (if j = i then [] else filter (\<lambda>r. key r = j) rs)"
  by (induction rs) (auto simp: delete_row_def)

lemma foldr_max_eq:
  assumes "\<forall>x \<in> set ids. x \<le> n" "n \<in> insert 0 (set ids)" "(0::int) \<le> n"
  shows "foldr max ids 0 = n"
proof -
  have "x \<in> set ids \<Longrightarrow> x \<le> foldr max ids 0" for x by (induction ids) (auto simp: max_def)
  moreover have "0 \<le> foldr max ids (0::int)" by (induction ids) auto
  moreover have "foldr max ids 0 \<le> n" using assms(1,3) by (induction ids) auto
  ultimately show ?thesis using assms(2) by fastforce
qed

text \<open>Deleting a device removes exactly its own data points with it; deleting a connection is
  refused while any device refers to it, and otherwise removes that connection alone.\<close>

theorem delete_scope:
  assumes "cfg_inv db" "Delete_device None i db = (r1, db1)" "Delete_connection None i db = (r2, db2)"
  shows "(r1 = None \<longrightarrow> ListByDevice None i db1 = Inr [] \<and>
      (\<forall>j. j \<noteq> i \<longrightarrow> ListByDevice None j db1 = ListByDevice None j db) \<and> connections db1 = connections db) \<and>
    (r1 \<noteq> None \<longrightarrow> db1 = db) \<and>
    (r2 = Some InUse \<longleftrightarrow> (\<exists>d \<in> set (devices db). dr_connection_id d = i)) \<and>
    (r2 = None \<longrightarrow> devices db2 = devices db \<and> datapoints db2 = datapoints db) \<and>
    (r2 \<noteq> None \<longrightarrow> db2 = db)"
proof -
  have drop: "i \<notin> key ` set rs \<Longrightarrow> delete_row key i rs = rs" for key :: "'r \<Rightarrow> int" and rs
    by (auto simp: delete_row_def intro!: filter_True)
  have "(r1 = None \<longrightarrow> ListByDevice None i db1 = Inr [] \<and>
      (\<forall>j. j \<noteq> i \<longrightarrow> ListByDevice None j db1 = ListByDevice None j db) \<and> connections db1 = connections db) \<and>
    (r1 \<noteq> None \<longrightarrow> db1 = db)"
    using assms(2) count_key_zero [of dr_id i "devices db"] drop [of dr_id "devices db"]
    by (auto simp: Delete_device_def ListByDevice_def checkRowsAffected_def Let_def filter_delete_row split: if_splits)
  moreover have "(r2 = Some InUse \<longleftrightarrow> i \<in> dr_connection_id ` set (devices db)) \<and>
    (r2 = None \<longrightarrow> devices db2 = devices db \<and> datapoints db2 = datapoints db) \<and> (r2 \<noteq> None \<longrightarrow> db2 = db)"
    using assms(3) count_key_zero [of cr_id i "connections db"] drop [of cr_id "connections db"]
      count_key_zero [of dr_connection_id i "devices db"]
    by (auto simp: Delete_connection_def checkRowsAffected_def split: if_splits)
  ultimately show ?thesis by (simp add: image_iff) metis
qed

theorem delete_scope_witness:
  "fst (Delete_connection None 1 sample_cfg_db) = Some InUse"
proof -
  obtain r1 db1 r2 db2 where e: "Delete_device None 1 sample_cfg_db = (r1, db1)"
    "Delete_connection None 1 sample_cfg_db = (r2, db2)" by fastforce
  from delete_scope [OF cfg_inv_sample e] e(2) show ?thesis
    by (simp add: sample_cfg_rows dev_row_of_def sample_dev_def)
qed

text \<open>The key of a deleted device is given out again. After the device with the largest key is
  deleted, the next device created takes its key, so stored readings of the old device carry the key of
  the new one.\<close>

theorem device_key_reused:
  assumes "Delete_device None i db = (None, db1)" "\<forall>r \<in> set (devices db). dr_id r \<le> i" "0 < i"
    and "i - 1 \<in> insert 0 (dr_id ` set (devices db))" "dev_fk d db1"
  shows "fst (Create_device None d db1) = Inr i"
proof -
  have rows: "devices db1 = delete_row dr_id i (devices db)"
    using assms(1) by (auto simp: Delete_device_def Let_def)
  have "foldr max (map dr_id (devices db1)) 0 = i - 1"
  proof (rule foldr_max_eq)
    show "\<forall>x \<in> set (map dr_id (devices db1)). x \<le> i - 1"
      using assms(2) by (force simp: rows delete_row_def)
    show "i - 1 \<in> insert 0 (set (map dr_id (devices db1)))"
      using assms(4) by (auto simp: rows delete_row_def)
  qed (use assms(3) in simp)
  then show ?thesis using assms(5) by (simp add: Create_device_def last_insert_id_def next_rowid_def Let_def)
qed

theorem device_key_reused_witness:
  "\<exists>db1. Delete_device None 1 sample_cfg_db = (None, db1) \<and> fst (Create_device None sample_dev db1) = Inr 1"
proof -
  obtain db1 where d: "Delete_device None 1 sample_cfg_db = (None, db1)" "connections db1 = connections sample_cfg_db"
    by (simp add: Delete_device_def sample_cfg_rows checkRowsAffected_def)
  have "dev_fk sample_dev db1" by (simp add: dev_fk_def d(2) sample_cfg_rows sample_dev_def)
  with device_key_reused [OF d(1), of sample_dev] d(1) show ?thesis by (simp add: sample_cfg_rows)
qed

text \<open>A configuration record that passes its validation is accepted by the database: without a
  database failure, creating a validated connection succeeds always, a validated device when its
  connection exists, and a validated data point when its device exists.\<close>

lemma validated_is_accepted:
  assumes "Validate_connection c = None" "Validate_device d = None" "Validate_datapoint p = None"
    and "dev_fk d db" "dp_DeviceID p \<in> dr_id ` set (devices db)"
  shows "(\<exists>i. fst (Create_connection None c db) = Inr i) \<and> (\<exists>i. fst (Create_device None d db) = Inr i) \<and>
    (\<exists>i. fst (Create_datapoint Some None p db) = Inr i)"
proof -
  have "conn_check c" using assms(1) by (auto simp: Validate_connection_def conn_check_def split: if_splits)
  moreover have "dp_check p"
    using assms(3) by (auto simp: Validate_datapoint_def dp_check_def dp_priorityOrDefault_def split: if_splits sum.splits)
  ultimately show ?thesis using assms(4,5)
    by (simp add: Create_connection_def Create_device_def Create_datapoint_def last_insert_id_def Let_def)
qed

lemma validated_is_accepted_witness:
  "\<exists>i. fst (Create_connection None sample_conn sample_cfg_db) = Inr i"
proof -
  have "Validate_connection sample_conn = None" "Validate_device sample_dev = None" "Validate_datapoint sample_dp = None"
    by (simp_all add: Validate_connection_def Validate_device_def Validate_datapoint_def sample_conn_def
        sample_dev_def sample_dp_def ByteWidth_def f64_one_def)
  moreover have "dev_fk sample_dev sample_cfg_db" "dp_DeviceID sample_dp \<in> dr_id ` set (devices sample_cfg_db)"
    by (simp_all add: dev_fk_def sample_cfg_rows sample_dev_def sample_dp_def)
  ultimately show ?thesis using validated_is_accepted by blast
qed

end
