(* ===== verification/BlockPlan.thy ===== *)
theory BlockPlan
  imports ConfigStore
begin

text \<open>
  The block planner \<open>src/gateway/internal/acquisition/blockplan.go\<close>: it groups the data points of a
  device into as few register reads as it can.

  Addresses and quantities are Go's \<open>uint16\<close>, so every sum and difference wraps. Go iterates over a
  map in no fixed order and \<open>sort.Slice\<close> is not stable: both orders are arguments, the list \<open>fcs\<close>
  of function codes and the sorting function \<open>srt\<close>, whose promise is that of the locale
  \<open>sql_order\<close>.
\<close>

section \<open>The planner\<close>

definition maxRegistersPerBlock :: u16 where "maxRegistersPerBlock = 125"
definition maxGapRegisters :: u16 where "maxGapRegisters = 8"

record read_block =
  b_functionCode :: functionCode
  b_startAddress :: u16
  b_quantity :: u16
  b_points :: "datapoint list"

fun plan_single :: "functionCode \<Rightarrow> datapoint list \<Rightarrow> read_block list" where
  \<comment> \<open>coils and discrete inputs: one block per data point\<close>
  "plan_single fc [] = []"
| "plan_single fc (dp # dps) =
     (case RegisterCount (dp_DataType dp) of
        Inl _ \<Rightarrow> plan_single fc dps
      | Inr qty \<Rightarrow> \<lparr>b_functionCode = fc, b_startAddress = dp_RegisterAddress dp, b_quantity = qty,
                    b_points = [dp]\<rparr> # plan_single fc dps)"

definition flush :: "read_block option \<Rightarrow> read_block list" where
  "flush pending = (case pending of None \<Rightarrow> [] | Some b \<Rightarrow> [b])"

definition fits :: "read_block \<Rightarrow> u16 \<Rightarrow> u16 \<Rightarrow> bool" where
  \<comment> \<open>the condition for extending the pending block by a point at \<open>addr\<close> that ends at \<open>dpEnd\<close>\<close>
  "fits b addr dpEnd \<longleftrightarrow>
     addr \<le> b_startAddress b + b_quantity b + maxGapRegisters \<and>
     dpEnd - b_startAddress b \<le> maxRegistersPerBlock"

definition extend :: "read_block \<Rightarrow> datapoint \<Rightarrow> u16 \<Rightarrow> read_block" where
  "extend b dp dpEnd =
     (let b1 = (if b_startAddress b + b_quantity b < dpEnd then b\<lparr>b_quantity := dpEnd - b_startAddress b\<rparr> else b)
      in b1\<lparr>b_points := b_points b1 @ [dp]\<rparr>)"

fun merge_loop :: "functionCode \<Rightarrow> read_block option \<Rightarrow> datapoint list \<Rightarrow> read_block list" where
  "merge_loop fc pending [] = flush pending"
| "merge_loop fc pending (dp # dps) =
     (case RegisterCount (dp_DataType dp) of
        Inl _ \<Rightarrow> merge_loop fc pending dps
      | Inr qty \<Rightarrow>
          (let dpEnd = dp_RegisterAddress dp + qty;
               fresh = \<lparr>b_functionCode = fc, b_startAddress = dp_RegisterAddress dp, b_quantity = qty, b_points = [dp]\<rparr>
           in case pending of
                None \<Rightarrow> merge_loop fc (Some fresh) dps
              | Some b \<Rightarrow>
                  if fits b (dp_RegisterAddress dp) dpEnd then merge_loop fc (Some (extend b dp dpEnd)) dps
                  else b # merge_loop fc (Some fresh) dps))"

type_synonym addr_sort = "(datapoint \<Rightarrow> u16) \<Rightarrow> datapoint list \<Rightarrow> datapoint list"

definition plan_group :: "addr_sort \<Rightarrow> functionCode \<Rightarrow> datapoint list \<Rightarrow> read_block list" where
  "plan_group srt fc grp =
     (if fc = 1 \<or> fc = 2 then plan_single fc grp
      else merge_loop fc None (srt dp_RegisterAddress grp))"

definition planBlockReads :: "functionCode list \<Rightarrow> addr_sort \<Rightarrow> datapoint list \<Rightarrow> read_block list" where
  "planBlockReads fcs srt dps =
     concat (map (\<lambda>fc. plan_group srt fc (filter (\<lambda>dp. dp_FunctionCode dp = fc) dps)) fcs)"

definition fc_order :: "functionCode list \<Rightarrow> datapoint list \<Rightarrow> bool" where
  \<comment> \<open>\<open>fcs\<close> is an iteration order of the map keyed by the function codes of \<open>dps\<close>\<close>
  "fc_order fcs dps \<longleftrightarrow> distinct fcs \<and> set fcs = dp_FunctionCode ` set dps"

section \<open>Registers of a data point\<close>

definition known :: "datapoint \<Rightarrow> bool" where
  "known dp \<longleftrightarrow> (\<exists>w. ByteWidth (dp_DataType dp) = Inr w)"

definition regs :: "datapoint \<Rightarrow> nat" where
  "regs dp = (case RegisterCount (dp_DataType dp) of Inl _ \<Rightarrow> 0 | Inr q \<Rightarrow> unat q)"

definition reg_start :: "datapoint \<Rightarrow> nat" where "reg_start dp = unat (dp_RegisterAddress dp)"
definition reg_end :: "datapoint \<Rightarrow> nat" where "reg_end dp = reg_start dp + regs dp"
definition block_start :: "read_block \<Rightarrow> nat" where "block_start b = unat (b_startAddress b)"
definition block_end :: "read_block \<Rightarrow> nat" where "block_end b = block_start b + unat (b_quantity b)"

lemma known_iff: "known dp \<longleftrightarrow> (\<exists>q. RegisterCount (dp_DataType dp) = Inr q)"
  by (auto simp: known_def RegisterCount_def split: sum.splits)

lemma regs_eq: "RegisterCount (dp_DataType dp) = Inr q \<Longrightarrow> regs dp = unat q"
  by (simp add: regs_def)

section \<open>Every point is read exactly once\<close>

definition points_of :: "read_block list \<Rightarrow> datapoint list" where
  "points_of bs = concat (map b_points bs)"

lemma points_of_simps [simp]:
  "points_of [] = []" "points_of (b # bs) = b_points b @ points_of bs" "points_of (bs @ cs) = points_of bs @ points_of cs"
  by (simp_all add: points_of_def)

lemma points_plan_single: "points_of (plan_single fc dps) = filter known dps"
  by (induction dps) (auto simp: known_iff split: sum.splits)

lemma b_points_extend [simp]: "b_points (extend b dp e) = b_points b @ [dp]"
  by (simp add: extend_def Let_def)

lemma points_merge_loop: "points_of (merge_loop fc pending dps) = points_of (flush pending) @ filter known dps"
proof (induction fc pending dps rule: merge_loop.induct)
  case (2 fc pending dp dps)
  show ?case
  proof (cases "RegisterCount (dp_DataType dp)")
    case (Inl e)
    then have "\<not> known dp" by (simp add: known_iff)
    with 2(1) [OF Inl] Inl show ?thesis by simp
  next
    case (Inr q)
    then have "known dp" by (simp add: known_iff)
    with 2(2-4) Inr show ?thesis
      by (cases pending) (auto simp: flush_def Let_def)
  qed
qed simp

lemma plan_single_block:
  assumes "b \<in> set (plan_single fc dps)"
  obtains dp q where "dp \<in> set dps" "RegisterCount (dp_DataType dp) = Inr q"
    "b = \<lparr>b_functionCode = fc, b_startAddress = dp_RegisterAddress dp, b_quantity = q, b_points = [dp]\<rparr>"
  using assms by (induction dps) (auto split: sum.splits)

lemma filter_key_other: "j \<noteq> k \<Longrightarrow> filter (\<lambda>x. f x = j) (filter (\<lambda>x. f x \<noteq> k) xs) = filter (\<lambda>x. f x = j) xs"
  by (induction xs) auto

lemma filter_groups:
  assumes "distinct fcs" "f ` set xs \<subseteq> set fcs"
  shows "mset (concat (map (\<lambda>k. filter (\<lambda>x. f x = k) xs) fcs)) = mset xs"
  using assms
proof (induction fcs arbitrary: xs)
  case Nil
  then show ?case by simp
next
  case (Cons k fcs)
  have "mset (concat (map (\<lambda>j. filter (\<lambda>x. f x = j) (filter (\<lambda>x. f x \<noteq> k) xs)) fcs)) = mset (filter (\<lambda>x. f x \<noteq> k) xs)"
    by (rule Cons.IH) (use Cons.prems in auto)
  moreover have "map (\<lambda>j. filter (\<lambda>x. f x = j) (filter (\<lambda>x. f x \<noteq> k) xs)) fcs = map (\<lambda>j. filter (\<lambda>x. f x = j) xs) fcs"
  proof (rule map_cong [OF refl])
    fix j assume "j \<in> set fcs"
    with Cons.prems(1) have "j \<noteq> k" by auto
    then show "filter (\<lambda>x. f x = j) (filter (\<lambda>x. f x \<noteq> k) xs) = filter (\<lambda>x. f x = j) xs"
      by (rule filter_key_other)
  qed
  ultimately have "mset (concat (map (\<lambda>j. filter (\<lambda>x. f x = j) xs) fcs)) = mset (filter (\<lambda>x. f x \<noteq> k) xs)"
    by (simp only:)
  with multiset_partition [of "mset xs" "\<lambda>x. f x = k"] show ?case by (simp add: mset_filter)
qed

lemma mset_concat_map_cong:
  "(\<And>x. x \<in> set xs \<Longrightarrow> mset (f x) = mset (g x)) \<Longrightarrow> mset (concat (map f xs)) = mset (concat (map g xs))"
  by (induction xs) auto

lemma points_of_concat: "points_of (concat bss) = concat (map points_of bss)"
  by (induction bss) auto

lemma points_plan_group:
  assumes "sql_order srt"
  shows "mset (points_of (plan_group srt fc grp)) = mset (filter known grp)"
  using sql_order.mset_order_by [OF assms, of dp_RegisterAddress grp]
  by (simp add: plan_group_def points_plan_single points_merge_loop flush_def mset_filter)

section \<open>What a block covers\<close>

text \<open>A block is good if it asks for 1 to 125 registers and has a point; it covers its points if every
  register of every point is among those it reads.\<close>

definition good_block :: "read_block \<Rightarrow> bool" where
  "good_block b \<longleftrightarrow> b_points b \<noteq> [] \<and> 0 < b_quantity b \<and> b_quantity b \<le> maxRegistersPerBlock \<and>
     (\<forall>dp \<in> set (b_points b). dp_FunctionCode dp = b_functionCode b)"

definition covers :: "read_block \<Rightarrow> bool" where
  "covers b \<longleftrightarrow> block_end b < 2 ^ 16 \<and>
     (\<forall>dp \<in> set (b_points b). block_start b \<le> reg_start dp \<and> reg_end dp \<le> block_end b)"

lemma RegisterCount_small: "RegisterCount d = Inr q \<Longrightarrow> 0 < q \<and> q \<le> 4"
  by (auto simp: RegisterCount_def split: sum.splits elim!: ByteWidth_cases)

lemma good_fresh:
  assumes "RegisterCount (dp_DataType dp) = Inr q" "dp_FunctionCode dp = fc"
  shows "good_block \<lparr>b_functionCode = fc, b_startAddress = a, b_quantity = q, b_points = [dp]\<rparr>"
proof -
  have "q \<le> 125" using RegisterCount_small [OF assms(1)] order_trans [of q 4 125] by simp
  then show ?thesis
    using RegisterCount_small [OF assms(1)] assms(2) by (simp add: good_block_def maxRegistersPerBlock_def)
qed

text \<open>Words as naturals, for the sums and differences of the planner.\<close>

lemma unat_diff: "(b :: u16) \<le> a \<Longrightarrow> unat (a - b) = unat a - unat b"
  by (rule unat_sub)

lemma unat_sum: "unat a + unat b < 2 ^ 16 \<Longrightarrow> unat (a + b :: u16) = unat a + unat b"
  by (simp add: unat_plus_if')

lemma unat_wrap: "2 ^ 16 \<le> unat a + unat b \<Longrightarrow> unat (a + b :: u16) = unat a + unat b - 2 ^ 16"
  by (simp add: unat_plus_if')

lemma fits_near:
  assumes "fits b a e" "b_quantity b \<le> maxRegistersPerBlock" "block_start b \<le> 3"
  shows "unat a \<le> 136"
proof -
  have q: "unat (b_quantity b) \<le> 125"
    using assms(2) by (simp add: maxRegistersPerBlock_def word_le_nat_alt)
  then have "unat (b_startAddress b + b_quantity b) = block_start b + unat (b_quantity b)"
    using assms(3) by (subst unat_sum) (simp_all add: block_start_def)
  then have "unat (b_startAddress b + b_quantity b + maxGapRegisters) = block_start b + unat (b_quantity b) + 8"
    using q assms(3) by (subst unat_sum) (simp_all add: maxGapRegisters_def)
  then show ?thesis using assms(1,3) q by (simp add: fits_def word_le_nat_alt)
qed

lemma end_not_start:
  assumes "fits b a (a + q)" "b_quantity b \<le> maxRegistersPerBlock" "b_startAddress b \<le> a" "0 < q" "q \<le> 4"
  shows "a + q \<noteq> b_startAddress b"
proof
  assume eq: "a + q = b_startAddress b"
  have q: "0 < unat q" "unat q \<le> 4" using assms(4,5) by (simp_all add: word_le_nat_alt word_less_nat_alt)
  show False
  proof (cases "unat a + unat q < 2 ^ 16")
    case True
    with eq q assms(3) show False using unat_sum [OF True] by (simp add: word_le_nat_alt)
  next
    case False
    then have "block_start b = unat a + unat q - 2 ^ 16" using unat_wrap [of a q] eq by (simp add: block_start_def)
    moreover have "unat a < 2 ^ 16" using unsigned_less [of a] by simp
    ultimately have "block_start b \<le> 3" "2 ^ 16 - 4 \<le> unat a" using q False by auto
    with fits_near [OF assms(1,2)] show False by simp
  qed
qed

lemma good_extend:
  assumes "good_block b" "fits b a (a + q)" "dp_FunctionCode dp = b_functionCode b"
    and "b_startAddress b \<le> a" "RegisterCount (dp_DataType dp) = Inr q"
  shows "good_block (extend b dp (a + q))"
proof -
  have "a + q \<noteq> b_startAddress b"
    using assms RegisterCount_small [OF assms(5)] by (intro end_not_start) (auto simp: good_block_def)
  then have "0 < a + q - b_startAddress b" by (simp add: word_gt_0)
  then show ?thesis using assms by (auto simp: good_block_def extend_def fits_def Let_def)
qed

text \<open>What holds of a fresh block and is kept when a block is extended holds of every planned block.\<close>

definition fresh_block :: "datapoint \<Rightarrow> u16 \<Rightarrow> read_block" where
  "fresh_block dp q = \<lparr>b_functionCode = dp_FunctionCode dp, b_startAddress = dp_RegisterAddress dp,
     b_quantity = q, b_points = [dp]\<rparr>"

lemma merge_loop_invariant:
  assumes "sorted (map dp_RegisterAddress dps)" "\<forall>dp \<in> set dps. dp_FunctionCode dp = fc"
    and "\<And>b. pending = Some b \<Longrightarrow> P b \<and> (\<forall>dp \<in> set dps. b_startAddress b \<le> dp_RegisterAddress dp)"
    and "\<And>dp q. dp \<in> set dps \<Longrightarrow> RegisterCount (dp_DataType dp) = Inr q \<Longrightarrow> P (fresh_block dp q)"
    and "\<And>b dp q. P b \<Longrightarrow> dp \<in> set dps \<Longrightarrow> b_startAddress b \<le> dp_RegisterAddress dp \<Longrightarrow>
      RegisterCount (dp_DataType dp) = Inr q \<Longrightarrow> fits b (dp_RegisterAddress dp) (dp_RegisterAddress dp + q) \<Longrightarrow>
      P (extend b dp (dp_RegisterAddress dp + q))"
    and "c \<in> set (merge_loop fc pending dps)"
  shows "P c"
  using assms
proof (induction fc pending dps rule: merge_loop.induct)
  case (1 fc pending)
  then show ?case by (auto simp: flush_def split: option.splits)
next
  case (2 fc pending dp dps)
  show ?case
  proof (cases "RegisterCount (dp_DataType dp)")
    case (Inl e)
    with 2(1) [OF Inl] 2(5-10) show ?thesis by simp
  next
    case (Inr q)
    let ?a = "dp_RegisterAddress dp"
    let ?fresh = "\<lparr>b_functionCode = fc, b_startAddress = ?a, b_quantity = q, b_points = [dp]\<rparr>"
    have fresh: "P ?fresh" using 2(8) [OF _ Inr] 2(6) by (simp add: fresh_block_def)
    have rest: "\<forall>x \<in> set dps. ?a \<le> dp_RegisterAddress x" using 2(5) by simp
    show ?thesis
    proof (cases pending)
      case None
      then show ?thesis using 2(2) [OF Inr refl refl None] 2(5,6,8,9,10) fresh rest Inr by simp
    next
      case (Some b)
      then have b: "P b" "b_startAddress b \<le> ?a" using 2(7) by auto
      show ?thesis
      proof (cases "fits b ?a (?a + q)")
        case True
        have "P (extend b dp (?a + q))" using b True Inr 2(9) by simp
        moreover have "b_startAddress (extend b dp (?a + q)) = b_startAddress b" by (simp add: extend_def Let_def)
        ultimately show ?thesis
          using 2(3) [OF Inr refl refl Some True] 2(5-10) Inr Some True by simp
      next
        case False
        then show ?thesis using 2(4) [OF Inr refl refl Some False] 2(5,6,8,9,10) fresh rest Inr Some b by auto
      qed
    qed
  qed
qed

lemma extend_start [simp]:
  "b_startAddress (extend b dp e) = b_startAddress b" "b_functionCode (extend b dp e) = b_functionCode b"
  "block_start (extend b dp e) = block_start b"
  by (simp_all add: extend_def Let_def block_start_def)

lemma good_merge_loop:
  assumes "sorted (map dp_RegisterAddress dps)" "\<forall>dp \<in> set dps. dp_FunctionCode dp = fc"
    and "c \<in> set (merge_loop fc None dps)"
  shows "good_block c \<and> b_functionCode c = fc"
  by (rule merge_loop_invariant [OF assms(1,2) _ _ _ assms(3), of "\<lambda>b. good_block b \<and> b_functionCode b = fc"])
    (use assms(2) in \<open>auto simp: fresh_block_def intro!: good_fresh good_extend\<close>)

lemma block_end_extend:
  assumes "block_end b < 2 ^ 16" "b_startAddress b \<le> a" "unat a + unat q < 2 ^ 16"
  shows "block_end (extend b dp (a + q)) = max (block_end b) (unat a + unat q)"
proof -
  have e: "unat (a + q) = unat a + unat q" by (rule unat_sum) fact
  have be: "unat (b_startAddress b + b_quantity b) = block_end b"
    using assms(1) by (subst unat_sum) (simp_all add: block_end_def block_start_def)
  have "b_startAddress b \<le> a + q" using assms(2) e by (simp add: word_le_nat_alt)
  then have "unat (a + q - b_startAddress b) = unat a + unat q - block_start b"
    using unat_diff e by (simp add: block_start_def)
  moreover have "block_start b \<le> unat a" using assms(2) by (simp add: block_start_def word_le_nat_alt)
  moreover have "b_startAddress b + b_quantity b < a + q \<longleftrightarrow> block_end b < unat a + unat q"
    by (simp add: word_less_nat_alt be e)
  ultimately show ?thesis
    by (auto simp: extend_def Let_def block_end_def block_start_def max_def)
qed

lemma covers_merge_loop:
  assumes "sorted (map dp_RegisterAddress dps)" "\<forall>dp \<in> set dps. dp_FunctionCode dp = fc"
    and small: "\<forall>dp \<in> set dps. reg_end dp < 2 ^ 16" and "c \<in> set (merge_loop fc None dps)"
  shows "covers c"
proof (rule merge_loop_invariant [OF assms(1,2) _ _ _ assms(4)])
  fix dp q assume dp: "dp \<in> set dps" "RegisterCount (dp_DataType dp) = Inr q"
  with small have "unat (dp_RegisterAddress dp) + unat q < 2 ^ 16" by (auto simp: reg_end_def reg_start_def regs_def)
  with dp(2) show "covers (fresh_block dp q)"
    by (simp add: covers_def fresh_block_def block_end_def block_start_def reg_end_def reg_start_def regs_def)
next
  fix b dp q assume b: "covers b" "b_startAddress b \<le> dp_RegisterAddress dp"
    and dp: "dp \<in> set dps" "RegisterCount (dp_DataType dp) = Inr q"
  have e: "reg_end dp = unat (dp_RegisterAddress dp) + unat q" "reg_end dp < 2 ^ 16"
    using dp small by (auto simp: reg_end_def reg_start_def regs_def)
  then have "block_end (extend b dp (dp_RegisterAddress dp + q)) = max (block_end b) (reg_end dp)"
    using b by (simp add: block_end_extend covers_def)
  with b e show "covers (extend b dp (dp_RegisterAddress dp + q))"
    by (auto simp: covers_def reg_start_def block_start_def word_le_nat_alt)
qed simp

section \<open>No two neighbouring blocks could have been one\<close>

definition first_end :: "read_block \<Rightarrow> u16" where
  "first_end b = b_startAddress b + (case RegisterCount (dp_DataType (hd (b_points b))) of Inl _ \<Rightarrow> 0 | Inr q \<Rightarrow> q)"

definition apart :: "read_block \<Rightarrow> read_block \<Rightarrow> bool" where
  "apart b c \<longleftrightarrow> b_startAddress b \<le> b_startAddress c \<and> \<not> fits b (b_startAddress c) (first_end c)"

lemma first_end_extend [simp]: "b_points b \<noteq> [] \<Longrightarrow> first_end (extend b dp e) = first_end b"
  by (simp add: first_end_def)

lemma merge_loop_head:
  assumes "b_points b \<noteq> []"
  shows "\<exists>c cs. merge_loop fc (Some b) dps = c # cs \<and> b_startAddress c = b_startAddress b \<and> first_end c = first_end b"
  using assms
proof (induction dps arbitrary: b)
  case Nil
  then show ?case by (simp add: flush_def)
next
  case (Cons dp dps)
  show ?case
  proof (cases "RegisterCount (dp_DataType dp)")
    case (Inl e)
    with Cons show ?thesis by simp
  next
    case (Inr q)
    with Cons.IH [of "extend b dp (dp_RegisterAddress dp + q)"] Cons.prems show ?thesis
      by (simp add: Let_def)
  qed
qed

lemma merge_loop_apart:
  assumes "sorted (map dp_RegisterAddress dps)"
    and "\<And>b. pending = Some b \<Longrightarrow> b_points b \<noteq> [] \<and> (\<forall>dp \<in> set dps. b_startAddress b \<le> dp_RegisterAddress dp)"
  shows "successively apart (merge_loop fc pending dps)"
  using assms
proof (induction fc pending dps rule: merge_loop.induct)
  case (1 fc pending)
  then show ?case by (simp add: flush_def split: option.splits)
next
  case (2 fc pending dp dps)
  show ?case
  proof (cases "RegisterCount (dp_DataType dp)")
    case (Inl e)
    with 2(1) [OF Inl] 2(5,6) show ?thesis by simp
  next
    case (Inr q)
    let ?a = "dp_RegisterAddress dp"
    let ?fresh = "\<lparr>b_functionCode = fc, b_startAddress = ?a, b_quantity = q, b_points = [dp]\<rparr>"
    show ?thesis
    proof (cases pending)
      case None
      then show ?thesis using 2(2) [OF Inr refl refl None] 2(5) Inr by simp
    next
      case (Some b)
      show ?thesis
      proof (cases "fits b ?a (?a + q)")
        case True
        then show ?thesis using 2(3) [OF Inr refl refl Some True] 2(5,6) Inr Some by simp
      next
        case False
        obtain c cs where c: "merge_loop fc (Some ?fresh) dps = c # cs" "b_startAddress c = ?a" "first_end c = first_end ?fresh"
          using merge_loop_head [of ?fresh fc dps] by auto
        have "first_end ?fresh = ?a + q" using Inr by (simp add: first_end_def)
        with False c 2(6) Some have "apart b c" by (simp add: apart_def)
        with 2(4) [OF Inr refl refl Some False] 2(5) c(1) Inr Some False show ?thesis by simp
      qed
    qed
  qed
qed

lemma merge_loop_first:
  assumes "sorted (map dp_RegisterAddress dps)" "\<forall>dp \<in> set dps. dp_FunctionCode dp = fc"
    and "c \<in> set (merge_loop fc None dps)"
  shows "b_points c \<noteq> [] \<and> hd (b_points c) \<in> set dps \<and> known (hd (b_points c)) \<and>
    b_startAddress c = dp_RegisterAddress (hd (b_points c))"
  by (rule merge_loop_invariant [OF assms(1,2) _ _ _ assms(3), of "\<lambda>b. b_points b \<noteq> [] \<and>
      hd (b_points b) \<in> set dps \<and> known (hd (b_points b)) \<and> b_startAddress b = dp_RegisterAddress (hd (b_points b))"])
    (auto simp: fresh_block_def known_iff)

lemma apart_nat:
  assumes "apart b c" "block_end b + 8 < 2 ^ 16" "first_end c = b_startAddress c + q" "unat (b_startAddress c) + unat q < 2 ^ 16"
  shows "block_end b + 8 < block_start c \<or> block_start b + 125 < block_start c + unat q"
proof -
  have le: "b_startAddress b \<le> b_startAddress c" using assms(1) by (simp add: apart_def)
  have "unat (b_startAddress b + b_quantity b) = block_end b"
    using assms(2) by (subst unat_sum) (simp_all add: block_end_def block_start_def)
  then have gap: "unat (b_startAddress b + b_quantity b + maxGapRegisters) = block_end b + 8"
    using assms(2) by (subst unat_sum) (simp_all add: maxGapRegisters_def)
  have e: "unat (first_end c) = block_start c + unat q"
    using assms(3,4) unat_sum by (simp add: block_start_def)
  have "b_startAddress b \<le> first_end c" using le e by (simp add: word_le_nat_alt block_start_def)
  then have "unat (first_end c - b_startAddress b) = block_start c + unat q - block_start b"
    using unat_diff e by (simp add: block_start_def)
  with gap assms(1) show ?thesis
    by (auto simp: apart_def fits_def word_le_nat_alt maxRegistersPerBlock_def block_start_def)
qed

lemma merge_loop_end:
  assumes "sorted (map dp_RegisterAddress dps)" "\<forall>dp \<in> set dps. dp_FunctionCode dp = fc"
    and "\<forall>dp \<in> set dps. reg_end dp + k < 2 ^ 16" "c \<in> set (merge_loop fc None dps)"
  shows "block_end c + k < 2 ^ 16"
proof (rule merge_loop_invariant [OF assms(1,2) _ _ _ assms(4)])
  fix b dp q assume b: "block_end b + k < 2 ^ 16" "b_startAddress b \<le> dp_RegisterAddress dp"
    and dp: "dp \<in> set dps" "RegisterCount (dp_DataType dp) = Inr q"
  have "reg_end dp = unat (dp_RegisterAddress dp) + unat q" "reg_end dp + k < 2 ^ 16"
    using dp assms(3) by (auto simp: reg_end_def reg_start_def regs_def)
  then show "block_end (extend b dp (dp_RegisterAddress dp + q)) + k < 2 ^ 16"
    using b by (simp add: block_end_extend)
next
  fix dp q assume "dp \<in> set dps" "RegisterCount (dp_DataType dp) = Inr q"
  then show "block_end (fresh_block dp q) + k < 2 ^ 16"
    using assms(3) by (auto simp: fresh_block_def block_end_def block_start_def reg_end_def reg_start_def regs_def)
qed simp

lemma blocks_le_points: "\<forall>b \<in> set bs. b_points b \<noteq> [] \<Longrightarrow> length bs \<le> length (points_of bs)"
proof (induction bs)
  case (Cons b bs)
  then show ?case by (cases "b_points b") auto
qed simp

section \<open>Properties of the planner\<close>

lemma plan_points:
  assumes "sql_order srt" "fc_order fcs dps"
  shows "mset (points_of (planBlockReads fcs srt dps)) = mset (filter known dps)"
proof -
  have "mset (points_of (planBlockReads fcs srt dps)) =
      mset (concat (map (\<lambda>fc. points_of (plan_group srt fc (filter (\<lambda>dp. dp_FunctionCode dp = fc) dps))) fcs))"
    by (simp add: planBlockReads_def points_of_concat o_def)
  also have "\<dots> = mset (concat (map (\<lambda>fc. filter (\<lambda>dp. dp_FunctionCode dp = fc) (filter known dps)) fcs))"
    by (rule mset_concat_map_cong) (simp add: points_plan_group [OF assms(1)] conj_commute)
  also have "\<dots> = mset (filter known dps)"
    using assms(2) by (intro filter_groups) (auto simp: fc_order_def)
  finally show ?thesis .
qed

lemma plan_good:
  assumes "sql_order srt" "b \<in> set (planBlockReads fcs srt dps)"
  shows "good_block b"
proof -
  from assms(2) obtain fc where b: "b \<in> set (plan_group srt fc (filter (\<lambda>dp. dp_FunctionCode dp = fc) dps))"
    by (auto simp: planBlockReads_def)
  let ?g = "filter (\<lambda>dp. dp_FunctionCode dp = fc) dps"
  have s: "\<forall>dp \<in> set (srt dp_RegisterAddress ?g). dp_FunctionCode dp = fc"
    by (simp add: sql_order.set_order_by [OF assms(1)])
  show "good_block b"
  proof (cases "fc = 1 \<or> fc = 2")
    case True
    with b have "b \<in> set (plan_single fc ?g)" by (simp add: plan_group_def)
    then show ?thesis by (rule plan_single_block) (auto intro: good_fresh)
  next
    case False
    with b have "b \<in> set (merge_loop fc None (srt dp_RegisterAddress ?g))" by (simp add: plan_group_def)
    with good_merge_loop [OF sql_order.sorted_order_by [OF assms(1)] s] show ?thesis by blast
  qed
qed

text \<open>C21: whatever order the map iteration and the sort choose, every data point whose data type is known is
  in exactly one block, once (a data point of unknown type is in none), and every block asks for between 1
  and 125 registers with the function code of all its points.\<close>

theorem planBlockReads_partition:
  assumes "sql_order srt" "fc_order fcs dps"
  shows "mset (points_of (planBlockReads fcs srt dps)) = mset (filter known dps) \<and>
    (\<forall>b \<in> set (planBlockReads fcs srt dps). good_block b)"
  using plan_points [OF assms] plan_good [OF assms(1)] by blast

definition near_points :: "datapoint list" where
  "near_points = [sample_dp, sample_dp\<lparr>dp_RegisterAddress := 2\<rparr>]"

theorem planBlockReads_partition_witness:
  "fc_order [4] near_points \<and> mset (points_of (planBlockReads [4] sort_key near_points)) = mset near_points"
proof -
  have f: "fc_order [4] near_points" by (simp add: fc_order_def near_points_def sample_dp_def)
  have "filter known near_points = near_points" by (simp add: near_points_def known_def sample_dp_def ByteWidth_def)
  with planBlockReads_partition [OF stable.sql_order_axioms f] f show ?thesis by simp
qed

lemma plan_covers:
  assumes "sql_order srt" "\<forall>dp \<in> set dps. reg_end dp < 2 ^ 16" "b \<in> set (planBlockReads fcs srt dps)"
  shows "covers b"
proof -
  from assms(3) obtain fc where b: "b \<in> set (plan_group srt fc (filter (\<lambda>dp. dp_FunctionCode dp = fc) dps))"
    by (auto simp: planBlockReads_def)
  let ?g = "filter (\<lambda>dp. dp_FunctionCode dp = fc) dps"
  have s: "\<forall>dp \<in> set (srt dp_RegisterAddress ?g). dp_FunctionCode dp = fc"
    "\<forall>dp \<in> set (srt dp_RegisterAddress ?g). reg_end dp < 2 ^ 16"
    using assms(2) by (simp_all add: sql_order.set_order_by [OF assms(1)])
  show ?thesis
  proof (cases "fc = 1 \<or> fc = 2")
    case True
    with b have "b \<in> set (plan_single fc ?g)" by (simp add: plan_group_def)
    then show ?thesis
      by (rule plan_single_block)
        (use assms(2) in \<open>force simp: covers_def block_end_def block_start_def reg_end_def reg_start_def regs_def\<close>)
  next
    case False
    with b have "b \<in> set (merge_loop fc None (srt dp_RegisterAddress ?g))" by (simp add: plan_group_def)
    with covers_merge_loop [OF sql_order.sorted_order_by [OF assms(1)] s] show ?thesis by simp
  qed
qed

lemma tight_merge_loop:
  assumes "sorted (map dp_RegisterAddress dps)" "\<forall>dp \<in> set dps. dp_FunctionCode dp = fc"
    and small: "\<forall>dp \<in> set dps. reg_end dp < 2 ^ 16" and "c \<in> set (merge_loop fc None dps)"
  shows "block_end c < 2 ^ 16 \<and> (\<exists>dp \<in> set (b_points c). reg_end dp = block_end c)"
proof (rule merge_loop_invariant [OF assms(1,2) _ _ _ assms(4)])
  fix dp q assume "dp \<in> set dps" "RegisterCount (dp_DataType dp) = Inr q"
  with small show "block_end (fresh_block dp q) < 2 ^ 16 \<and>
      (\<exists>dp' \<in> set (b_points (fresh_block dp q)). reg_end dp' = block_end (fresh_block dp q))"
    by (auto simp: fresh_block_def block_end_def block_start_def reg_end_def reg_start_def regs_def)
next
  fix b dp q assume b: "block_end b < 2 ^ 16 \<and> (\<exists>dp \<in> set (b_points b). reg_end dp = block_end b)"
    "b_startAddress b \<le> dp_RegisterAddress dp" and dp: "dp \<in> set dps" "RegisterCount (dp_DataType dp) = Inr q"
  have e: "reg_end dp = unat (dp_RegisterAddress dp) + unat q" "reg_end dp < 2 ^ 16"
    using dp small by (auto simp: reg_end_def reg_start_def regs_def)
  then have "block_end (extend b dp (dp_RegisterAddress dp + q)) = max (block_end b) (reg_end dp)"
    using b by (simp add: block_end_extend)
  with b e show "block_end (extend b dp (dp_RegisterAddress dp + q)) < 2 ^ 16 \<and>
      (\<exists>dp' \<in> set (b_points (extend b dp (dp_RegisterAddress dp + q))).
         reg_end dp' = block_end (extend b dp (dp_RegisterAddress dp + q)))"
    by (auto simp: max_def)
qed simp

lemma plan_tight:
  assumes "sql_order srt" "\<forall>dp \<in> set dps. reg_end dp < 2 ^ 16" "b \<in> set (planBlockReads fcs srt dps)"
  shows "\<exists>dp \<in> set (b_points b). reg_end dp = block_end b"
proof -
  from assms(3) obtain fc where b: "b \<in> set (plan_group srt fc (filter (\<lambda>dp. dp_FunctionCode dp = fc) dps))"
    by (auto simp: planBlockReads_def)
  let ?g = "filter (\<lambda>dp. dp_FunctionCode dp = fc) dps"
  have s: "\<forall>dp \<in> set (srt dp_RegisterAddress ?g). dp_FunctionCode dp = fc"
    "\<forall>dp \<in> set (srt dp_RegisterAddress ?g). reg_end dp < 2 ^ 16"
    using assms(2) by (simp_all add: sql_order.set_order_by [OF assms(1)])
  show ?thesis
  proof (cases "fc = 1 \<or> fc = 2")
    case True
    with b have "b \<in> set (plan_single fc ?g)" by (simp add: plan_group_def)
    then show ?thesis
      by (rule plan_single_block) (simp add: block_end_def block_start_def reg_end_def reg_start_def regs_def)
  next
    case False
    with b have "b \<in> set (merge_loop fc None (srt dp_RegisterAddress ?g))" by (simp add: plan_group_def)
    with tight_merge_loop [OF sql_order.sorted_order_by [OF assms(1)] s] show ?thesis by simp
  qed
qed

text \<open>C22: if no data point touches the last register of the address space, every register of every point of a
  block is among the registers the block reads, and the block itself stays inside the address space.\<close>

theorem planBlockReads_covers:
  assumes "sql_order srt" "\<forall>dp \<in> set dps. reg_end dp < 2 ^ 16" "b \<in> set (planBlockReads fcs srt dps)"
  shows "covers b"
  by (rule plan_covers [OF assms])

theorem planBlockReads_covers_witness:
  "planBlockReads [4] sort_key near_points \<noteq> [] \<and> covers (hd (planBlockReads [4] sort_key near_points))"
proof -
  have ne: "planBlockReads [4] sort_key near_points \<noteq> []"
    by (simp add: planBlockReads_def plan_group_def near_points_def sample_dp_def RegisterCount_def ByteWidth_def
        fits_def extend_def flush_def maxGapRegisters_def maxRegistersPerBlock_def)
  have "\<forall>dp \<in> set near_points. reg_end dp < 2 ^ 16"
    by (simp add: near_points_def sample_dp_def reg_end_def reg_start_def regs_def RegisterCount_def ByteWidth_def)
  from planBlockReads_covers [OF stable.sql_order_axioms this hd_in_set [OF ne]] ne show ?thesis by blast
qed

text \<open>The plan of holding or input registers is not split without need. Of two consecutive blocks, the
  second starts more than 8 registers after the end of the first, or including its first point would have made
  the first longer than 125 registers.\<close>

theorem plan_group_needed:
  assumes "sql_order srt" "fc \<notin> {1, 2}" "\<forall>dp \<in> set grp. dp_FunctionCode dp = fc \<and> reg_end dp + 8 < 2 ^ 16"
  shows "successively (\<lambda>b c. block_end b + 8 < block_start c \<or> block_start b + 125 < reg_end (hd (b_points c)))
    (plan_group srt fc grp)"
proof -
  let ?ds = "srt dp_RegisterAddress grp"
  have set: "set ?ds = set grp" by (rule sql_order.set_order_by [OF assms(1)])
  have so: "sorted (map dp_RegisterAddress ?ds)" by (rule sql_order.sorted_order_by [OF assms(1)])
  have fc: "\<forall>dp \<in> set ?ds. dp_FunctionCode dp = fc" using assms(3) by (simp add: set)
  have small: "\<forall>dp \<in> set ?ds. reg_end dp < 2 ^ 16" using assms(3) by (auto simp: set)
  let ?Q = "\<lambda>b c. block_end b + 8 < block_start c \<or> block_start b + 125 < reg_end (hd (b_points c))"
  have "?Q b c" if "b \<in> set (merge_loop fc None ?ds)" "c \<in> set (merge_loop fc None ?ds)" "apart b c" for b c
  proof -
    note h = merge_loop_first [OF so fc that(2)]
    then obtain q where q: "RegisterCount (dp_DataType (hd (b_points c))) = Inr q" by (auto simp: known_iff)
    have e: "reg_end (hd (b_points c)) = block_start c + unat q"
      using h q by (simp add: reg_end_def reg_start_def regs_def block_start_def)
    have "reg_end (hd (b_points c)) < 2 ^ 16" using h small by blast
    moreover have "block_end b + 8 < 2 ^ 16" by (rule merge_loop_end [OF so fc _ that(1)]) (use assms(3) set in auto)
    moreover have "first_end c = b_startAddress c + q" using q by (simp add: first_end_def)
    ultimately show ?thesis using apart_nat [OF that(3), of q] e by (simp add: block_start_def)
  qed
  then have "successively ?Q (merge_loop fc None ?ds)"
    using merge_loop_apart [OF so, of None fc] by (auto intro: successively_mono)
  then show ?thesis using assms(2) by (simp add: plan_group_def)
qed

theorem plan_group_needed_witness:
  "successively (\<lambda>b c. block_end b + 8 < block_start c \<or> block_start b + 125 < reg_end (hd (b_points c)))
    (plan_group sort_key 4 [sample_dp, sample_dp\<lparr>dp_RegisterAddress := 40\<rparr>])"
  by (rule plan_group_needed [OF stable.sql_order_axioms])
    (simp_all add: sample_dp_def reg_end_def reg_start_def regs_def RegisterCount_def ByteWidth_def)

definition last_points :: "datapoint list" where
  \<comment> \<open>a 16-bit value at 65525 and a 32-bit value in the last two registers\<close>
  "last_points = [sample_dp\<lparr>dp_RegisterAddress := 65525\<rparr>,
     sample_dp\<lparr>dp_RegisterAddress := 65534, dp_DataType := ''FLOAT32''\<rparr>]"

text \<open>A data point that occupies the last register of the address space can break the merge: its end wraps
  to 0, so it is added to a pending block up to 8 registers before it and the block is not made longer. Here both points are planned into
  one read of a single register, and the second lies outside it.\<close>

theorem planBlockReads_wraps:
  "planBlockReads [4] sort_key last_points =
     [\<lparr>b_functionCode = 4, b_startAddress = 65525, b_quantity = 1, b_points = last_points\<rparr>] \<and>
   \<not> covers \<lparr>b_functionCode = 4, b_startAddress = 65525, b_quantity = 1, b_points = last_points\<rparr>"
proof
  show "planBlockReads [4] sort_key last_points =
     [\<lparr>b_functionCode = 4, b_startAddress = 65525, b_quantity = 1, b_points = last_points\<rparr>]"
    by (simp add: planBlockReads_def plan_group_def last_points_def sample_dp_def RegisterCount_def ByteWidth_def
        fits_def extend_def flush_def maxGapRegisters_def maxRegistersPerBlock_def)
  show "\<not> covers \<lparr>b_functionCode = 4, b_startAddress = 65525, b_quantity = 1, b_points = last_points\<rparr>"
    by (simp add: covers_def last_points_def block_end_def block_start_def reg_end_def reg_start_def regs_def
        RegisterCount_def ByteWidth_def)
qed

end
