(* ===== verification/Acquisition.thy ===== *)
theory Acquisition
  imports BlockPlan
begin

text \<open>
  Acquisition: the poller of one connection (\<open>src/gateway/internal/acquisition/poller.go\<close>,
  \<open>reading.go\<close>) and the diagnostics counters it feeds (\<open>src/gateway/internal/diagnostics\<close>).

  A poller emits events: readings and finished poll cycles. One pass of its endless loop is the
  function \<open>scan_pass\<close>, and a run is a list of passes. What a pass meets (the clock, whether the
  context is cancelled at each check and during each wait, the order the planner's map is iterated in)
  is the record \<open>pass_env\<close>. The Modbus client is the record of its methods over its own state, as in
  the theory of the protocol layer, and \<open>ctx\<close> is what the read context, with its timeout, reports in
  a client state.
\<close>

section \<open>Readings\<close>

record acq_reading =
  a_DeviceID :: int
  a_DeviceName :: string
  a_DatapointID :: int
  a_Tag :: string
  a_Value :: "f64 option"
  a_Quality :: quality
  a_Unit :: string
  a_Priority :: string
  a_EventTimestamp :: gotime

definition badReading :: "device \<Rightarrow> datapoint \<Rightarrow> gotime \<Rightarrow> quality \<Rightarrow> acq_reading" where
  "badReading d dp eventTime q = \<lparr>a_DeviceID = d_ID d, a_DeviceName = d_Name d, a_DatapointID = dp_ID dp,
     a_Tag = dp_TagName dp, a_Value = None, a_Quality = q, a_Unit = dp_Unit dp,
     a_Priority = dp_Priority dp, a_EventTimestamp = eventTime\<rparr>"

definition decodeAndEmit ::
  "bool \<Rightarrow> device \<Rightarrow> datapoint \<Rightarrow> byte list \<Rightarrow> u16 \<Rightarrow> gotime \<Rightarrow> acq_reading" where
  \<comment> \<open>the one reading the call emits\<close>
  "decodeAndEmit fused d dp raw blockStart eventTime =
     (case ByteWidth (dp_DataType dp) of
        Inl _ \<Rightarrow> badReading d dp eventTime Invalid
      | Inr width \<Rightarrow>
          (let offset = unat (dp_RegisterAddress dp - blockStart) * 2
           in if length raw < offset + width then badReading d dp eventTime Invalid
              else case Decode (take width (drop offset raw)) (dp_DataType dp) (dp_ByteOrder dp) of
                     Inl _ \<Rightarrow> badReading d dp eventTime Invalid
                   | Inr decoded \<Rightarrow>
                       \<lparr>a_DeviceID = d_ID d, a_DeviceName = d_Name d, a_DatapointID = dp_ID dp,
                        a_Tag = dp_TagName dp,
                        a_Value = Some (ApplyScale fused decoded (dp_Scale dp) (dp_Offset dp)),
                        a_Quality = Good, a_Unit = dp_Unit dp, a_Priority = dp_Priority dp,
                        a_EventTimestamp = eventTime\<rparr>))"

definition emitDeviceOffline :: "device \<Rightarrow> datapoint list \<Rightarrow> gotime \<Rightarrow> go_error \<Rightarrow> acq_reading list" where
  "emitDeviceOffline d dps now err = map (\<lambda>dp. badReading d dp now (QualityFromError (Some err))) dps"

section \<open>Diagnostics counters\<close>

record diag_store =
  g_tx :: int
  g_rx :: int
  g_timeouts :: int
  g_crcErrors :: int
  g_retries :: int
  g_responseTotalNs :: int
  g_responseCount :: int

definition new_diag :: diag_store where
  "new_diag = \<lparr>g_tx = 0, g_rx = 0, g_timeouts = 0, g_crcErrors = 0, g_retries = 0,
     g_responseTotalNs = 0, g_responseCount = 0\<rparr>"

definition RecordResult :: "quality \<Rightarrow> duration \<Rightarrow> int \<Rightarrow> diag_store \<Rightarrow> diag_store" where
  "RecordResult quality dur attempts s =
     (let attempts = (if attempts < 1 then 1 else attempts);
          s = s\<lparr>g_tx := g_tx s + attempts\<rparr>;
          s = (if 0 < attempts - 1 then s\<lparr>g_retries := g_retries s + (attempts - 1)\<rparr> else s)
      in case quality of
           Good \<Rightarrow> s\<lparr>g_rx := g_rx s + 1, g_responseTotalNs := g_responseTotalNs s + dur,
                     g_responseCount := g_responseCount s + 1\<rparr>
         | Timeout \<Rightarrow> s\<lparr>g_timeouts := g_timeouts s + 1\<rparr>
         | CRCError \<Rightarrow> s\<lparr>g_crcErrors := g_crcErrors s + 1\<rparr>
         | _ \<Rightarrow> s)"

record snapshot =
  TXCount :: int
  RXCount :: int
  TimeoutCount :: int
  CRCErrorCount :: int
  RetryCount :: int
  AvgResponseTimeMs :: f64

definition Snapshot :: "diag_store \<Rightarrow> snapshot" where
  "Snapshot s =
     (let count = g_responseCount s;
          avg = (if 0 < count
                 then f64_div (f64_div (f64_of_int (g_responseTotalNs s)) (f64_of_int count)) (f64_of_int millisecond)
                 else f64_zero)
      in \<lparr>TXCount = g_tx s, RXCount = g_rx s, TimeoutCount = g_timeouts s, CRCErrorCount = g_crcErrors s,
          RetryCount = g_retries s, AvgResponseTimeMs = avg\<rparr>)"

section \<open>Reading a device\<close>

type_synonym 'c ctx = "'c \<Rightarrow> go_error option"

fun read_blocks ::
  "'c ctx \<Rightarrow> 'c client \<Rightarrow> bool \<Rightarrow> device \<Rightarrow> gotime \<Rightarrow> (nat \<Rightarrow> duration) \<Rightarrow> read_block list \<Rightarrow> nat \<Rightarrow> int \<Rightarrow>
   diag_store option \<Rightarrow> 'c \<Rightarrow> (acq_reading list \<times> int \<times> nat) \<times> diag_store option \<times> 'c" where
  "read_blocks ctx cl fused d eventTime elapsed [] blockReads readCount diag st =
     (([], readCount, blockReads), diag, st)"
| "read_blocks ctx cl fused d eventTime elapsed (b # bs) blockReads readCount diag st =
     (let ((raw, attempts, err), st') =
            ReadWithRetry ctx cl (b_functionCode b) (b_startAddress b) (b_quantity b) 0 st;
          q = QualityFromError err;
          diag' = map_option (RecordResult q (elapsed blockReads) attempts) diag;
          emitted = (case err of
              Some e \<Rightarrow> map (\<lambda>dp. badReading d dp eventTime q) (b_points b)
            | None \<Rightarrow> map (\<lambda>dp. decodeAndEmit fused d dp raw (b_startAddress b) eventTime) (b_points b))
      in case read_blocks ctx cl fused d eventTime elapsed bs (Suc blockReads)
                (readCount + int (length (b_points b))) diag' st' of
           ((rs, n, k), diag'', st'') \<Rightarrow> ((emitted @ rs, n, k), diag'', st''))"

definition readDevice ::
  "'c ctx \<Rightarrow> 'c client \<Rightarrow> bool \<Rightarrow> functionCode list \<Rightarrow> addr_sort \<Rightarrow> (nat \<Rightarrow> duration) \<Rightarrow> device \<Rightarrow> datapoint list \<Rightarrow>
   gotime \<Rightarrow> diag_store option \<Rightarrow> 'c \<Rightarrow> (acq_reading list \<times> int \<times> nat) \<times> diag_store option \<times> 'c" where
  "readDevice ctx cl fused fcs srt elapsed d dps eventTime diag st =
     read_blocks ctx cl fused d eventTime elapsed (planBlockReads fcs srt dps) 0 0 diag st"

section \<open>The scan loop of a connection\<close>

definition reconnectFloorDelay :: duration where "reconnectFloorDelay = second"
definition cycleYieldDelay :: duration where "cycleYieldDelay = 20 * millisecond"

type_synonym device_points = "device \<times> datapoint list"

datatype acq_event =
    Emit acq_reading
  | PollCycle int int int nat gotime \<comment> \<open>device, milliseconds, data points, block reads, instant\<close>
  | Waited duration
  | Closed

text \<open>\<open>v_cancelled k\<close> and \<open>v_completes k\<close>: check 0 and wait 0 belong to the pass itself, check and
  wait \<open>k + 1\<close> to its \<open>k\<close>-th device.\<close>

record 'c pass_env =
  v_cancelled :: "nat \<Rightarrow> bool"
  v_completes :: "nat \<Rightarrow> bool"
  v_now :: "nat \<Rightarrow> gotime"
  v_elapsed :: "nat \<Rightarrow> nat \<Rightarrow> duration"
  v_poll_ms :: "nat \<Rightarrow> int"
  v_fcs :: "datapoint list \<Rightarrow> functionCode list"
  v_sort :: addr_sort
  v_ctx :: "'c ctx"

definition wait_for :: "'c pass_env \<Rightarrow> nat \<Rightarrow> duration \<Rightarrow> bool" where
  "wait_for env k d = (if d \<le> 0 then True else v_completes env k)"

record 'c scan_state =
  s_connected :: bool
  s_diag :: "diag_store option"
  s_client :: 'c

fun scan_devices ::
  "bool \<Rightarrow> 'c client \<Rightarrow> 'c pass_env \<Rightarrow> duration \<Rightarrow> nat \<Rightarrow> device_points list \<Rightarrow> 'c scan_state \<Rightarrow>
   bool \<times> acq_event list \<times> 'c scan_state" where
  \<comment> \<open>\<open>False\<close>: the loop has returned\<close>
  "scan_devices fused cl env dly k [] s = (True, [], s)"
| "scan_devices fused cl env dly k ((d, dps) # ds) s =
     (if v_cancelled env (Suc k) then (False, [Closed], s\<lparr>s_client := snd (cl_close cl (s_client s))\<rparr>)
      else
      (let st1 = cl_set_unit cl (of_int (d_SlaveID d)) (s_client s);
           now = v_now env (Suc k);
           ((rs, readCount, blockReads), diag, st2) =
             readDevice (v_ctx env) cl fused (v_fcs env dps) (v_sort env) (v_elapsed env k) d dps now (s_diag s) st1;
           s' = s\<lparr>s_diag := diag, s_client := st2\<rparr>
       in if 0 < readCount then
            (let evs = map Emit rs @ [PollCycle (d_ID d) (v_poll_ms env k) readCount blockReads now, Waited dly]
             in if \<not> wait_for env (Suc k) dly
                then (False, evs @ [Closed], s'\<lparr>s_client := snd (cl_close cl st2)\<rparr>)
                else case scan_devices fused cl env dly (Suc k) ds s' of (go, evs', s'') \<Rightarrow> (go, evs @ evs', s''))
          else case scan_devices fused cl env dly (Suc k) ds s' of (go, evs', s'') \<Rightarrow> (go, map Emit rs @ evs', s'')))"

definition scan_pass ::
  "bool \<Rightarrow> 'c client \<Rightarrow> connection \<Rightarrow> device_points list \<Rightarrow> 'c pass_env \<Rightarrow> 'c scan_state \<Rightarrow>
   bool \<times> acq_event list \<times> 'c scan_state" where
  "scan_pass fused cl conn ds env s =
     (let close = (\<lambda>s. s\<lparr>s_client := snd (cl_close cl (s_client s))\<rparr>);
          dly = c_NextDeviceDelayMs conn * millisecond
      in if v_cancelled env 0 then (False, [Closed], close s)
         else
         (let (cerr, st) = (if s_connected s then (None, s_client s) else cl_connect cl (s_client s));
              s1 = s\<lparr>s_client := st\<rparr>
          in case cerr of
               Some err \<Rightarrow>
                 (let evs = concat (map (\<lambda>(d, dps). map Emit (emitDeviceOffline d dps (v_now env 0) err)) ds)
                              @ [Waited reconnectFloorDelay]
                  in if wait_for env 0 reconnectFloorDelay then (True, evs, s1) else (False, evs @ [Closed], close s1))
             | None \<Rightarrow>
                 (case scan_devices fused cl env dly 0 ds (s1\<lparr>s_connected := True\<rparr>) of
                    (False, evs, s2) \<Rightarrow> (False, evs, s2)
                  | (True, evs, s2) \<Rightarrow>
                      if wait_for env 0 cycleYieldDelay then (True, evs @ [Waited cycleYieldDelay], s2)
                      else (False, evs @ [Waited cycleYieldDelay, Closed], close s2))))"

fun runConnectionWithClient ::
  "bool \<Rightarrow> 'c client \<Rightarrow> connection \<Rightarrow> device_points list \<Rightarrow> 'c pass_env list \<Rightarrow> 'c scan_state \<Rightarrow>
   bool \<times> acq_event list \<times> 'c scan_state" where
  "runConnectionWithClient fused cl conn ds [] s = (True, [], s)"
| "runConnectionWithClient fused cl conn ds (env # envs) s =
     (case scan_pass fused cl conn ds env s of
        (False, evs, s') \<Rightarrow> (False, evs, s')
      | (True, evs, s') \<Rightarrow>
          (case runConnectionWithClient fused cl conn ds envs s' of (go, evs', s'') \<Rightarrow> (go, evs @ evs', s'')))"

section \<open>Building a client\<close>

datatype client_config =
    TCPConfig string duration \<comment> \<open>address, timeout\<close>
  | RTUConfig string int int string int duration \<comment> \<open>interface, baud, data bits, parity, stop bits, timeout\<close>

datatype build_error = NoIPAddress string | NoInterface string | UnknownProtocol string

definition BuildClient :: "connection \<Rightarrow> build_error + client_config" where
  "BuildClient c =
     (let timeout = c_TimeoutMs c * millisecond
      in if c_Protocol c = ''TCP'' then
           (if c_IPAddress c = [] then Inl (NoIPAddress (c_Name c))
            else Inr (TCPConfig (c_IPAddress c @ '':'' @ show_int (c_Port c)) timeout))
         else if c_Protocol c = ''RTU'' then
           (if c_Interface c = [] then Inl (NoInterface (c_Name c))
            else Inr (RTUConfig (c_Interface c) (c_BaudRate c) (c_DataBits c) (c_Parity c) (c_StopBits c) timeout))
         else Inl (UnknownProtocol (c_Protocol c)))"

section \<open>What a reading says\<close>

text \<open>A reading carries a value exactly when its quality is \<open>Good\<close>, the value is a canonical \<open>float64\<close>, and the reading
  names a configured data point.\<close>

definition consistent :: "acq_reading \<Rightarrow> bool" where
  "consistent r \<longleftrightarrow> (a_Value r = None) = (a_Quality r \<noteq> Good) \<and> pred_option f64_wf (a_Value r)"

lemma f64_wf_ApplyScale: "f64_wf (ApplyScale fused raw scale ofs)"
  by (simp add: ApplyScale_def f64_wf_fma f64_wf_add)

definition reading_of :: "device \<Rightarrow> datapoint \<Rightarrow> acq_reading \<Rightarrow> bool" where
  "reading_of d dp r \<longleftrightarrow> a_DeviceID r = d_ID d \<and> a_DeviceName r = d_Name d \<and> a_DatapointID r = dp_ID dp \<and>
     a_Tag r = dp_TagName dp \<and> a_Unit r = dp_Unit dp \<and> a_Priority r = dp_Priority dp"

definition honest :: "device_points list \<Rightarrow> acq_event \<Rightarrow> bool" where
  "honest ds e = (case e of
       Emit r \<Rightarrow> consistent r \<and> (\<exists>(d, dps) \<in> set ds. \<exists>dp \<in> set dps. reading_of d dp r)
     | _ \<Rightarrow> True)"

lemma QualityFromError_Some [simp]: "QualityFromError (Some e) \<noteq> Good"
  by (simp add: QualityFromError_def Let_def)

lemma badReading_ok [simp]: "reading_of d dp (badReading d dp t q)" "q \<noteq> Good \<Longrightarrow> consistent (badReading d dp t q)"
  by (simp_all add: badReading_def reading_of_def consistent_def)

lemma decodeAndEmit_ok [simp]:
  "consistent (decodeAndEmit fused d dp raw a t)" "reading_of d dp (decodeAndEmit fused d dp raw a t)"
  by (simp_all add: decodeAndEmit_def Let_def badReading_def consistent_def reading_of_def f64_wf_ApplyScale split: sum.split)

lemma ReadWithRetry_once:
  "ReadWithRetry ctx cl fc a q 0 st = (case cl_read cl fc a q st of
      (Inr raw, st') \<Rightarrow> ((raw, 1, None), st')
    | (Inl e, st') \<Rightarrow> (([], 1, Some (case ctx st' of Some ce \<Rightarrow> ce | None \<Rightarrow> e)), st'))"
  by (simp add: ReadWithRetry_def read_loop.simps split: prod.split sum.split option.split)

text \<open>The readings, counters and client state of one block.\<close>

definition block_readings ::
  "bool \<Rightarrow> device \<Rightarrow> gotime \<Rightarrow> go_error + byte list \<Rightarrow> read_block \<Rightarrow> acq_reading list" where
  "block_readings fused d t res b = (case res of
       Inl e \<Rightarrow> map (\<lambda>dp. badReading d dp t (QualityFromError (Some e))) (b_points b)
     | Inr raw \<Rightarrow> map (\<lambda>dp. decodeAndEmit fused d dp raw (b_startAddress b) t) (b_points b))"

definition block_result :: "'c ctx \<Rightarrow> 'c client \<Rightarrow> read_block \<Rightarrow> 'c \<Rightarrow> (go_error + byte list) \<times> 'c" where
  "block_result ctx cl b st = (case cl_read cl (b_functionCode b) (b_startAddress b) (b_quantity b) st of
       (Inr raw, st') \<Rightarrow> (Inr raw, st')
     | (Inl e, st') \<Rightarrow> (Inl (case ctx st' of Some ce \<Rightarrow> ce | None \<Rightarrow> e), st'))"

definition result_quality :: "go_error + 'a \<Rightarrow> quality" where
  "result_quality res = QualityFromError (case res of Inl e \<Rightarrow> Some e | Inr _ \<Rightarrow> None)"

lemma read_blocks_Cons:
  "read_blocks ctx cl fused d t el (b # bs) k n diag st =
     (case block_result ctx cl b st of (res, st') \<Rightarrow>
      case read_blocks ctx cl fused d t el bs (Suc k) (n + int (length (b_points b)))
             (map_option (RecordResult (result_quality res) (el k) 1) diag) st' of
        ((rs, n', k'), diag', st'') \<Rightarrow> ((block_readings fused d t res b @ rs, n', k'), diag', st''))"
  by (simp add: ReadWithRetry_once block_result_def block_readings_def result_quality_def
      split: prod.split sum.split option.split)

declare read_blocks.simps(2) [simp del]

lemma block_readings_ok:
  assumes "r \<in> set (block_readings fused d t res b)"
  shows "consistent r \<and> (\<exists>dp \<in> set (b_points b). reading_of d dp r)"
  using assms by (auto simp: block_readings_def split: sum.splits intro: badReading_ok decodeAndEmit_ok)

lemma read_blocks_ok:
  assumes "read_blocks ctx cl fused d t el bs k n diag st = ((rs, n', k'), diag', st')" "r \<in> set rs"
  shows "consistent r \<and> (\<exists>dp \<in> set (points_of bs). reading_of d dp r)"
  using assms
proof (induction bs arbitrary: k n diag st rs)
  case (Cons b bs)
  then show ?case
    by (fastforce simp: read_blocks_Cons split: prod.splits dest: block_readings_ok)
qed simp

lemma plan_points_subset: "sql_order srt \<Longrightarrow> set (points_of (planBlockReads fcs srt dps)) \<subseteq> set dps"
proof -
  assume ord: "sql_order srt"
  have "set (points_of (plan_group srt fc g)) \<subseteq> set g" for fc g
    using set_eq_of_mset [OF points_plan_group [OF ord, of fc g]] by auto
  then show ?thesis by (fastforce simp: planBlockReads_def points_of_concat)
qed

lemma readDevice_ok:
  assumes "sql_order srt" "readDevice ctx cl fused fcs srt el d dps t diag st = ((rs, n, k), diag', st')" "r \<in> set rs"
  shows "consistent r \<and> (\<exists>dp \<in> set dps. reading_of d dp r)"
  using read_blocks_ok [OF assms(2) [unfolded readDevice_def] assms(3)] plan_points_subset [OF assms(1)] by blast

definition sorting :: "'c pass_env \<Rightarrow> bool" where
  \<comment> \<open>\<open>sort.Slice\<close> sorts, and the map of the planner is ranged over key by key\<close>
  "sorting env \<longleftrightarrow> sql_order (v_sort env) \<and> (\<forall>dps. fc_order (v_fcs env dps) dps)"

lemma honest_simps [simp]:
  "honest ds (PollCycle i ms n k t)" "honest ds (Waited w)" "honest ds Closed"
  by (simp_all add: honest_def)

lemma scan_devices_honest:
  assumes "sorting env" "scan_devices fused cl env dly k ds s = (go, evs, s')" "set ds \<subseteq> set all"
  shows "list_all (honest all) evs"
  using assms(2,3)
proof (induction ds arbitrary: k s go evs s')
  case Nil
  then show ?case by simp
next
  case (Cons p ds)
  obtain d dps where p: "p = (d, dps)" by fastforce
  obtain rs n m diag st where
    rd: "readDevice (v_ctx env) cl fused (v_fcs env dps) (v_sort env) (v_elapsed env k) d dps (v_now env (Suc k))
       (s_diag s) (cl_set_unit cl (of_int (d_SlaveID d)) (s_client s)) = ((rs, n, m), diag, st)"
    by (metis prod.exhaust_sel)
  have rs: "honest all (Emit r)" if "r \<in> set rs" for r
    using readDevice_ok [OF _ rd that] assms(1) Cons.prems(2) p by (fastforce simp: honest_def sorting_def)
  show ?case
    using Cons.prems rs
    by (auto simp: p rd Let_def list_all_iff split: if_splits prod.splits dest!: Cons.IH)
qed

lemma emitDeviceOffline_honest: "(d, dps) \<in> set ds \<Longrightarrow> r \<in> set (emitDeviceOffline d dps t err) \<Longrightarrow> honest ds (Emit r)"
  by (auto simp: emitDeviceOffline_def honest_def intro!: bexI [of _ "(d, dps)"] badReading_ok)

lemma scan_pass_honest:
  assumes "sorting env" "scan_pass fused cl conn ds env s = (go, evs, s')"
  shows "list_all (honest ds) evs"
  using assms(2)
  by (fastforce simp: scan_pass_def Let_def list_all_iff split: if_splits option.splits prod.splits bool.splits
      dest: emitDeviceOffline_honest scan_devices_honest [OF assms(1) _ order_refl])


lemma run_honest:
  assumes "\<forall>env \<in> set envs. sorting env" "runConnectionWithClient fused cl conn ds envs s = (go, evs, s')"
  shows "list_all (honest ds) evs"
  using assms
proof (induction envs arbitrary: s go evs s')
  case (Cons env envs)
  obtain go1 evs1 s1 where p: "scan_pass fused cl conn ds env s = (go1, evs1, s1)" by (metis prod_cases3)
  have "list_all (honest ds) evs1" using Cons.prems(1) p by (intro scan_pass_honest) auto
  then show ?case
    using Cons by (fastforce simp: p split: bool.splits prod.splits)
qed simp

section \<open>The client is closed once, when the poller stops\<close>

definition closed_at_end :: "bool \<Rightarrow> acq_event list \<Rightarrow> bool" where
  "closed_at_end go evs \<longleftrightarrow> (if go then Closed \<notin> set evs else \<exists>us. evs = us @ [Closed] \<and> Closed \<notin> set us)"

lemma closed_at_end_True [simp]: "closed_at_end True evs \<longleftrightarrow> Closed \<notin> set evs"
  by (simp add: closed_at_end_def)

lemma closed_at_end_single [simp]: "closed_at_end False [Closed]"
  by (simp add: closed_at_end_def)

lemma closed_at_end_Cons [simp]: "e \<noteq> Closed \<Longrightarrow> closed_at_end go (e # evs) = closed_at_end go evs"
  by (cases go) (auto simp: closed_at_end_def Cons_eq_append_conv)

lemma closed_at_end_append [simp]: "Closed \<notin> set evs \<Longrightarrow> closed_at_end go (evs @ evs') = closed_at_end go evs'"
  by (induction evs) auto

lemma Closed_not_Emit [simp]: "Closed \<notin> Emit ` R"
  by auto

lemma scan_devices_closed:
  "scan_devices fused cl env dly k ds s = (go, evs, s') \<Longrightarrow> closed_at_end go evs"
proof (induction ds arbitrary: k s go evs s')
  case (Cons p ds)
  obtain d dps where p: "p = (d, dps)" by fastforce
  show ?case
    using Cons.prems by (auto simp: p Let_def split: if_splits prod.splits dest!: Cons.IH)
qed simp

lemma scan_pass_closed:
  assumes "scan_pass fused cl conn ds env s = (go, evs, s')"
  shows "closed_at_end go evs"
  using assms
  by (auto simp: scan_pass_def Let_def split: if_splits option.splits prod.splits bool.splits
      dest!: scan_devices_closed)

lemma run_closed:
  "runConnectionWithClient fused cl conn ds envs s = (go, evs, s') \<Longrightarrow> closed_at_end go evs"
proof (induction envs arbitrary: s go evs s')
  case (Cons env envs)
  then show ?case
    by (auto split: bool.splits prod.splits dest!: scan_pass_closed)
qed simp

section \<open>Counting\<close>

lemma block_readings_ids: "map a_DatapointID (block_readings fused d t res b) = map dp_ID (b_points b)"
proof -
  have "a_DatapointID (decodeAndEmit fused d dp raw a t) = dp_ID dp" for dp raw a
    using decodeAndEmit_ok(2) [of d dp fused raw a t] by (simp add: reading_of_def)
  then show ?thesis by (simp add: block_readings_def badReading_def split: sum.split)
qed

lemma RecordResult_tx [simp]: "g_tx (RecordResult q dur 1 g) = g_tx g + 1"
  "g_retries (RecordResult q dur 1 g) = g_retries g"
  by (simp_all add: RecordResult_def Let_def split: quality.split)

definition answered :: "diag_store \<Rightarrow> int" where
  \<comment> \<open>requests whose outcome has a counter of its own\<close>
  "answered g = g_rx g + g_timeouts g + g_crcErrors g"

definition diag_inv :: "diag_store \<Rightarrow> bool" where
  "diag_inv g \<longleftrightarrow> answered g \<le> g_tx g \<and> g_responseCount g = g_rx g \<and> 0 \<le> g_rx g \<and> 0 \<le> g_timeouts g \<and>
     0 \<le> g_crcErrors g \<and> 0 \<le> g_retries g \<and> g_retries g \<le> g_tx g"

lemma diag_inv_new: "diag_inv new_diag"
  by (simp add: diag_inv_def answered_def new_diag_def)

lemma diag_inv_RecordResult: "diag_inv g \<Longrightarrow> diag_inv (RecordResult q dur attempts g)"
  by (auto simp: diag_inv_def answered_def RecordResult_def Let_def split: quality.split)

definition counted :: "nat \<Rightarrow> diag_store option \<Rightarrow> diag_store option \<Rightarrow> bool" where
  \<comment> \<open>\<open>m\<close> requests went into the counters (if there are any)\<close>
  "counted m = rel_option (\<lambda>g g'. g_tx g' = g_tx g + int m \<and> g_retries g' = g_retries g \<and> (diag_inv g \<longrightarrow> diag_inv g'))"

lemma counted_0 [simp]: "counted 0 diag diag"
  by (cases diag) (simp_all add: counted_def)

lemma counted_Suc: "counted m (map_option (RecordResult q dur 1) diag) diag' \<Longrightarrow> counted (Suc m) diag diag'"
  by (cases diag; cases diag') (auto simp: counted_def diag_inv_RecordResult)

lemma read_blocks_counts:
  assumes "read_blocks ctx cl fused d t el bs k n diag st = ((rs, n', k'), diag', st')"
  shows "map a_DatapointID rs = map dp_ID (points_of bs) \<and> n' = n + int (length (points_of bs)) \<and>
    k' = k + length bs \<and> counted (length bs) diag diag'"
  using assms
proof (induction bs arbitrary: k n diag st rs)
  case (Cons b bs)
  obtain res st1 where b: "block_result ctx cl b st = (res, st1)" by fastforce
  obtain rs1 where rs: "rs = block_readings fused d t res b @ rs1"
    and r: "read_blocks ctx cl fused d t el bs (Suc k) (n + int (length (b_points b)))
      (map_option (RecordResult (result_quality res) (el k) 1) diag) st1 = ((rs1, n', k'), diag', st')"
    using Cons.prems b by (auto simp: read_blocks_Cons split: prod.splits)
  from Cons.IH [OF r] counted_Suc show ?case by (fastforce simp: rs block_readings_ids)
qed simp

section \<open>Block reads of a register bank\<close>

text \<open>The contents of the registers of a device.\<close>

type_synonym image = "functionCode \<Rightarrow> nat \<Rightarrow> byte list"

definition register_bytes :: "image \<Rightarrow> functionCode \<Rightarrow> nat \<Rightarrow> nat \<Rightarrow> byte list" where
  \<comment> \<open>the bytes of the registers \<open>i\<close> to \<open>j - 1\<close>\<close>
  "register_bytes mem fc i j = concat (map (mem fc) [i..<j])"

definition own_registers :: "image \<Rightarrow> datapoint \<Rightarrow> byte list" where
  "own_registers mem dp = register_bytes mem (dp_FunctionCode dp) (reg_start dp) (reg_end dp)"

text \<open>Every register has two bytes.\<close>

locale register_image =
  fixes mem :: image
  assumes two_bytes: "length (mem fc i) = 2"
begin

lemma length_span [simp]: "length (register_bytes mem fc i j) = 2 * (j - i)"
  by (simp add: register_bytes_def length_concat two_bytes o_def sum_list_triv)

lemma span_split: "i \<le> j \<Longrightarrow> j \<le> k \<Longrightarrow> register_bytes mem fc i k = register_bytes mem fc i j @ register_bytes mem fc j k"
  using upt_add_eq_append [of i j "k - j"] by (simp add: register_bytes_def)

lemma span_slice:
  assumes "i \<le> a" "a \<le> b" "b \<le> j"
  shows "take (2 * (b - a)) (drop (2 * (a - i)) (register_bytes mem fc i j)) = register_bytes mem fc a b"
proof -
  have "register_bytes mem fc i j = register_bytes mem fc i a @ register_bytes mem fc a b @ register_bytes mem fc b j"
    using assms span_split [of i a j fc] span_split [of a b j fc] by simp
  then show ?thesis by simp
qed

lemma decode_from_block:
  assumes "covers b" "dp \<in> set (b_points b)" "known dp" "b_functionCode b = dp_FunctionCode dp"
  shows "decodeAndEmit fused d dp (register_bytes mem (b_functionCode b) (block_start b) (block_end b)) (b_startAddress b) t =
    decodeAndEmit fused d dp (own_registers mem dp) (dp_RegisterAddress dp) t"
proof -
  obtain q where q: "RegisterCount (dp_DataType dp) = Inr q" using assms(3) known_iff by blast
  have w: "ByteWidth (dp_DataType dp) = Inr (2 * regs dp)"
    using RegisterCount_ByteWidth [OF q] regs_eq [OF q] by simp
  have le: "block_start b \<le> reg_start dp" "reg_end dp \<le> block_end b" using assms(1,2) by (auto simp: covers_def)
  have off: "unat (dp_RegisterAddress dp - b_startAddress b) = reg_start dp - block_start b"
    using le(1) unat_diff by (simp add: reg_start_def block_start_def word_le_nat_alt)
  have len: "(reg_start dp - block_start b) * 2 + 2 * regs dp \<le> 2 * (block_end b - block_start b)"
    using le by (simp add: reg_end_def)
  have sl: "take (2 * regs dp) (drop ((reg_start dp - block_start b) * 2)
      (register_bytes mem (dp_FunctionCode dp) (block_start b) (block_end b))) = own_registers mem dp"
    using span_slice [OF le(1) _ le(2), of "dp_FunctionCode dp"]
    by (simp add: reg_end_def own_registers_def mult.commute)
  have own: "length (own_registers mem dp) = 2 * regs dp" by (simp add: own_registers_def reg_end_def)
  show ?thesis using len
    by (simp add: decodeAndEmit_def w off own sl assms(4) Let_def)
qed

end

text \<open>A device whose holding and input registers do not change during a pass: a request within the bank
  is answered with the registers asked for.\<close>

locale register_bank = register_image mem for cl :: "'c client" and mem :: image +
  fixes bank_size :: "functionCode \<Rightarrow> nat"
  assumes bank_read: "\<lbrakk>fc \<in> {3, 4}; 0 < q; q \<le> maxRegistersPerBlock; unat a + unat q \<le> bank_size fc\<rbrakk> \<Longrightarrow>
      fst (cl_read cl fc a q st) = Inr (register_bytes mem fc (unat a) (unat a + unat q))"
begin

lemma block_result_bank:
  assumes "good_block b" "b_functionCode b \<in> {3, 4}" "block_end b \<le> bank_size (b_functionCode b)"
  shows "fst (block_result ctx cl b st) = Inr (register_bytes mem (b_functionCode b) (block_start b) (block_end b))"
proof -
  have "fst (cl_read cl (b_functionCode b) (b_startAddress b) (b_quantity b) st) =
      Inr (register_bytes mem (b_functionCode b) (block_start b) (block_end b))"
    using assms bank_read [of "b_functionCode b" "b_quantity b" "b_startAddress b" st]
    by (simp add: good_block_def block_end_def block_start_def)
  then show ?thesis
    by (cases "cl_read cl (b_functionCode b) (b_startAddress b) (b_quantity b) st") (simp add: block_result_def)
qed

lemma read_blocks_bank:
  assumes "\<forall>b \<in> set bs. good_block b \<and> covers b \<and> b_functionCode b \<in> {3, 4} \<and> block_end b \<le> bank_size (b_functionCode b) \<and>
      list_all known (b_points b)"
    and "read_blocks ctx cl fused d t el bs k n diag st = ((rs, n', k'), diag', st')"
  shows "rs = map (\<lambda>dp. decodeAndEmit fused d dp (own_registers mem dp) (dp_RegisterAddress dp) t) (points_of bs)"
  using assms
proof (induction bs arbitrary: k n diag st rs)
  case (Cons b bs)
  then obtain st1 where b: "block_result ctx cl b st = (Inr (register_bytes mem (b_functionCode b) (block_start b) (block_end b)), st1)"
    using block_result_bank [of b ctx st] by (cases "block_result ctx cl b st") auto
  have "block_readings fused d t (Inr (register_bytes mem (b_functionCode b) (block_start b) (block_end b))) b =
      map (\<lambda>dp. decodeAndEmit fused d dp (own_registers mem dp) (dp_RegisterAddress dp) t) (b_points b)"
    unfolding block_readings_def sum.case
  proof (rule map_cong [OF refl])
    fix dp assume "dp \<in> set (b_points b)"
    with Cons.prems(1) show "decodeAndEmit fused d dp (register_bytes mem (b_functionCode b) (block_start b) (block_end b))
        (b_startAddress b) t = decodeAndEmit fused d dp (own_registers mem dp) (dp_RegisterAddress dp) t"
      by (intro decode_from_block) (auto simp: good_block_def list_all_iff)
  qed
  with Cons b show ?case by (auto simp: read_blocks_Cons split: prod.splits)
qed simp

text \<open>Whatever blocks the planner chose, the device yields the readings its data points would have given
  if each had been read alone.\<close>

lemma readDevice_bank:
  assumes "sql_order srt" "fc_order fcs dps"
    and "\<forall>dp \<in> set dps. dp_FunctionCode dp \<in> {3, 4} \<and> reg_end dp \<le> bank_size (dp_FunctionCode dp) \<and> reg_end dp < 2 ^ 16"
    and "readDevice ctx cl fused fcs srt el d dps t diag st = ((rs, n, k), diag', st')"
  shows "mset rs = mset (map (\<lambda>dp. decodeAndEmit fused d dp (own_registers mem dp) (dp_RegisterAddress dp) t) (filter known dps))"
proof -
  let ?bs = "planBlockReads fcs srt dps"
  have pts: "set (points_of ?bs) = set (filter known dps)"
    using set_eq_of_mset [OF plan_points [OF assms(1,2)]] .
  have "good_block b \<and> covers b \<and> b_functionCode b \<in> {3, 4} \<and> block_end b \<le> bank_size (b_functionCode b) \<and>
      list_all known (b_points b)" if b: "b \<in> set ?bs" for b
  proof -
    have g: "good_block b" and c: "covers b"
      using plan_good [OF assms(1) b] plan_covers [OF assms(1) _ b] assms(3) by auto
    have sub: "set (b_points b) \<subseteq> set (filter known dps)" using b pts by (auto simp: points_of_def)
    obtain dp where dp: "dp \<in> set (b_points b)" "reg_end dp = block_end b"
      using plan_tight [OF assms(1) _ b] assms(3) by auto
    then have "dp \<in> set dps" "b_functionCode b = dp_FunctionCode dp" using sub g by (auto simp: good_block_def)
    with assms(3) dp g c sub show ?thesis by (auto simp: list_all_iff)
  qed
  then have "rs = map (\<lambda>dp. decodeAndEmit fused d dp (own_registers mem dp) (dp_RegisterAddress dp) t) (points_of ?bs)"
    using read_blocks_bank assms(4) unfolding readDevice_def by blast
  then show ?thesis using plan_points [OF assms(1,2)] by (metis mset_map)
qed

end

section \<open>Several slaves behind one client\<close>

text \<open>A reading of a register point was decoded from the point's own registers in one of the given images.\<close>

definition from_slave :: "bool \<Rightarrow> device \<Rightarrow> gotime \<Rightarrow> image set \<Rightarrow> datapoint \<Rightarrow> acq_reading \<Rightarrow> bool" where
  "from_slave fused d t ms dp r \<longleftrightarrow> reading_of d dp r \<and> (a_Value r \<noteq> None \<longrightarrow> dp_FunctionCode dp \<in> {3, 4} \<longrightarrow>
     (\<exists>m \<in> ms. r = decodeAndEmit fused d dp (own_registers m dp) (dp_RegisterAddress dp) t))"

definition measured :: "bool \<Rightarrow> (byte \<Rightarrow> image set) \<Rightarrow> device_points list \<Rightarrow> acq_event \<Rightarrow> bool" where
  \<comment> \<open>unless a data point of the device lies at the very end of the address space\<close>
  "measured fused images ds e = (case e of
       Emit r \<Rightarrow> (\<exists>(d, dps) \<in> set ds. \<exists>dp \<in> set dps. reading_of d dp r \<and>
         ((\<forall>p \<in> set dps. reg_end p < 2 ^ 16) \<longrightarrow> (\<exists>t. from_slave fused d t (images (of_int (d_SlaveID d))) dp r)))
     | _ \<Rightarrow> True)"

lemma measured_simps [simp]:
  "measured fused images ds (PollCycle i ms n k t)" "measured fused images ds (Waited w)" "measured fused images ds Closed"
  by (simp_all add: measured_def)

lemma measured_offline:
  "(d, dps) \<in> set ds \<Longrightarrow> r \<in> set (emitDeviceOffline d dps t err) \<Longrightarrow> measured fused images ds (Emit r)"
  by (auto simp: emitDeviceOffline_def measured_def from_slave_def badReading_def reading_of_def intro!: bexI [of _ "(d, dps)"])

text \<open>What a client promises about the bus it is connected to. The unit that was set last is the one that is read, and a read either
  fails or returns registers of that slave as they were at one moment: \<open>images u\<close> are the register contents slave \<open>u\<close> has at the
  moments it may be read.\<close>

locale slave_bus =
  fixes cl :: "'c client" and unit_of :: "'c \<Rightarrow> byte" and images :: "byte \<Rightarrow> image set"
  assumes images_two_bytes: "m \<in> images u \<Longrightarrow> register_image m"
    and set_unit: "unit_of (cl_set_unit cl u st) = u"
    and read_unit: "unit_of (snd (cl_read cl fc a q st)) = unit_of st"
    and truthful: "\<lbrakk>fc \<in> {3, 4}; 0 < q; unat a + unat q < 2 ^ 16; fst (cl_read cl fc a q st) = Inr raw\<rbrakk> \<Longrightarrow>
      \<exists>m \<in> images (unit_of st). raw = register_bytes m fc (unat a) (unat a + unat q)"
begin

lemma block_result_unit: "unit_of (snd (block_result ctx cl b st)) = unit_of st"
  using read_unit [of "b_functionCode b" "b_startAddress b" "b_quantity b" st]
  by (auto simp: block_result_def split: prod.split sum.split)

lemma block_reading_measured:
  assumes "good_block b" "covers b" "b_functionCode b \<in> {3, 4}" "list_all known (b_points b)" "dp \<in> set (b_points b)"
    "block_result ctx cl b st = (Inr raw, st')"
  shows "\<exists>m \<in> images (unit_of st). decodeAndEmit fused d dp raw (b_startAddress b) t =
    decodeAndEmit fused d dp (own_registers m dp) (dp_RegisterAddress dp) t"
proof -
  have "fst (cl_read cl (b_functionCode b) (b_startAddress b) (b_quantity b) st) = Inr raw"
    using assms(6) by (auto simp: block_result_def split: prod.splits sum.splits)
  moreover have "0 < b_quantity b" "unat (b_startAddress b) + unat (b_quantity b) < 2 ^ 16"
    using assms(1,2) by (simp_all add: good_block_def covers_def block_end_def block_start_def)
  ultimately obtain m where m: "m \<in> images (unit_of st)" "raw = register_bytes m (b_functionCode b) (block_start b) (block_end b)"
    using truthful [OF assms(3), of "b_quantity b" "b_startAddress b" st raw] by (auto simp: block_end_def block_start_def)
  have "b_functionCode b = dp_FunctionCode dp" "known dp" using assms(1,4,5) by (auto simp: good_block_def list_all_iff)
  with register_image.decode_from_block [OF images_two_bytes [OF m(1)] assms(2,5)] m show ?thesis by metis
qed

lemma block_readings_from_slave:
  assumes "good_block b" "covers b" "list_all known (b_points b)" "block_result ctx cl b st = (res, st')"
    "r \<in> set (block_readings fused d t res b)"
  shows "\<exists>dp \<in> set (b_points b). from_slave fused d t (images (unit_of st)) dp r"
proof (cases res)
  case (Inl e)
  with assms(5) show ?thesis by (auto simp: block_readings_def from_slave_def badReading_def reading_of_def)
next
  case (Inr raw)
  with assms(5) obtain dp where dp: "dp \<in> set (b_points b)" "r = decodeAndEmit fused d dp raw (b_startAddress b) t"
    by (auto simp: block_readings_def)
  have "b_functionCode b = dp_FunctionCode dp" using assms(1) dp(1) by (simp add: good_block_def)
  then have "from_slave fused d t (images (unit_of st)) dp r"
    using block_reading_measured [OF assms(1,2) _ assms(3) dp(1) assms(4) [unfolded Inr], of fused d t]
    unfolding from_slave_def dp(2) by auto
  with dp(1) show ?thesis by blast
qed

lemma read_blocks_from_slave:
  assumes "\<forall>b \<in> set bs. good_block b \<and> covers b \<and> list_all known (b_points b)"
    and "read_blocks ctx cl fused d t el bs k n diag st = ((rs, n', k'), diag', st')" "r \<in> set rs"
  shows "\<exists>dp \<in> set (points_of bs). from_slave fused d t (images (unit_of st)) dp r"
  using assms
proof (induction bs arbitrary: k n diag st rs)
  case (Cons b bs)
  obtain res st1 where b: "block_result ctx cl b st = (res, st1)" by fastforce
  have u: "unit_of st1 = unit_of st" using block_result_unit [of ctx b st] b by simp
  obtain rs1 where rs: "rs = block_readings fused d t res b @ rs1"
    and rest: "read_blocks ctx cl fused d t el bs (Suc k) (n + int (length (b_points b)))
      (map_option (RecordResult (result_quality res) (el k) 1) diag) st1 = ((rs1, n', k'), diag', st')"
    using Cons.prems(2) by (auto simp: read_blocks_Cons b split: prod.splits)
  show ?case
  proof (cases "r \<in> set rs1")
    case True
    with Cons.IH [OF _ rest True] Cons.prems(1) u show ?thesis by (auto simp: points_of_def)
  next
    case False
    with block_readings_from_slave [OF _ _ _ b, of r fused d t] Cons.prems(1,3) rs show ?thesis by (auto simp: points_of_def)
  qed
qed simp

lemma readDevice_from_slave:
  assumes "sql_order srt" "fc_order fcs dps" "\<forall>dp \<in> set dps. reg_end dp < 2 ^ 16"
    and "readDevice ctx cl fused fcs srt el d dps t diag st = ((rs, n, k), diag', st')" "r \<in> set rs"
  shows "\<exists>dp \<in> set dps. from_slave fused d t (images (unit_of st)) dp r"
proof -
  let ?bs = "planBlockReads fcs srt dps"
  have pts: "set (points_of ?bs) = set (filter known dps)"
    using set_eq_of_mset [OF plan_points [OF assms(1,2)]] .
  have "good_block b \<and> covers b \<and> list_all known (b_points b)" if b: "b \<in> set ?bs" for b
    using plan_good [OF assms(1) b] plan_covers [OF assms(1,3) b] pts b by (auto simp: points_of_def list_all_iff)
  then have "\<exists>dp \<in> set (points_of ?bs). from_slave fused d t (images (unit_of st)) dp r"
    using read_blocks_from_slave assms(4,5) unfolding readDevice_def by blast
  then show ?thesis using pts by auto
qed

lemma readDevice_measured:
  assumes "sorting env" "(d, dps) \<in> set ds" "unit_of st = of_int (d_SlaveID d)"
    and "readDevice ctx cl fused (v_fcs env dps) (v_sort env) el d dps t diag st = ((rs, n, k), diag', st')" "r \<in> set rs"
  shows "measured fused images ds (Emit r)"
proof (cases "\<forall>p \<in> set dps. reg_end p < 2 ^ 16")
  case True
  have "sql_order (v_sort env)" "fc_order (v_fcs env dps) dps" using assms(1) by (simp_all add: sorting_def)
  from readDevice_from_slave [OF this True assms(4,5)] obtain dp where "dp \<in> set dps" "from_slave fused d t (images (of_int (d_SlaveID d))) dp r"
    using assms(3) by auto
  moreover from this(2) have "reading_of d dp r" by (simp add: from_slave_def)
  ultimately show ?thesis using assms(2) by (auto simp: measured_def intro!: bexI [of _ "(d, dps)"])
next
  case False
  have "sql_order (v_sort env)" using assms(1) by (simp add: sorting_def)
  from readDevice_ok [OF this assms(4,5)] obtain dp where "dp \<in> set dps" "reading_of d dp r" by blast
  with False assms(2) show ?thesis by (auto simp: measured_def intro!: bexI [of _ "(d, dps)"])
qed

lemma scan_devices_measured:
  assumes "sorting env" "scan_devices fused cl env dly k ds s = (go, evs, s')" "set ds \<subseteq> set all"
  shows "list_all (measured fused images all) evs"
  using assms(2,3)
proof (induction ds arbitrary: k s go evs s')
  case Nil
  then show ?case by simp
next
  case (Cons p ds)
  obtain d dps where p: "p = (d, dps)" by fastforce
  obtain rs n m diag st where
    rd: "readDevice (v_ctx env) cl fused (v_fcs env dps) (v_sort env) (v_elapsed env k) d dps (v_now env (Suc k))
       (s_diag s) (cl_set_unit cl (of_int (d_SlaveID d)) (s_client s)) = ((rs, n, m), diag, st)"
    by (metis prod.exhaust_sel)
  have rs: "measured fused images all (Emit r)" if "r \<in> set rs" for r
    using readDevice_measured [OF assms(1) _ set_unit rd that] Cons.prems(2) p by simp
  show ?case
    using Cons.prems rs
    by (auto simp: p rd Let_def list_all_iff split: if_splits prod.splits dest!: Cons.IH)
qed

lemma scan_pass_measured:
  assumes "sorting env" "scan_pass fused cl conn ds env s = (go, evs, s')"
  shows "list_all (measured fused images ds) evs"
  using assms(2)
  by (fastforce simp: scan_pass_def Let_def list_all_iff split: if_splits option.splits prod.splits bool.splits
      dest: measured_offline scan_devices_measured [OF assms(1) _ order_refl])

end

section \<open>Properties of the poller\<close>

text \<open>C18: in every run of a poller, with any client (failing or not), any clock and any cancellation, each emitted
  reading carries a value exactly when its quality is GOOD, so no stale value is reported, and it names a device and one
  of the data points the poller was started with.\<close>

theorem readings_honest:
  assumes "\<forall>env \<in> set envs. sorting env"
    and "runConnectionWithClient fused cl conn ds envs s = (go, evs, s')" "Emit r \<in> set evs"
  shows "(a_Value r = None) = (a_Quality r \<noteq> Good) \<and>
    (\<exists>d dps dp. (d, dps) \<in> set ds \<and> dp \<in> set dps \<and> a_DeviceID r = d_ID d \<and> a_DatapointID r = dp_ID dp \<and>
       a_Tag r = dp_TagName dp \<and> a_Unit r = dp_Unit dp \<and> a_Priority r = dp_Priority dp)"
proof -
  have "honest ds (Emit r)" using run_honest [OF assms(1,2)] assms(3) by (auto simp: list_all_iff)
  then show ?thesis by (auto simp: honest_def consistent_def reading_of_def)
qed

definition plain_env :: "'c pass_env" where
  \<comment> \<open>nothing is cancelled, every wait completes\<close>
  "plain_env = \<lparr>v_cancelled = (\<lambda>_. False), v_completes = (\<lambda>_. True), v_now = (\<lambda>k. int k), v_elapsed = (\<lambda>_ _. 0),
     v_poll_ms = (\<lambda>_. 0), v_fcs = (\<lambda>dps. remdups (map dp_FunctionCode dps)), v_sort = sort_key, v_ctx = (\<lambda>_. None)\<rparr>"

lemma sorting_plain: "sorting plain_env"
  by (simp add: sorting_def plain_env_def stable.sql_order_axioms fc_order_def)

definition zero_client :: "unit client" where
  \<comment> \<open>a device all of whose registers are 0\<close>
  "zero_client = \<lparr>cl_connect = (\<lambda>st. (None, st)), cl_close = (\<lambda>st. (None, st)), cl_set_unit = (\<lambda>_ st. st),
     cl_read = (\<lambda>fc a q st. (Inr (replicate (2 * unat q) 0), st))\<rparr>"

definition start_state :: "'c \<Rightarrow> 'c scan_state" where
  "start_state st = \<lparr>s_connected = False, s_diag = Some new_diag, s_client = st\<rparr>"

lemma zero_run:
  "runConnectionWithClient False zero_client sample_conn [(sample_dev, [sample_dp])] [plain_env] (start_state ()) =
     (True, [Emit (decodeAndEmit False sample_dev sample_dp [0, 0] (dp_RegisterAddress sample_dp) 1),
             PollCycle (d_ID sample_dev) 0 1 1 1, Waited (250 * millisecond), Waited cycleYieldDelay],
      \<lparr>s_connected = True, s_diag = Some (RecordResult Good 0 1 new_diag), s_client = ()\<rparr>)"
  by (simp add: scan_pass_def start_state_def zero_client_def plain_env_def readDevice_def planBlockReads_def plan_group_def
      read_blocks_Cons block_result_def block_readings_def result_quality_def QualityFromError_def RegisterCount_def
      ByteWidth_def flush_def wait_for_def Let_def sample_dp_def sample_dev_def sample_conn_def cycleYieldDelay_def
      reconnectFloorDelay_def millisecond_def numeral_2_eq_2)

theorem readings_honest_witness:
  "a_Quality (decodeAndEmit False sample_dev sample_dp [0, 0] (dp_RegisterAddress sample_dp) 1) = Good \<and>
   a_Value (decodeAndEmit False sample_dev sample_dp [0, 0] (dp_RegisterAddress sample_dp) 1) \<noteq> None"
proof -
  let ?r = "decodeAndEmit False sample_dev sample_dp [0, 0] (dp_RegisterAddress sample_dp) 1"
  have "a_Quality ?r = Good"
    by (simp add: decodeAndEmit_def sample_dp_def ByteWidth_def Decode_def reorder_def Let_def)
  moreover have "(a_Value ?r = None) = (a_Quality ?r \<noteq> Good)"
    using readings_honest [OF _ zero_run, of ?r] by (simp add: sorting_plain)
  ultimately show ?thesis by simp
qed



text \<open>C20: a poller whose context is cancelled terminates: it returns in the first pass that finds it cancelled at the
  latest, whatever would come after. A poller that has returned closed its client exactly once, as the last thing it
  did; one that is still running has not closed it.\<close>

theorem poller_terminates:
  assumes "v_cancelled env 0"
  shows "\<exists>us s'. runConnectionWithClient fused cl conn ds (envs @ env # rest) s = (False, us @ [Closed], s') \<and>
    Closed \<notin> set us \<and> runConnectionWithClient fused cl conn ds (envs @ [env]) s = (False, us @ [Closed], s')"
proof -
  have stop: "fst (runConnectionWithClient fused cl conn ds (envs @ env # rest) s) = False \<and>
      runConnectionWithClient fused cl conn ds (envs @ env # rest) s = runConnectionWithClient fused cl conn ds (envs @ [env]) s"
  proof (induction envs arbitrary: s)
    case Nil
    then show ?case by (simp add: scan_pass_def assms)
  next
    case (Cons e envs)
    obtain go evs s1 where "scan_pass fused cl conn ds e s = (go, evs, s1)" by (metis prod_cases3)
    with Cons [of s1] show ?case by (cases go) (auto split: prod.splits)
  qed
  obtain evs s' where r: "runConnectionWithClient fused cl conn ds (envs @ env # rest) s = (False, evs, s')"
    using stop by (metis prod.exhaust_sel)
  from run_closed [OF r] obtain us where "evs = us @ [Closed]" "Closed \<notin> set us" by (auto simp: closed_at_end_def)
  with r stop show ?thesis by auto
qed

theorem poller_terminates_witness:
  "\<exists>us s'. runConnectionWithClient False zero_client sample_conn [] [plain_env, plain_env\<lparr>v_cancelled := \<lambda>_. True\<rparr>] (start_state ()) =
     (False, us @ [Closed], s')"
  using poller_terminates [of "plain_env\<lparr>v_cancelled := \<lambda>_. True\<rparr>" False zero_client sample_conn "[]" "[plain_env]" "[]" "start_state ()"]
  by auto

text \<open>One pass over a device emits exactly one reading for each of its data points of known type, whatever the
  client answers; the number of data points it reports is theirs, the number of block reads is that of the plan, and
  the diagnostics count one transmitted request for each block read.\<close>

theorem readDevice_counts:
  assumes "sql_order srt" "fc_order fcs dps"
    and "readDevice ctx cl fused fcs srt el d dps t (Some g) st = ((rs, n, k), diag, st')"
  shows "mset (map a_DatapointID rs) = mset (map dp_ID (filter known dps)) \<and> n = int (length (filter known dps)) \<and>
    k = length (planBlockReads fcs srt dps) \<and> k \<le> length (filter known dps) \<and>
    (\<exists>g'. diag = Some g' \<and> g_tx g' = g_tx g + int k)"
proof -
  let ?bs = "planBlockReads fcs srt dps"
  have c: "map a_DatapointID rs = map dp_ID (points_of ?bs) \<and> n = int (length (points_of ?bs)) \<and> k = length ?bs \<and>
      counted (length ?bs) (Some g) diag"
    using read_blocks_counts [OF assms(3) [unfolded readDevice_def]] by simp
  have m: "mset (points_of ?bs) = mset (filter known dps)" by (rule plan_points) fact+
  have l: "length (points_of ?bs) = length (filter known dps)" using m by (metis size_mset)
  have "length ?bs \<le> length (points_of ?bs)"
    using plan_good [OF assms(1)] by (intro blocks_le_points) (auto simp: good_block_def)
  moreover have "mset (map a_DatapointID rs) = mset (map dp_ID (filter known dps))"
    using c m by (metis mset_map)
  ultimately show ?thesis using c l by (cases diag) (auto simp: counted_def)
qed

theorem readDevice_counts_witness:
  "case readDevice (\<lambda>_. None) zero_client False [4] sort_key (\<lambda>_. 0) sample_dev near_points 0 (Some new_diag) () of
     ((rs, n, k), diag, st) \<Rightarrow> n = 2 \<and> k = 1 \<and> (\<exists>g. diag = Some g \<and> g_tx g = 1)"
proof -
  obtain rs n k diag st where r: "readDevice (\<lambda>_. None) zero_client False [4] sort_key (\<lambda>_. 0) sample_dev near_points 0
      (Some new_diag) () = ((rs, n, k), diag, st)" by (metis prod.exhaust_sel)
  have f: "fc_order [4] near_points" by (simp add: fc_order_def near_points_def sample_dp_def)
  have p: "length (planBlockReads [4] sort_key near_points) = 1"
    by (simp add: planBlockReads_def plan_group_def near_points_def sample_dp_def RegisterCount_def ByteWidth_def
        fits_def extend_def flush_def maxGapRegisters_def maxRegistersPerBlock_def)
  have kn: "filter known near_points = near_points" by (simp add: near_points_def known_def sample_dp_def ByteWidth_def)
  have "length near_points = 2" "g_tx new_diag = 0" by (simp_all add: near_points_def new_diag_def)
  with readDevice_counts [OF stable.sql_order_axioms f r] p kn show ?thesis by (auto simp: r)
qed

text \<open>A configuration that passed validation always yields a client, for the address or the serial interface it
  names.\<close>

lemma BuildClient_total:
  assumes "Validate_connection c = None"
  shows "(c_Protocol c = ''TCP'' \<and> BuildClient c =
      Inr (TCPConfig (c_IPAddress c @ '':'' @ show_int (c_Port c)) (c_TimeoutMs c * millisecond))) \<or>
    (c_Protocol c = ''RTU'' \<and> BuildClient c = Inr (RTUConfig (c_Interface c) (c_BaudRate c) (c_DataBits c) (c_Parity c)
      (c_StopBits c) (c_TimeoutMs c * millisecond)))"
  using assms by (auto simp: Validate_connection_def BuildClient_def Let_def split: if_splits)

lemma BuildClient_total_witness:
  "\<exists>cfg. BuildClient sample_conn = Inr cfg"
proof -
  have "Validate_connection sample_conn = None" by (simp add: Validate_connection_def sample_conn_def)
  from BuildClient_total [OF this] show ?thesis by auto
qed

end
