(* ===== verification/Pipeline.thy ===== *)
theory Pipeline
  imports Acquisition Queue
begin

text \<open>
  From a reading to a queue row: the device status store (\<open>src/gateway/internal/status\<close>), the processor
  (\<open>src/gateway/internal/processor\<close>) and the two callbacks of \<open>src/gateway/cmd/gateway/main.go\<close> that join the
  poller's events to them.
\<close>

section \<open>Status store\<close>

record dev_info =
  i_Quality :: string
  i_LastSeen :: gotime
  i_LastPollDurationMs :: int
  i_DatapointsPolled :: int
  i_BlockReads :: int

definition zero_info :: dev_info where
  "zero_info = \<lparr>i_Quality = [], i_LastSeen = zero_time, i_LastPollDurationMs = 0, i_DatapointsPolled = 0, i_BlockReads = 0\<rparr>"

type_synonym status_store = "int \<Rightarrow> dev_info option"

definition info_of :: "status_store \<Rightarrow> int \<Rightarrow> dev_info" where
  \<comment> \<open>indexing a Go map\<close>
  "info_of s i = (case s i of None \<Rightarrow> zero_info | Some x \<Rightarrow> x)"

definition Get_status :: "int \<Rightarrow> status_store \<Rightarrow> dev_info \<times> bool" where
  "Get_status i s = (info_of s i, s i \<noteq> None)"

definition status_Update :: "int \<Rightarrow> string \<Rightarrow> gotime \<Rightarrow> status_store \<Rightarrow> status_store" where
  "status_Update i q t s = s(i \<mapsto> (info_of s i)\<lparr>i_Quality := q, i_LastSeen := t\<rparr>)"

definition UpdatePollTiming :: "int \<Rightarrow> int \<Rightarrow> int \<Rightarrow> int \<Rightarrow> status_store \<Rightarrow> status_store" where
  "UpdatePollTiming i ms n k s =
     s(i \<mapsto> (info_of s i)\<lparr>i_LastPollDurationMs := ms, i_DatapointsPolled := n, i_BlockReads := k\<rparr>)"

section \<open>Processor\<close>

definition reading_entry :: "string \<Rightarrow> acq_reading \<Rightarrow> entry" where
  "reading_entry gatewayID r = \<lparr>ID = 0, GatewayID = gatewayID, SequenceID = 0, DeviceID = a_DeviceID r,
     DatapointID = a_DatapointID r, Value = a_Value r, Quality = quality_string (a_Quality r),
     EventTimestamp = a_EventTimestamp r, Priority = a_Priority r\<rparr>"

definition Process :: "(f64 \<Rightarrow> f64 option) \<Rightarrow> fault \<Rightarrow> string \<Rightarrow> acq_reading \<Rightarrow> qdb \<Rightarrow> qdb" where
  "Process bind flt gatewayID r db = snd (Insert bind flt (reading_entry gatewayID r) db)"

section \<open>The callbacks of the gateway\<close>

type_synonym gateway_state = "status_store \<times> qdb"

definition on_reading :: "(f64 \<Rightarrow> f64 option) \<Rightarrow> fault \<Rightarrow> string \<Rightarrow> acq_reading \<Rightarrow> gateway_state \<Rightarrow> gateway_state" where
  "on_reading bind flt gid r s =
     (status_Update (a_DeviceID r) (quality_string (a_Quality r)) (a_EventTimestamp r) (fst s),
      Process bind flt gid r (snd s))"

definition on_poll_cycle :: "int \<Rightarrow> int \<Rightarrow> int \<Rightarrow> nat \<Rightarrow> gateway_state \<Rightarrow> gateway_state" where
  "on_poll_cycle i ms n k s = (UpdatePollTiming i ms n (int k) (fst s), snd s)"

fun handle_events ::
  "(f64 \<Rightarrow> f64 option) \<Rightarrow> string \<Rightarrow> (acq_event \<times> fault) list \<Rightarrow> gateway_state \<Rightarrow> gateway_state" where
  \<comment> \<open>the poller's events in order, each with the fault the database shows meanwhile\<close>
  "handle_events bind gid [] s = s"
| "handle_events bind gid ((e, flt) # es) s =
     handle_events bind gid es (case e of
         Emit r \<Rightarrow> on_reading bind flt gid r s
       | PollCycle i ms n k t \<Rightarrow> on_poll_cycle i ms n k s
       | _ \<Rightarrow> s)"

fun emitted :: "acq_event list \<Rightarrow> acq_reading list" where
  "emitted [] = []"
| "emitted (Emit r # es) = r # emitted es"
| "emitted (_ # es) = emitted es"

section \<open>Readings become rows\<close>

definition persists :: "(f64 \<Rightarrow> f64 option) \<Rightarrow> string \<Rightarrow> acq_reading \<Rightarrow> row \<Rightarrow> bool" where
  \<comment> \<open>the row holds what the reading says\<close>
  "persists bind gid r w \<longleftrightarrow> q_gateway_id w = gid \<and> q_device_id w = a_DeviceID r \<and> q_datapoint_id w = a_DatapointID r \<and>
     q_value w = Option.bind (a_Value r) bind \<and> q_quality w = quality_string (a_Quality r) \<and>
     q_event_timestamp w = millis (a_EventTimestamp r) \<and> q_priority w = priorityOrDefault (a_Priority r) \<and>
     q_status w = PENDING"

lemma Process_cases:
  assumes "queue_inv db" "gateways db gid = Some g"
  obtains (stored) w where "persists bind gid r w" "q_sequence_id w = g_last_sequence g + 1"
    "data_queue (Process bind flt gid r db) = data_queue db @ [w]"
    "gateways (Process bind flt gid r db) gid = Some (g\<lparr>g_last_sequence := g_last_sequence g + 1\<rparr>)"
  | (failed) "flt \<noteq> None" "Process bind flt gid r db = db"
proof -
  have u: "(gid, g_last_sequence g + 1) \<notin> row_key ` set (data_queue db)"
    using queue_invD(4) [OF assms(1)] assms(2) by (force simp: row_key_def)
  show thesis
  proof (cases "\<exists>m. Insert bind flt (reading_entry gid r) db = (Inl m, db)")
    case True
    moreover have "flt \<noteq> None"
    proof
      assume "flt = None"
      with True assms(2) u show False by (simp add: Insert_def Let_def reading_entry_def)
    qed
    ultimately show thesis by (intro failed) (auto simp: Process_def)
  next
    case False
    let ?w = "new_row bind (dq_seq db + 1) ((reading_entry gid r)\<lparr>SequenceID := g_last_sequence g + 1\<rparr>)"
    have db': "Process bind flt gid r db = db\<lparr>gateways := (gateways db)(gid \<mapsto> g\<lparr>g_last_sequence := g_last_sequence g + 1\<rparr>),
        data_queue := data_queue db @ [?w], dq_seq := dq_seq db + 1\<rparr>"
      using False assms(2) u by (auto simp: Process_def Insert_def Let_def reading_entry_def split: option.splits)
    show thesis
      by (rule stored [of ?w]) (simp_all add: db' persists_def new_row_def reading_entry_def)
  qed
qed

lemma queue_inv_Process [inv_intros]: "queue_inv db \<Longrightarrow> queue_inv (Process bind flt gid r db)"
  unfolding Process_def by (rule queue_inv_Insert)

lemma snd_on_reading [simp]: "snd (on_reading bind flt gid r s) = Process bind flt gid r (snd s)"
  by (simp add: on_reading_def)

lemma snd_on_poll_cycle [simp]: "snd (on_poll_cycle i ms n k s) = snd s"
  by (simp add: on_poll_cycle_def)

text \<open>What the rows appended for a list of events look like.\<close>

definition appended ::
  "(f64 \<Rightarrow> f64 option) \<Rightarrow> string \<Rightarrow> int \<Rightarrow> (acq_event \<times> fault) list \<Rightarrow> row list \<Rightarrow> bool" where
  "appended bind gid seq es ws \<longleftrightarrow>
     (\<exists>rs. subseq rs (emitted (map fst es)) \<and> (list_all (\<lambda>p. snd p = None) es \<longrightarrow> rs = emitted (map fst es)) \<and>
       list_all2 (persists bind gid) rs ws) \<and>
     map q_sequence_id ws = map (\<lambda>i. seq + 1 + int i) [0..<length ws]"

lemma appended_Nil [simp]: "appended bind gid seq [] []"
  by (simp add: appended_def)

lemma upt_Suc_map: "map f [0..<Suc n] = f 0 # map (\<lambda>i. f (Suc i)) [0..<n]"
  by (simp only: upt_conv_Cons map_Suc_upt [symmetric]) simp

lemma appended_stored:
  assumes "appended bind gid (seq + 1) es ws" "persists bind gid r w" "q_sequence_id w = seq + 1"
  shows "appended bind gid seq ((Emit r, flt) # es) (w # ws)"
proof -
  from assms(1) obtain rs where rs: "subseq rs (emitted (map fst es))" "list_all2 (persists bind gid) rs ws"
      "list_all (\<lambda>p. snd p = None) es \<longrightarrow> rs = emitted (map fst es)"
    and q: "map q_sequence_id ws = map (\<lambda>i. seq + 1 + 1 + int i) [0..<length ws]"
    by (auto simp: appended_def)
  have "map q_sequence_id (w # ws) = map (\<lambda>i. seq + 1 + int i) [0..<length (w # ws)]"
    using q assms(3) by (simp add: upt_Suc_map del: upt_Suc)
  with rs assms(2) show ?thesis
    unfolding appended_def by (intro conjI exI [of _ "r # rs"]) auto
qed

lemma appended_failed:
  "appended bind gid seq es ws \<Longrightarrow> flt \<noteq> None \<Longrightarrow> appended bind gid seq ((Emit r, flt) # es) ws"
  by (auto simp: appended_def)

lemma appended_other:
  "appended bind gid seq es ws \<Longrightarrow> emitted [e] = [] \<Longrightarrow> appended bind gid seq ((e, flt) # es) ws"
  by (cases e) (fastforce simp: appended_def)+

lemma handle_events_rows:
  assumes "queue_inv (snd s)" "gateways (snd s) gid = Some g"
  shows "\<exists>ws. data_queue (snd (handle_events bind gid es s)) = data_queue (snd s) @ ws \<and>
    appended bind gid (g_last_sequence g) es ws"
  using assms
proof (induction es arbitrary: s g)
  case (Cons p es)
  obtain e flt where p: "p = (e, flt)" by fastforce
  show ?case
  proof (cases e)
    case (Emit r)
    let ?s = "on_reading bind flt gid r s"
    have inv: "queue_inv (snd ?s)" using Cons.prems(1) by (simp add: queue_inv_Process)
    show ?thesis
    proof (rule Process_cases [OF Cons.prems, of bind r flt])
      fix w assume w: "persists bind gid r w" "q_sequence_id w = g_last_sequence g + 1"
        "data_queue (Process bind flt gid r (snd s)) = data_queue (snd s) @ [w]"
        "gateways (Process bind flt gid r (snd s)) gid = Some (g\<lparr>g_last_sequence := g_last_sequence g + 1\<rparr>)"
      from Cons.IH [OF inv, of "g\<lparr>g_last_sequence := g_last_sequence g + 1\<rparr>"] w(4)
      obtain ws where "data_queue (snd (handle_events bind gid es ?s)) = data_queue (snd ?s) @ ws"
        "appended bind gid (g_last_sequence g + 1) es ws" by auto
      with appended_stored [OF _ w(1,2)] w(3) show ?thesis by (auto simp: p Emit)
    next
      assume f: "flt \<noteq> None" "Process bind flt gid r (snd s) = snd s"
      with Cons.IH [OF inv, of g] Cons.prems(2) obtain ws where
        "data_queue (snd (handle_events bind gid es ?s)) = data_queue (snd s) @ ws" "appended bind gid (g_last_sequence g) es ws"
        by auto
      with appended_failed [OF _ f(1)] show ?thesis by (auto simp: p Emit)
    qed
  next
    case (PollCycle i ms n k t)
    with Cons.IH [of "on_poll_cycle i ms n k s" g] Cons.prems appended_other [of bind gid _ es _ e flt]
    show ?thesis by (auto simp: p)
  qed (use Cons appended_other [of bind gid _ es _ e flt] in \<open>fastforce simp: p\<close>)+
qed (use appended_Nil in auto)


text \<open>The status of a device is the one of its last reading.\<close>

lemma handle_events_status:
  "info_of (fst (handle_events bind gid es s)) i =
     fold (\<lambda>(e, flt) x. case e of
         Emit r \<Rightarrow> if a_DeviceID r = i then x\<lparr>i_Quality := quality_string (a_Quality r), i_LastSeen := a_EventTimestamp r\<rparr> else x
       | PollCycle j ms n k t \<Rightarrow>
           if j = i then x\<lparr>i_LastPollDurationMs := ms, i_DatapointsPolled := n, i_BlockReads := int k\<rparr> else x
       | _ \<Rightarrow> x) es (info_of (fst s) i)"
proof (induction es arbitrary: s)
  case (Cons p es)
  then show ?case
    by (cases p; cases "fst p")
      (auto simp: on_reading_def on_poll_cycle_def status_Update_def UpdatePollTiming_def info_of_def)
qed simp

lemma emitted_append [simp]: "emitted (xs @ ys) = emitted xs @ emitted ys"
  by (induction xs rule: emitted.induct) auto

lemma status_last_reading:
  assumes "filter (\<lambda>r. a_DeviceID r = i) (emitted (map fst es)) = rs @ [r]"
  shows "i_Quality (info_of (fst (handle_events bind gid es s)) i) = quality_string (a_Quality r) \<and>
    i_LastSeen (info_of (fst (handle_events bind gid es s)) i) = a_EventTimestamp r"
  using assms unfolding handle_events_status
proof (induction es arbitrary: rs rule: rev_induct)
  case (snoc p es)
  show ?case
  proof (cases "fst p")
    case (Emit r')
    with snoc.prems snoc.IH show ?thesis by (cases p) (auto split: if_splits)
  qed (use snoc in \<open>cases p; auto\<close>)+
qed simp


definition sample_reading :: acq_reading where
  "sample_reading = badReading sample_dev sample_dp 5000000 Timeout"


end
