(* ===== verification/Manager.thy ===== *)
theory Manager
  imports Acquisition "HOL-Library.AList"
begin

text \<open>
  The acquisition manager \<open>src/gateway/internal/acquisition/manager.go\<close>: it keeps one poller per enabled
  connection and brings the running pollers in line with the configuration.

  A Go map is an association list with distinct keys; the results are stated on the map it denotes, so the order
  of iteration does not matter. A poller goroutine is identified by its connection and the number of the
  reload that started it; \<open>m_live\<close> are the goroutines whose context has not been cancelled. Each query of a
  reload has its own fault.
\<close>

section \<open>State\<close>

record running_connection =
  rc_gen :: nat
  rc_conn :: connection
  rc_devices :: "device_points list"

record manager =
  m_running :: "(int \<times> running_connection) list"
  m_gen :: nat
  m_live :: "(int \<times> nat) list"

definition NewManager :: manager where
  "NewManager = \<lparr>m_running = [], m_gen = 0, m_live = []\<rparr>"

section \<open>Comparing configurations\<close>

text \<open>\<open>reflect.DeepEqual\<close> compares \<open>float64\<close> fields with \<open>==\<close>: NaN differs from itself, the two zeros are equal.\<close>

fun f64_eq :: "f64 \<Rightarrow> f64 \<Rightarrow> bool" where
  "f64_eq NaN _ = False"
| "f64_eq _ NaN = False"
| "f64_eq x y = (x = y \<or> is_zero x \<and> is_zero y)"

definition deep_equal_point :: "datapoint \<Rightarrow> datapoint \<Rightarrow> bool" where
  "deep_equal_point x y \<longleftrightarrow> f64_eq (dp_Scale x) (dp_Scale y) \<and> f64_eq (dp_Offset x) (dp_Offset y) \<and>
     x\<lparr>dp_Scale := f64_zero, dp_Offset := f64_zero\<rparr> = y\<lparr>dp_Scale := f64_zero, dp_Offset := f64_zero\<rparr>"

definition deep_equal_devices :: "device_points list \<Rightarrow> device_points list \<Rightarrow> bool" where
  "deep_equal_devices = list_all2 (\<lambda>(d, dps) (d', dps'). d = d' \<and> list_all2 deep_equal_point dps dps')"

section \<open>Reload\<close>

definition add_device :: "connection \<Rightarrow> device \<Rightarrow> datapoint list \<Rightarrow>
    (int \<times> running_connection) list \<Rightarrow> (int \<times> running_connection) list" where
  "add_device conn d dps wanted =
     (let rc = (case map_of wanted (c_ID conn) of
                  Some rc \<Rightarrow> rc
                | None \<Rightarrow> \<lparr>rc_gen = 0, rc_conn = conn, rc_devices = []\<rparr>)
      in AList.update (c_ID conn) (rc\<lparr>rc_devices := rc_devices rc @ [(d, dps)]\<rparr>) wanted)"

fun wanted_loop :: "(nat \<Rightarrow> fault) \<Rightarrow> cfgdb \<Rightarrow> (int \<Rightarrow> connection option) \<Rightarrow> device list \<Rightarrow> nat \<Rightarrow>
    (int \<times> running_connection) list \<Rightarrow> cfg_error + (int \<times> running_connection) list" where
  "wanted_loop flts db connByID [] k wanted = Inr wanted"
| "wanted_loop flts db connByID (d # ds) k wanted =
     (case connByID (d_ConnectionID d) of
        None \<Rightarrow> wanted_loop flts db connByID ds k wanted
      | Some conn \<Rightarrow>
          (case ListEnabledByDevice (flts k) (d_ID d) db of
             Inl e \<Rightarrow> Inl e
           | Inr dps \<Rightarrow> wanted_loop flts db connByID ds (Suc k) (add_device conn d dps wanted)))"

definition unchanged :: "(int \<times> running_connection) list \<Rightarrow> int \<times> running_connection \<Rightarrow> bool" where
  "unchanged wanted p = (case map_of wanted (fst p) of
       None \<Rightarrow> False
     | Some w \<Rightarrow> rc_conn (snd p) = rc_conn w \<and> deep_equal_devices (rc_devices (snd p)) (rc_devices w))"

definition stop_changed :: "(int \<times> running_connection) list \<Rightarrow> manager \<Rightarrow> manager" where
  \<comment> \<open>the first loop: cancel and forget\<close>
  "stop_changed wanted m = m\<lparr>
     m_running := filter (unchanged wanted) (m_running m),
     m_live := filter (\<lambda>g. g \<notin> set (map (\<lambda>p. (fst p, rc_gen (snd p))) (filter (\<lambda>p. \<not> unchanged wanted p) (m_running m)))) (m_live m)\<rparr>"

fun start_missing :: "(int \<times> running_connection) list \<Rightarrow> manager \<Rightarrow> manager" where
  \<comment> \<open>the second loop: a fresh goroutine for what is wanted and does not run\<close>
  "start_missing [] m = m"
| "start_missing ((i, w) # ws) m =
     (if map_of (m_running m) i \<noteq> None then start_missing ws m
      else start_missing ws (m\<lparr>m_running := (i, w\<lparr>rc_gen := m_gen m\<rparr>) # m_running m, m_live := (i, m_gen m) # m_live m\<rparr>))"

definition Reload :: "fault \<Rightarrow> fault \<Rightarrow> (nat \<Rightarrow> fault) \<Rightarrow> cfgdb \<Rightarrow> manager \<Rightarrow> cfg_error option \<times> manager" where
  "Reload flt_dev flt_conn flts db m =
     (case ListEnabled_devices flt_dev db of
        Inl e \<Rightarrow> (Some e, m)
      | Inr devs \<Rightarrow>
          (case ListEnabled_connections flt_conn db of
             Inl e \<Rightarrow> (Some e, m)
           | Inr conns \<Rightarrow>
               (let connByID = map_of (rev (map (\<lambda>c. (c_ID c, c)) conns))
                in case wanted_loop flts db connByID devs 0 [] of
                     Inl e \<Rightarrow> (Some e, m)
                   | Inr wanted \<Rightarrow>
                       (let m = m\<lparr>m_gen := Suc (m_gen m)\<rparr> in (None, start_missing wanted (stop_changed wanted m))))))"

section \<open>What is wanted\<close>

lemma distinct_add_device: "distinct (map fst wanted) \<Longrightarrow> distinct (map fst (add_device conn d dps wanted))"
  by (simp add: add_device_def Let_def distinct_update)

lemma distinct_wanted:
  "wanted_loop flts db cbi ds k w = Inr w' \<Longrightarrow> distinct (map fst w) \<Longrightarrow> distinct (map fst w')"
  by (induction ds arbitrary: k w) (auto split: option.splits sum.splits intro: distinct_add_device)

text \<open>The devices of one connection, in the order of the query, each with its enabled points.\<close>

definition enabled_points :: "cfgdb \<Rightarrow> int \<Rightarrow> datapoint list" where
  "enabled_points db i = map scanDataPoint (sort_key pr_id (filter (\<lambda>r. pr_device_id r = i \<and> pr_enabled r = 1) (datapoints db)))"

lemma ListEnabledByDevice_Inr: "ListEnabledByDevice flt i db = Inr dps \<Longrightarrow> dps = enabled_points db i"
  by (simp add: ListEnabledByDevice_def enabled_points_def split: option.splits)

definition group_of :: "cfgdb \<Rightarrow> int \<Rightarrow> device list \<Rightarrow> device_points list" where
  "group_of db i ds = map (\<lambda>d. (d, enabled_points db (d_ID d))) (filter (\<lambda>d. d_ConnectionID d = i) ds)"

definition devices_at :: "(int \<times> running_connection) list \<Rightarrow> int \<Rightarrow> device_points list" where
  "devices_at w i = (case map_of w i of None \<Rightarrow> [] | Some rc \<Rightarrow> rc_devices rc)"

definition conns_ok :: "(int \<Rightarrow> connection option) \<Rightarrow> (int \<times> running_connection) list \<Rightarrow> bool" where
  "conns_ok cbi w \<longleftrightarrow> (\<forall>i rc. map_of w i = Some rc \<longrightarrow> cbi i = Some (rc_conn rc) \<and> rc_devices rc \<noteq> [])"

lemma add_device_at:
  assumes "cbi (c_ID conn) = Some conn" "conns_ok cbi w"
  shows "conns_ok cbi (add_device conn d dps w)"
    "devices_at (add_device conn d dps w) i = devices_at w i @ (if c_ID conn = i then [(d, dps)] else [])"
  using assms by (auto simp: add_device_def conns_ok_def devices_at_def update_conv' Let_def split: option.splits)

lemma wanted_loop_spec:
  assumes "wanted_loop flts db cbi ds k w = Inr w'" "conns_ok cbi w" "\<And>i c. cbi i = Some c \<Longrightarrow> c_ID c = i"
  shows "conns_ok cbi w' \<and> devices_at w' i = devices_at w i @ (if cbi i = None then [] else group_of db i ds)"
  using assms(1,2)
proof (induction ds arbitrary: k w)
  case Nil
  then show ?case by (simp add: group_of_def)
next
  case (Cons d ds)
  show ?case
  proof (cases "cbi (d_ConnectionID d)")
    case None
    with Cons.prems Cons.IH [of k w] show ?thesis by (auto simp: group_of_def)
  next
    case (Some conn)
    then obtain dps where dps: "ListEnabledByDevice (flts k) (d_ID d) db = Inr dps"
      "wanted_loop flts db cbi ds (Suc k) (add_device conn d dps w) = Inr w'"
      using Cons.prems(1) by (auto split: sum.splits)
    have id: "c_ID conn = d_ConnectionID d" using assms(3) [OF Some] .
    then have c: "cbi (c_ID conn) = Some conn" using Some by simp
    from Cons.IH [OF dps(2) add_device_at(1) [OF c Cons.prems(2)]] ListEnabledByDevice_Inr [OF dps(1)]
      add_device_at(2) [OF c Cons.prems(2), of d dps i] id Some
    show ?thesis by (auto simp: group_of_def)
  qed
qed

section \<open>Starting and stopping\<close>

definition mgr_inv :: "manager \<Rightarrow> bool" where
  \<comment> \<open>one poller per connection, exactly the registered ones are live, and no generation comes from the future\<close>
  "mgr_inv m \<longleftrightarrow> distinct (map fst (m_running m)) \<and> distinct (m_live m) \<and>
     set (m_live m) = (\<lambda>p. (fst p, rc_gen (snd p))) ` set (m_running m) \<and>
     (\<forall>p \<in> set (m_running m). rc_gen (snd p) \<le> m_gen m)"

lemma mgr_inv_New: "mgr_inv NewManager"
  by (simp add: mgr_inv_def NewManager_def)

lemma mgr_inv_stop: "mgr_inv m \<Longrightarrow> mgr_inv (stop_changed w m)"
proof -
  assume m: "mgr_inv m"
  let ?g = "\<lambda>p. (fst p, rc_gen (snd p))"
  have inj: "inj_on ?g (set (m_running m))"
    using m by (auto simp: mgr_inv_def inj_on_def distinct_map)
  have "set (m_live (stop_changed w m)) = ?g ` set (m_running m) - ?g ` {p \<in> set (m_running m). \<not> unchanged w p}"
    using m by (auto simp: stop_changed_def mgr_inv_def)
  also have "\<dots> = ?g ` {p \<in> set (m_running m). unchanged w p}"
    using inj by (auto simp: inj_on_def)
  finally show ?thesis
    using m by (auto simp: mgr_inv_def stop_changed_def distinct_map_filter)
qed

lemma mgr_inv_start:
  assumes "mgr_inv m" "\<forall>p \<in> set (m_running m). rc_gen (snd p) < m_gen m \<or> fst p \<notin> fst ` set ws" "distinct (map fst ws)"
  shows "mgr_inv (start_missing ws m)"
  using assms
proof (induction ws m rule: start_missing.induct)
  case (2 i w ws m)
  show ?case
  proof (cases "map_of (m_running m) i")
    case None
    let ?m = "m\<lparr>m_running := (i, w\<lparr>rc_gen := m_gen m\<rparr>) # m_running m, m_live := (i, m_gen m) # m_live m\<rparr>"
    have i: "i \<notin> fst ` set (m_running m)" using None by (simp add: map_of_eq_None_iff)
    then have "(i, m_gen m) \<notin> set (m_live m)" using "2.prems"(1) by (auto simp: mgr_inv_def)
    with i "2.prems"(1) have "mgr_inv ?m" by (auto simp: mgr_inv_def)
    moreover have "\<forall>p \<in> set (m_running ?m). rc_gen (snd p) < m_gen ?m \<or> fst p \<notin> fst ` set ws"
      using "2.prems" by auto
    ultimately show ?thesis using "2.IH"(2) None "2.prems"(3) by simp
  qed (use 2 in auto)
qed simp

lemma map_of_start:
  assumes "distinct (map fst ws)"
  shows "map_of (m_running (start_missing ws m)) i =
    (case map_of (m_running m) i of Some rc \<Rightarrow> Some rc | None \<Rightarrow> map_option (\<lambda>w. w\<lparr>rc_gen := m_gen m\<rparr>) (map_of ws i))"
  using assms
proof (induction ws m rule: start_missing.induct)
  case (2 j w ws m)
  then have "map_of ws j = None" by (simp add: map_of_eq_None_iff)
  with 2 show ?case by (cases "map_of (m_running m) j") (auto split: option.splits)
qed (simp split: option.splits)

lemma start_missing_gen [simp]: "m_gen (start_missing ws m) = m_gen m"
  by (induction ws m rule: start_missing.induct) auto

lemma map_of_filter_key:
  "distinct (map fst xs) \<Longrightarrow> map_of (filter P xs) i = (case map_of xs i of None \<Rightarrow> None | Some v \<Rightarrow> if P (i, v) then Some v else None)"
  by (induction xs) (auto split: option.splits simp: map_of_eq_None_iff)

lemma map_of_stop:
  "distinct (map fst (m_running m)) \<Longrightarrow> map_of (m_running (stop_changed w m)) i =
    (case map_of (m_running m) i of None \<Rightarrow> None | Some rc \<Rightarrow> if unchanged w (i, rc) then Some rc else None)"
  by (simp add: stop_changed_def map_of_filter_key)

section \<open>What should be polled\<close>

text \<open>The specification: an enabled connection with at least one enabled device is polled, with those devices in
  the order of their keys, each with its enabled data points.\<close>

definition polled :: "cfgdb \<Rightarrow> int \<Rightarrow> (connection \<times> device_points list) option" where
  "polled db i = (case row_by cr_id i (filter (\<lambda>r. cr_enabled r = 1) (connections db)) of
       None \<Rightarrow> None
     | Some r \<Rightarrow>
         (let g = group_of db i (map scanDevice (sort_key dr_id (filter (\<lambda>r. dr_enabled r = 1) (devices db))))
          in if g = [] then None else Some (scanConnection r, g)))"

lemma map_of_rows:
  "distinct (map key rows) \<Longrightarrow> map_of (map (\<lambda>r. (key r, f r)) rows) i = map_option f (row_by key i rows)"
  by (induction rows) (auto simp: row_by_def)

lemma conn_by_id:
  assumes "distinct (map cr_id rows)"
  shows "map_of (rev (map (\<lambda>c. (c_ID c, c)) (map scanConnection (sort_key cr_id rows)))) i =
    map_option scanConnection (row_by cr_id i rows)"
proof -
  let ?xs = "map (\<lambda>r. (cr_id r, scanConnection r)) (sort_key cr_id rows)"
  have e: "map (\<lambda>c. (c_ID c, c)) (map scanConnection (sort_key cr_id rows)) = ?xs"
    by (simp add: scanConnection_def)
  have d: "distinct (map cr_id (sort_key cr_id rows))" using assms by (simp add: stable.distinct_map_order_by)
  have "map_of (rev ?xs) = map_of (map (\<lambda>r. (cr_id r, scanConnection r)) rows)"
    using d assms by (subst map_of_inject_set) (simp_all add: o_def rev_map [symmetric])
  then show ?thesis using assms by (simp only: e map_of_rows)
qed

lemma Reload_wanted:
  assumes "Reload fd fc fls db m = (None, m')" "cfg_inv db"
  obtains wanted where "distinct (map fst wanted)"
    "\<And>i. map_option (\<lambda>rc. (rc_conn rc, rc_devices rc)) (map_of wanted i) = polled db i"
    "m' = start_missing wanted (stop_changed wanted (m\<lparr>m_gen := Suc (m_gen m)\<rparr>))"
proof -
  let ?conns = "filter (\<lambda>r. cr_enabled r = 1) (connections db)"
  let ?devs = "map scanDevice (sort_key dr_id (filter (\<lambda>r. dr_enabled r = 1) (devices db)))"
  let ?cbi = "map_of (rev (map (\<lambda>c. (c_ID c, c)) (map scanConnection (sort_key cr_id ?conns))))"
  obtain wanted where w: "wanted_loop fls db ?cbi ?devs 0 [] = Inr wanted"
    and m': "m' = start_missing wanted (stop_changed wanted (m\<lparr>m_gen := Suc (m_gen m)\<rparr>))"
    using assms(1) by (auto simp: Reload_def ListEnabled_devices_def ListEnabled_connections_def Let_def
        split: option.splits sum.splits)
  have d: "distinct (map cr_id ?conns)" using assms(2) by (auto simp: cfg_inv_def distinct_map_filter)
  have cbi: "?cbi i = map_option scanConnection (row_by cr_id i ?conns)" for i by (rule conn_by_id [OF d])
  have id: "c_ID c = i" if "?cbi i = Some c" for i c
    using that [unfolded cbi] by (auto simp: scanConnection_def dest: row_by_SomeD)
  have "conns_ok ?cbi []" by (simp add: conns_ok_def)
  note spec = wanted_loop_spec [OF w this id]
  have "map_option (\<lambda>rc. (rc_conn rc, rc_devices rc)) (map_of wanted i) = polled db i" for i
  proof -
    have c: "conns_ok ?cbi wanted" and da: "devices_at wanted i = (if ?cbi i = None then [] else group_of db i ?devs)"
      using spec [of i] by (simp_all add: devices_at_def)
    show ?thesis
    proof (cases "map_of wanted i")
      case None
      with da [unfolded cbi] show ?thesis by (auto simp: polled_def devices_at_def Let_def split: option.splits if_splits)
    next
      case (Some rc)
      with c [unfolded conns_ok_def cbi, rule_format, OF Some] da [unfolded cbi] show ?thesis
        by (auto simp: polled_def devices_at_def Let_def split: option.splits if_splits)
    qed
  qed
  moreover have "distinct (map fst wanted)" using distinct_wanted [OF w] by simp
  ultimately show thesis using m' that by blast
qed

lemma f64_eq_refl: "x \<noteq> NaN \<Longrightarrow> f64_eq x x"
  by (cases x) auto

lemma Reload_map:
  assumes "mgr_inv m" "cfg_inv db" "Reload fd fc fls db m = (None, m')"
  shows "mgr_inv m'" "m_gen m' = Suc (m_gen m)"
    "map_of (m_running m') i = (case polled db i of
        None \<Rightarrow> None
      | Some (c, ds) \<Rightarrow>
          (case map_of (m_running m) i of
             Some rc \<Rightarrow> if rc_conn rc = c \<and> deep_equal_devices (rc_devices rc) ds then Some rc
                        else Some \<lparr>rc_gen = Suc (m_gen m), rc_conn = c, rc_devices = ds\<rparr>
           | None \<Rightarrow> Some \<lparr>rc_gen = Suc (m_gen m), rc_conn = c, rc_devices = ds\<rparr>))"
proof -
  obtain wanted where w: "distinct (map fst wanted)"
    "\<And>i. map_option (\<lambda>rc. (rc_conn rc, rc_devices rc)) (map_of wanted i) = polled db i"
    "m' = start_missing wanted (stop_changed wanted (m\<lparr>m_gen := Suc (m_gen m)\<rparr>))"
    using Reload_wanted [OF assms(3,2)] by blast
  let ?m = "m\<lparr>m_gen := Suc (m_gen m)\<rparr>"
  have inv: "mgr_inv ?m" and old: "\<forall>p \<in> set (m_running ?m). rc_gen (snd p) < m_gen ?m"
    using assms(1) by (auto simp: mgr_inv_def intro: le_SucI)
  have old': "\<forall>p \<in> set (m_running (stop_changed wanted ?m)). rc_gen (snd p) < m_gen (stop_changed wanted ?m)"
    using old by (auto simp: stop_changed_def)
  show "mgr_inv m'" unfolding w(3)
    using old' by (intro mgr_inv_start mgr_inv_stop inv w(1)) blast
  show "m_gen m' = Suc (m_gen m)" by (simp add: w(3) stop_changed_def)
  have dist: "distinct (map fst (m_running ?m))" using inv by (simp add: mgr_inv_def)
  have rec: "rc\<lparr>rc_gen := g\<rparr> = \<lparr>rc_gen = g, rc_conn = rc_conn rc, rc_devices = rc_devices rc\<rparr>"
    for g and rc :: running_connection by simp
  show "map_of (m_running m') i = (case polled db i of
        None \<Rightarrow> None
      | Some (c, ds) \<Rightarrow>
          (case map_of (m_running m) i of
             Some rc \<Rightarrow> if rc_conn rc = c \<and> deep_equal_devices (rc_devices rc) ds then Some rc
                        else Some \<lparr>rc_gen = Suc (m_gen m), rc_conn = c, rc_devices = ds\<rparr>
           | None \<Rightarrow> Some \<lparr>rc_gen = Suc (m_gen m), rc_conn = c, rc_devices = ds\<rparr>))"
    unfolding w(3) map_of_start [OF w(1)] map_of_stop [OF dist] w(2) [symmetric]
    by (cases "map_of wanted i"; cases "map_of (m_running m) i") (simp_all add: unchanged_def stop_changed_def rec)
qed

lemma live_iff:
  assumes "mgr_inv m"
  shows "(i, g) \<in> set (m_live m) \<longleftrightarrow> (\<exists>rc. map_of (m_running m) i = Some rc \<and> rc_gen rc = g)"
proof -
  have d: "distinct (map fst (m_running m))" and l: "set (m_live m) = (\<lambda>p. (fst p, rc_gen (snd p))) ` set (m_running m)"
    using assms by (simp_all add: mgr_inv_def)
  show ?thesis unfolding l map_of_eq_Some_iff [OF d] by force
qed

section \<open>Properties of the manager\<close>

text \<open>C19: after a reload that reports no error, exactly the enabled connections with an enabled device are polled, each
  by one live poller, with its current configuration, its enabled devices and their enabled data points; a poller
  whose configuration has not changed is left running and every other one is a fresh goroutine. A reload that reports
  an error leaves every poller as it was.\<close>

theorem Reload_spec:
  assumes "mgr_inv m" "cfg_inv db" "Reload fd fc fls db m = (err, m')"
  shows "if err \<noteq> None then m' = m
    else mgr_inv m' \<and>
      (\<forall>i. case polled db i of
         None \<Rightarrow> map_of (m_running m') i = None \<and> (\<forall>g. (i, g) \<notin> set (m_live m'))
       | Some (c, ds) \<Rightarrow> \<exists>rc. map_of (m_running m') i = Some rc \<and> rc_conn rc = c \<and>
           (\<forall>g. (i, g) \<in> set (m_live m') \<longleftrightarrow> g = rc_gen rc) \<and>
           (if \<exists>old. map_of (m_running m) i = Some old \<and> rc_conn old = c \<and> deep_equal_devices (rc_devices old) ds
            then map_of (m_running m) i = Some rc
            else rc_devices rc = ds \<and> (\<forall>g. (i, g) \<in> set (m_live m) \<longrightarrow> g < rc_gen rc)))"
proof (cases err)
  case None
  note R = Reload_map [OF assms(1,2) assms(3) [unfolded None]]
  have old: "(i, g) \<in> set (m_live m) \<Longrightarrow> g < Suc (m_gen m)" for i g
    using assms(1) by (fastforce simp: mgr_inv_def)
  show ?thesis
    using None R(1) old by (auto simp: R(3) live_iff [OF R(1)] split: option.split)
next
  case (Some e)
  with assms(3) show ?thesis
    by (auto simp: Reload_def Let_def split: sum.splits option.splits)
qed

lemma reload_sample:
  obtains m where "Reload None None (\<lambda>_. None) sample_cfg_db m0 = (None, m)"
proof -
  have "fst (Reload None None (\<lambda>_. None) sample_cfg_db m0) = None"
    by (simp add: Reload_def ListEnabled_devices_def ListEnabled_connections_def ListEnabledByDevice_def sample_cfg_rows
        conn_row_of_def dev_row_of_def dp_row_of_def boolToInt_def scanConnection_def scanDevice_def sample_conn_def
        sample_dev_def Let_def)
  with that show thesis by (metis prod.collapse)
qed

theorem Reload_spec_witness:
  "\<exists>m. Reload None None (\<lambda>_. None) sample_cfg_db NewManager = (None, m) \<and> mgr_inv m \<and> polled sample_cfg_db 1 \<noteq> None"
proof -
  obtain m where m: "Reload None None (\<lambda>_. None) sample_cfg_db NewManager = (None, m)" by (rule reload_sample)
  have "mgr_inv m" using Reload_spec [OF mgr_inv_New cfg_inv_sample m] by simp
  moreover have "polled sample_cfg_db 1 \<noteq> None"
    by (simp add: polled_def row_by_def group_of_def sample_cfg_rows conn_row_of_def dev_row_of_def boolToInt_def
        scanDevice_def sample_conn_def sample_dev_def Let_def)
  ultimately show ?thesis using m by blast
qed

text \<open>Reloading an unchanged configuration again restarts no poller.\<close>

theorem Reload_idempotent:
  assumes "mgr_inv m" "cfg_inv db" "Reload fd fc fls db m = (None, m1)" "Reload fd' fc' fls' db m1 = (None, m2)"
    and "\<forall>r \<in> set (datapoints db). pr_scale r \<noteq> NaN \<and> pr_offset r \<noteq> NaN"
  shows "map_of (m_running m2) = map_of (m_running m1) \<and> set (m_live m2) = set (m_live m1)"
proof -
  note R1 = Reload_map [OF assms(1,2,3)]
  note R2 = Reload_map [OF R1(1) assms(2,4)]
  have refl: "deep_equal_devices ds ds" if p: "polled db i = Some (c, ds)" for i c ds
  proof -
    have "f64_eq (dp_Scale p) (dp_Scale p) \<and> f64_eq (dp_Offset p) (dp_Offset p)" if "p \<in> set (enabled_points db j)" for p j
      using that assms(5) by (auto simp: enabled_points_def scanDataPoint_def f64_eq_refl)
    then have "list_all2 deep_equal_point (enabled_points db j) (enabled_points db j)" for j
      by (auto simp: list_all2_same deep_equal_point_def)
    with p show ?thesis
      by (auto simp: polled_def group_of_def deep_equal_devices_def list_all2_same Let_def split: option.splits if_splits)
  qed
  have "map_of (m_running m2) i = map_of (m_running m1) i" for i
    using refl by (auto simp: R2(3) R1(3) split: option.split)
  then have eq: "map_of (m_running m2) = map_of (m_running m1)" by blast
  then have "set (m_running m2) = set (m_running m1)"
    using R1(1) R2(1) by (simp add: mgr_inv_def map_of_inject_set)
  with eq show ?thesis using R1(1) R2(1) by (simp add: mgr_inv_def)
qed


theorem Reload_idempotent_witness:
  "\<exists>m1 m2. Reload None None (\<lambda>_. None) sample_cfg_db NewManager = (None, m1) \<and>
    Reload None None (\<lambda>_. None) sample_cfg_db m1 = (None, m2) \<and> map_of (m_running m2) = map_of (m_running m1)"
proof -
  obtain m1 where m1: "Reload None None (\<lambda>_. None) sample_cfg_db NewManager = (None, m1)" by (rule reload_sample)
  obtain m2 where m2: "Reload None None (\<lambda>_. None) sample_cfg_db m1 = (None, m2)" by (rule reload_sample)
  have "\<forall>r \<in> set (datapoints sample_cfg_db). pr_scale r \<noteq> NaN \<and> pr_offset r \<noteq> NaN"
    by (simp add: sample_cfg_rows dp_row_of_def f64_one_def f64_zero_def)
  from Reload_idempotent [OF mgr_inv_New cfg_inv_sample m1 m2 this] m1 m2 show ?thesis by blast
qed

end
