(* ===== verification/ModbusSim.thy ===== *)
theory ModbusSim
  imports Acquisition
begin

text \<open>
  The Modbus TCP slave \<open>src/gateway/cmd/modbus-sim/main.go\<close> the acquisition engine is developed against:
  its register banks, its request handler, the framing of requests on a connection, and the process with its accept loop.

  \<open>sim_handler\<close> joins it to the gateway's TCP client: a handler that sends the five-byte read request of the Modbus
  protocol and takes the data bytes of the answer. It stands for the third-party client library in examples, where a concrete link is needed.
\<close>

section \<open>Register banks\<close>

unbundle bit_operations_syntax

definition put_regs :: "u16 list \<Rightarrow> nat \<Rightarrow> 32 word \<Rightarrow> u16 list" where
  \<comment> \<open>\<open>putFloat32ABCD\<close> on the bits of its \<open>float32\<close>; the caller's addresses are within the bank\<close>
  "put_regs rs addr bits = (rs[addr := ucast (drop_bit 16 bits)])[addr + 1 := ucast bits]"

definition sim_holding :: "u16 list" where
  "sim_holding = (put_regs ((replicate 200 0)[100 := 2302, 101 := 1523]) 102 0x44BB9000)[104 := 45]"

definition sim_input :: "u16 list" where
  "sim_input = replicate 200 0"

section \<open>Requests\<close>

definition hi :: "u16 \<Rightarrow> byte" where "hi v = ucast (drop_bit 8 v)"
definition lo :: "u16 \<Rightarrow> byte" where "lo v = ucast v"

definition be16 :: "byte \<Rightarrow> byte \<Rightarrow> u16" where
  "be16 h l = push_bit 8 (ucast h) OR ucast l"

definition sim_registers :: "u16 list \<Rightarrow> u16 \<Rightarrow> u16 \<Rightarrow> byte list" where
  \<comment> \<open>the response loop; the index \<open>address + i\<close> is a \<open>uint16\<close>\<close>
  "sim_registers bank address quantity =
     concat (map (\<lambda>i. let v = bank ! unat (address + of_nat i) in [hi v, lo v]) [0..<unat quantity])"

definition handlePDU :: "byte list \<Rightarrow> u16 list \<Rightarrow> u16 list \<Rightarrow> byte list" where
  "handlePDU pdu holding input =
     (case pdu of
        [] \<Rightarrow> [0x80, 1]
      | fc # body \<Rightarrow>
          if fc = 3 \<or> fc = 4 then
            (case body of
               [a1, a0, q1, q0] \<Rightarrow>
                 (let address = be16 a1 a0; quantity = be16 q1 q0; bank = (if fc = 4 then input else holding)
                  in if length bank < unat address + unat quantity \<or> quantity = 0 \<or> 125 < quantity
                     then [fc OR 0x80, 2]
                     else [fc, ucast (quantity * 2)] @ sim_registers bank address quantity)
             | _ \<Rightarrow> [fc OR 0x80, 2])
          else if fc = 1 \<or> fc = 2 then
            (case body of
               [a1, a0, q1, q0] \<Rightarrow>
                 (let quantity = be16 q1 q0
                  in if quantity = 0 \<or> 2000 < quantity then [fc OR 0x80, 2]
                     else (let byteCount = (quantity + 7) div 8
                           in [fc, ucast byteCount] @ replicate (unat byteCount) 0))
             | _ \<Rightarrow> [fc OR 0x80, 2])
          else [fc OR 0x80, 1])"

text \<open>One turn of \<open>handleConn\<close> on the bytes received so far: the answer and the unread rest, or the end of
  the connection (a short read or a length outside 1 to 253).\<close>

definition handle_frame :: "u16 list \<Rightarrow> u16 list \<Rightarrow> byte list \<Rightarrow> (byte list \<times> byte list) option" where
  "handle_frame holding input bytes =
     (if length bytes < 7 then None
      else (let header = take 7 bytes;
                len = be16 (header ! 4) (header ! 5);
                unitID = header ! 6
            in if len < 1 \<or> 253 < len then None
               else (let n = unat (len - 1); rest = drop 7 bytes
                     in if length rest < n then None
                        else (let resp = handlePDU (take n rest) holding input;
                                  respLen = of_nat (length resp + 1) :: u16
                              in Some (take 2 header @ [0, 0, hi respLen, lo respLen, unitID] @ resp, drop n rest)))))"

function handleConn :: "u16 list \<Rightarrow> u16 list \<Rightarrow> (nat \<Rightarrow> bool) \<Rightarrow> nat \<Rightarrow> byte list \<Rightarrow> byte list" where
  \<comment> \<open>everything written on a connection that sends these bytes and closes; \<open>sent k\<close> says whether the \<open>k\<close>-th write succeeds\<close>
  "handleConn holding input sent k bytes =
     (case handle_frame holding input bytes of
        None \<Rightarrow> []
      | Some (out, rest) \<Rightarrow> if sent k then out @ handleConn holding input sent (Suc k) rest else [])"
  by pat_completeness auto
termination
  by (relation "measure (\<lambda>(_, _, _, _, bytes). length bytes)")
    (auto simp: handle_frame_def Let_def split: if_splits)

declare handleConn.simps [simp del]

text \<open>The process: a failing \<open>Listen\<close> ends it; otherwise every accepted connection gets a goroutine of its own on the same banks, which
  nothing writes to, and a failing \<open>Accept\<close> is skipped. The result is what each connection receives.\<close>

definition modbus_sim_main :: "(string \<Rightarrow> string + (string + (nat \<Rightarrow> bool) \<times> byte list) list) \<Rightarrow> string \<Rightarrow> string + byte list list" where
  "modbus_sim_main listen addr = (case listen addr of
       Inl e \<Rightarrow> Inl e
     | Inr accepts \<Rightarrow> Inr (concat (map (\<lambda>a. case a of
           Inl e \<Rightarrow> []
         | Inr (sent, bytes) \<Rightarrow> [handleConn sim_holding sim_input sent 0 bytes]) accepts)))"

section \<open>The handler answers with the registers asked for\<close>

lemma be16_hi_lo: "be16 (hi v) (lo v) = v"
  by (rule bit_word_eqI) (auto simp: be16_def hi_def lo_def bit_simps)

definition request :: "functionCode \<Rightarrow> u16 \<Rightarrow> u16 \<Rightarrow> byte list" where
  "request fc a q = [fc, hi a, lo a, hi q, lo q]"

definition reg_bytes :: "u16 list \<Rightarrow> nat \<Rightarrow> byte list" where
  "reg_bytes bank i = [hi (bank ! i), lo (bank ! i)]"

lemma sim_registers_eq:
  assumes "unat a + unat q \<le> 2 ^ 16"
  shows "sim_registers bank a q = concat (map (reg_bytes bank) [unat a..<unat a + unat q])"
proof -
  have "unat (a + of_nat i) = unat a + i" if "i < unat q" for i
    using that assms unsigned_less [of a] by (subst unat_sum) (simp_all add: unat_of_nat)
  then have "map (\<lambda>i. let v = bank ! unat (a + of_nat i) in [hi v, lo v]) [0..<unat q] =
      map (\<lambda>i. reg_bytes bank (unat a + i)) [0..<unat q]"
    by (simp add: reg_bytes_def Let_def)
  also have "\<dots> = map (reg_bytes bank) [unat a..<unat a + unat q]"
    by (rule nth_equalityI) simp_all
  finally show ?thesis by (simp add: sim_registers_def)
qed

lemma handlePDU_registers:
  assumes "fc = 3 \<or> fc = 4" "0 < q" "q \<le> 125" "unat a + unat q \<le> length (if fc = 4 then input else holding)"
    and "length (if fc = 4 then input else holding) \<le> 2 ^ 16"
  shows "handlePDU (request fc a q) holding input =
    [fc, ucast (q * 2)] @ concat (map (reg_bytes (if fc = 4 then input else holding)) [unat a..<unat a + unat q])"
proof -
  have "q \<noteq> 0" "\<not> 125 < q" using assms(2,3) by auto
  then show ?thesis
    using assms sim_registers_eq [of a q "if fc = 4 then input else holding"]
    by (auto simp: handlePDU_def request_def be16_hi_lo Let_def)
qed

section \<open>The simulator behind a client\<close>

definition mbap :: "u16 \<Rightarrow> byte \<Rightarrow> byte list \<Rightarrow> byte list" where
  \<comment> \<open>the header of a Modbus TCP request: transaction, protocol 0, length, unit\<close>
  "mbap tid uid pdu = [hi tid, lo tid, 0, 0, hi (of_nat (length pdu + 1)), lo (of_nat (length pdu + 1)), uid] @ pdu"

definition modbus_exception :: go_error where
  "modbus_exception = \<lparr>err_net_timeout = False, err_net_closed = False, err_dns = False,
     err_msg = ''modbus: exception 'illegal data address', function 'read registers' ''\<rparr>"

definition sim_call :: "u16 list \<Rightarrow> u16 list \<Rightarrow> functionCode \<Rightarrow> u16 \<Rightarrow> u16 \<Rightarrow> u16 \<times> byte \<Rightarrow> (go_error + byte list) \<times> (u16 \<times> byte)" where
  \<comment> \<open>the state is the last transaction number and the unit\<close>
  "sim_call holding input fc a q st =
     (case drop 7 (handleConn holding input (\<lambda>_. True) 0 (mbap (fst st + 1) (snd st) (request fc a q))) of
        f # n # payload \<Rightarrow> if f = fc then Inr payload else Inl modbus_exception
      | _ \<Rightarrow> Inl modbus_exception,
      (fst st + 1, snd st))"

definition sim_handler :: "u16 list \<Rightarrow> u16 list \<Rightarrow> (u16 \<times> byte) goburrow" where
  "sim_handler holding input = \<lparr>gb_Connect = (\<lambda>st. (None, st)), gb_Close = (\<lambda>st. (None, st)), gb_SlaveId = (\<lambda>u st. (fst st, u)),
     gb_ReadCoils = sim_call holding input 1, gb_ReadDiscreteInputs = sim_call holding input 2,
     gb_ReadHoldingRegisters = sim_call holding input 3, gb_ReadInputRegisters = sim_call holding input 4\<rparr>"

definition sim_client :: "u16 list \<Rightarrow> u16 list \<Rightarrow> (u16 \<times> byte) client" where
  "sim_client holding input = tcpClient (sim_handler holding input)"

lemma sim_client_simps [simp]:
  "cl_connect (sim_client holding input) st = (None, st)" "cl_close (sim_client holding input) st = (None, st)"
  "cl_set_unit (sim_client holding input) u st = (fst st, u)"
  "fc \<in> {3, 4} \<Longrightarrow> cl_read (sim_client holding input) fc a q st = sim_call holding input fc a q st"
  by (auto simp: sim_client_def tcpClient_def sim_handler_def readFunc_def)

lemma be16_0 [simp]: "be16 0 l = ucast l"
  by (simp add: be16_def)

definition answer :: "u16 list \<Rightarrow> u16 list \<Rightarrow> u16 \<Rightarrow> byte \<Rightarrow> byte list \<Rightarrow> byte list" where
  \<comment> \<open>the frame of the response\<close>
  "answer holding input tid uid pdu =
     (let resp = handlePDU pdu holding input; n = of_nat (length resp + 1) in [hi tid, lo tid, 0, 0, hi n, lo n, uid] @ resp)"

lemma handle_frame_mbap:
  assumes "length pdu \<le> 252"
  shows "handle_frame holding input (mbap tid uid pdu @ rest) = Some (answer holding input tid uid pdu, rest)"
proof -
  have n: "unat (of_nat (length pdu + 1) :: u16) = length pdu + 1" using assms by (simp add: unat_of_nat del: of_nat_add of_nat_Suc)
  then have "\<not> (of_nat (length pdu + 1) :: u16) < 1" "\<not> 253 < (of_nat (length pdu + 1) :: u16)"
    using assms by (simp_all add: word_less_nat_alt)
  moreover have "unat ((of_nat (length pdu + 1) :: u16) - 1) = length pdu"
    using n by (subst unat_minus_one) auto
  ultimately show ?thesis
    by (simp add: handle_frame_def mbap_def answer_def be16_hi_lo Let_def del: of_nat_add of_nat_Suc)
qed

text \<open>A connection answers its requests in order, whatever they ask for.\<close>

lemma handleConn_requests:
  assumes "\<forall>(tid, uid, pdu) \<in> set reqs. length pdu \<le> 252"
  shows "handleConn holding input (\<lambda>_. True) k (concat (map (\<lambda>(tid, uid, pdu). mbap tid uid pdu) reqs)) =
    concat (map (\<lambda>(tid, uid, pdu). answer holding input tid uid pdu) reqs)"
  using assms
proof (induction reqs arbitrary: k)
  case Nil
  then show ?case by (simp add: handleConn.simps handle_frame_def)
next
  case (Cons q reqs)
  obtain tid uid pdu where q: "q = (tid, uid, pdu)" by (cases q)
  show ?case
    using Cons by (subst handleConn.simps) (simp add: q handle_frame_mbap)
qed

lemma handleConn_request:
  "handleConn holding input (\<lambda>_. True) k (mbap tid uid (request fc a q)) = answer holding input tid uid (request fc a q)"
  using handleConn_requests [of "[(tid, uid, request fc a q)]"] by (simp add: request_def)

text \<open>Connections do not disturb each other: behind any other connections and failed accepts, a client that sends its requests gets exactly its
  answers, from the banks the process started with.\<close>

lemma modbus_sim_serves:
  assumes "listen addr = Inr (before @ Inr (\<lambda>_. True, concat (map (\<lambda>(tid, uid, pdu). mbap tid uid pdu) reqs)) # after)"
    and "\<forall>(tid, uid, pdu) \<in> set reqs. length pdu \<le> 252"
  shows "\<exists>xs ys. modbus_sim_main listen addr = Inr (xs @ concat (map (\<lambda>(tid, uid, pdu). answer sim_holding sim_input tid uid pdu) reqs) # ys) \<and>
    length xs = length (filter (\<lambda>a. \<not> isl a) before) \<and> length ys = length (filter (\<lambda>a. \<not> isl a) after)"
proof -
  have "length (concat (map (\<lambda>a. case a of Inl e \<Rightarrow> [] | Inr (sent, bytes) \<Rightarrow> [handleConn sim_holding sim_input sent 0 bytes]) zs)) =
      length (filter (\<lambda>a. \<not> isl a) zs)" for zs :: "(string + (nat \<Rightarrow> bool) \<times> byte list) list"
    by (induction zs) (auto split: sum.split)
  then show ?thesis
    using assms by (simp add: modbus_sim_main_def handleConn_requests) blast
qed

lemma sim_call_answer:
  "fst (sim_call holding input fc a q st) = (case handlePDU (request fc a q) holding input of
     f # n # payload \<Rightarrow> if f = fc then Inr payload else Inl modbus_exception | _ \<Rightarrow> Inl modbus_exception)"
  by (simp add: sim_call_def handleConn_request answer_def Let_def)

definition sim_mem :: "u16 list \<Rightarrow> u16 list \<Rightarrow> functionCode \<Rightarrow> nat \<Rightarrow> byte list" where
  "sim_mem holding input fc = reg_bytes (if fc = 4 then input else holding)"

lemma sim_client_bank:
  assumes "length holding \<le> 2 ^ 16" "length input \<le> 2 ^ 16"
  shows "register_bank (sim_client holding input) (sim_mem holding input) (\<lambda>fc. length (if fc = 4 then input else holding))"
proof
  show "length (sim_mem holding input fc i) = 2" for fc i by (simp add: sim_mem_def reg_bytes_def)
next
  fix fc q st and a :: u16
  assume h: "fc \<in> {3, 4 :: functionCode}" "0 < q" "q \<le> maxRegistersPerBlock"
    "unat a + unat q \<le> length (if fc = 4 then input else holding)"
  then have "handlePDU (request fc a q) holding input = [fc, ucast (q * 2)] @
      concat (map (reg_bytes (if fc = 4 then input else holding)) [unat a..<unat a + unat q])"
    using assms by (intro handlePDU_registers) (auto simp: maxRegistersPerBlock_def)
  then show "fst (cl_read (sim_client holding input) fc a q st) =
      Inr (register_bytes (sim_mem holding input) fc (unat a) (unat a + unat q))"
    using h(1) by (simp add: sim_call_answer register_bytes_def sim_mem_def)
qed

interpretation demo: register_bank "sim_client sim_holding sim_input" "sim_mem sim_holding sim_input"
  "\<lambda>fc. length (if fc = 4 then sim_input else sim_holding)"
  by (rule sim_client_bank) (simp_all add: sim_holding_def sim_input_def put_regs_def)

end
