(* ===== verification/WebApi.thy ===== *)
theory WebApi
  imports Manager Pipeline Server
begin

text \<open>
  The configuration handlers of the Web API: \<open>src/gateway/internal/api/connections.go\<close>, \<open>devices.go\<close>,
  \<open>datapoints.go\<close> and \<open>test.go\<close>, with \<open>reload\<close> of \<open>router.go\<close>.

  A handler maps a request and the server to a response and the server. A request is its path parameter and what
  decoding its body gave: an error text or the object. A JSON object is the record of its fields; a
  field left out because it is empty is its zero value, and a time is the instant it denotes. An error
  response carries its status and the error it reports. \<open>env\<close> holds the faults of the handler's queries,
  in the order they are made, and those of the reload.
\<close>

section \<open>The server\<close>

record server =
  sv_db :: cfgdb
  sv_manager :: "manager option"
  sv_status :: status_store

record api_env =
  e_flt :: "nat \<Rightarrow> fault"
  e_rel_dev :: fault
  e_rel_conn :: fault
  e_rel_dp :: "nat \<Rightarrow> fault"

datatype api_error = BadID string | BadJSON string | NotValid validation_error | RepoError cfg_error

datatype 'a response = Reply int 'a | ErrorReply int api_error | NoContent

definition reload :: "api_env \<Rightarrow> server \<Rightarrow> server" where
  \<comment> \<open>an error of the manager is only logged\<close>
  "reload env sv = (case sv_manager sv of
       None \<Rightarrow> sv
     | Some m \<Rightarrow> sv\<lparr>sv_manager := Some (snd (Reload (e_rel_dev env) (e_rel_conn env) (e_rel_dp env) (sv_db sv) m))\<rparr>)"

definition parseID :: "string \<Rightarrow> api_error + int" where
  "parseID p = (case ParseInt p of None \<Rightarrow> Inl (BadID p) | Some i \<Rightarrow> Inr i)"

definition writeConnectionRepoError :: "cfg_error \<Rightarrow> 'a response" where
  "writeConnectionRepoError e =
     (if e = NotFound then ErrorReply 404 (RepoError e)
      else if e = InUse then ErrorReply 409 (RepoError e)
      else ErrorReply 500 (RepoError e))"

definition writeDeviceRepoError :: "cfg_error \<Rightarrow> 'a response" where
  "writeDeviceRepoError e = (if e = NotFound then ErrorReply 404 (RepoError e) else ErrorReply 500 (RepoError e))"

definition writeDataPointRepoError :: "cfg_error \<Rightarrow> 'a response" where
  "writeDataPointRepoError e = (if e = NotFound then ErrorReply 404 (RepoError e) else ErrorReply 500 (RepoError e))"

section \<open>Connections\<close>

record connectionDTO =
  jc_id :: int
  jc_name :: string
  jc_protocol :: string
  jc_interface :: string
  jc_ip_address :: string
  jc_port :: int
  jc_baud_rate :: int
  jc_data_bits :: int
  jc_parity :: string
  jc_stop_bits :: int
  jc_timeout_ms :: int
  jc_retry :: int
  jc_enabled :: bool
  jc_next_device_delay_ms :: int

definition toConnectionDTO :: "connection \<Rightarrow> connectionDTO" where
  "toConnectionDTO c = \<lparr>jc_id = c_ID c, jc_name = c_Name c, jc_protocol = c_Protocol c, jc_interface = c_Interface c,
     jc_ip_address = c_IPAddress c, jc_port = c_Port c, jc_baud_rate = c_BaudRate c, jc_data_bits = c_DataBits c,
     jc_parity = c_Parity c, jc_stop_bits = c_StopBits c, jc_timeout_ms = c_TimeoutMs c, jc_retry = c_Retry c,
     jc_enabled = c_Enabled c, jc_next_device_delay_ms = c_NextDeviceDelayMs c\<rparr>"

definition toConnection :: "connectionDTO \<Rightarrow> connection" where
  "toConnection j = \<lparr>c_ID = jc_id j, c_Name = jc_name j, c_Protocol = jc_protocol j, c_Interface = jc_interface j,
     c_IPAddress = jc_ip_address j, c_Port = jc_port j, c_TimeoutMs = jc_timeout_ms j, c_Retry = jc_retry j,
     c_Enabled = jc_enabled j, c_NextDeviceDelayMs = jc_next_device_delay_ms j, c_BaudRate = jc_baud_rate j,
     c_DataBits = jc_data_bits j, c_Parity = jc_parity j, c_StopBits = jc_stop_bits j\<rparr>"

definition listConnections :: "api_env \<Rightarrow> server \<Rightarrow> connectionDTO list response" where
  "listConnections env sv = (case List_connections (e_flt env 0) (sv_db sv) of
       Inl e \<Rightarrow> ErrorReply 500 (RepoError e)
     | Inr conns \<Rightarrow> Reply 200 (map toConnectionDTO conns))"

definition createConnection ::
  "api_env \<Rightarrow> string + connectionDTO \<Rightarrow> server \<Rightarrow> connectionDTO response \<times> server" where
  "createConnection env body sv = (case body of
       Inl m \<Rightarrow> (ErrorReply 400 (BadJSON m), sv)
     | Inr dto \<Rightarrow>
         (let c = toConnection dto
          in case Validate_connection c of
               Some m \<Rightarrow> (ErrorReply 400 (NotValid (Msg m)), sv)
             | None \<Rightarrow>
                 (case Create_connection (e_flt env 0) c (sv_db sv) of
                    (Inl e, db) \<Rightarrow> (ErrorReply 500 (RepoError e), sv\<lparr>sv_db := db\<rparr>)
                  | (Inr i, db) \<Rightarrow> (Reply 201 (toConnectionDTO (c\<lparr>c_ID := i\<rparr>)), reload env (sv\<lparr>sv_db := db\<rparr>)))))"

definition updateConnection ::
  "api_env \<Rightarrow> string \<Rightarrow> string + connectionDTO \<Rightarrow> server \<Rightarrow> connectionDTO response \<times> server" where
  "updateConnection env p body sv = (case parseID p of
       Inl e \<Rightarrow> (ErrorReply 400 e, sv)
     | Inr i \<Rightarrow>
         (case body of
            Inl m \<Rightarrow> (ErrorReply 400 (BadJSON m), sv)
          | Inr dto \<Rightarrow>
              (let c = (toConnection dto)\<lparr>c_ID := i\<rparr>
               in case Validate_connection c of
                    Some m \<Rightarrow> (ErrorReply 400 (NotValid (Msg m)), sv)
                  | None \<Rightarrow>
                      (case Update_connection (e_flt env 0) i c (sv_db sv) of
                         (Some e, db) \<Rightarrow> (writeConnectionRepoError e, sv\<lparr>sv_db := db\<rparr>)
                       | (None, db) \<Rightarrow> (Reply 200 (toConnectionDTO c), reload env (sv\<lparr>sv_db := db\<rparr>))))))"

definition deleteConnection :: "api_env \<Rightarrow> string \<Rightarrow> server \<Rightarrow> unit response \<times> server" where
  "deleteConnection env p sv = (case parseID p of
       Inl e \<Rightarrow> (ErrorReply 400 e, sv)
     | Inr i \<Rightarrow>
         (case Delete_connection (e_flt env 0) i (sv_db sv) of
            (Some e, db) \<Rightarrow> (writeConnectionRepoError e, sv\<lparr>sv_db := db\<rparr>)
          | (None, db) \<Rightarrow> (NoContent, reload env (sv\<lparr>sv_db := db\<rparr>))))"

section \<open>Devices\<close>

record deviceDTO =
  jd_id :: int
  jd_name :: string
  jd_connection_id :: int
  jd_slave_id :: int
  jd_enabled :: bool
  jd_status :: string
  jd_last_seen :: "gotime option"
  jd_last_poll_duration_ms :: "int option"
  jd_datapoints_polled :: int
  jd_block_reads :: int

definition toDeviceDTO :: "status_store \<Rightarrow> device \<Rightarrow> deviceDTO" where
  "toDeviceDTO st d =
     (let dto = \<lparr>jd_id = d_ID d, jd_name = d_Name d, jd_connection_id = d_ConnectionID d, jd_slave_id = d_SlaveID d,
            jd_enabled = d_Enabled d, jd_status = [], jd_last_seen = None, jd_last_poll_duration_ms = None,
            jd_datapoints_polled = 0, jd_block_reads = 0\<rparr>
      in case Get_status (d_ID d) st of
           (info, ok) \<Rightarrow>
             if ok then
               (let dto = dto\<lparr>jd_status := i_Quality info, jd_last_seen := Some (i_LastSeen info)\<rparr>
                in if 0 < i_DatapointsPolled info
                   then dto\<lparr>jd_last_poll_duration_ms := Some (i_LastPollDurationMs info),
                            jd_datapoints_polled := i_DatapointsPolled info, jd_block_reads := i_BlockReads info\<rparr>
                   else dto)
             else dto)"

definition toDevice :: "deviceDTO \<Rightarrow> device" where
  "toDevice j = \<lparr>d_ID = jd_id j, d_Name = jd_name j, d_ConnectionID = jd_connection_id j, d_SlaveID = jd_slave_id j,
     d_Enabled = jd_enabled j\<rparr>"

definition listDevices :: "api_env \<Rightarrow> server \<Rightarrow> deviceDTO list response" where
  "listDevices env sv = (case List_devices (e_flt env 0) (sv_db sv) of
       Inl e \<Rightarrow> ErrorReply 500 (RepoError e)
     | Inr ds \<Rightarrow> Reply 200 (map (toDeviceDTO (sv_status sv)) ds))"

definition createDevice :: "api_env \<Rightarrow> string + deviceDTO \<Rightarrow> server \<Rightarrow> deviceDTO response \<times> server" where
  "createDevice env body sv = (case body of
       Inl m \<Rightarrow> (ErrorReply 400 (BadJSON m), sv)
     | Inr dto \<Rightarrow>
         (let d = toDevice dto
          in case Validate_device d of
               Some m \<Rightarrow> (ErrorReply 400 (NotValid (Msg m)), sv)
             | None \<Rightarrow>
                 (case Create_device (e_flt env 0) d (sv_db sv) of
                    (Inl e, db) \<Rightarrow> (ErrorReply 500 (RepoError e), sv\<lparr>sv_db := db\<rparr>)
                  | (Inr i, db) \<Rightarrow>
                      (let sv' = reload env (sv\<lparr>sv_db := db\<rparr>) in (Reply 201 (toDeviceDTO (sv_status sv') (d\<lparr>d_ID := i\<rparr>)), sv')))))"

definition updateDevice :: "api_env \<Rightarrow> string \<Rightarrow> string + deviceDTO \<Rightarrow> server \<Rightarrow> deviceDTO response \<times> server" where
  "updateDevice env p body sv = (case parseID p of
       Inl e \<Rightarrow> (ErrorReply 400 e, sv)
     | Inr i \<Rightarrow>
         (case body of
            Inl m \<Rightarrow> (ErrorReply 400 (BadJSON m), sv)
          | Inr dto \<Rightarrow>
              (let d = (toDevice dto)\<lparr>d_ID := i\<rparr>
               in case Validate_device d of
                    Some m \<Rightarrow> (ErrorReply 400 (NotValid (Msg m)), sv)
                  | None \<Rightarrow>
                      (case Update_device (e_flt env 0) i d (sv_db sv) of
                         (Some e, db) \<Rightarrow> (writeDeviceRepoError e, sv\<lparr>sv_db := db\<rparr>)
                       | (None, db) \<Rightarrow>
                           (let sv' = reload env (sv\<lparr>sv_db := db\<rparr>) in (Reply 200 (toDeviceDTO (sv_status sv') d), sv'))))))"

definition deleteDevice :: "api_env \<Rightarrow> string \<Rightarrow> server \<Rightarrow> unit response \<times> server" where
  "deleteDevice env p sv = (case parseID p of
       Inl e \<Rightarrow> (ErrorReply 400 e, sv)
     | Inr i \<Rightarrow>
         (case Delete_device (e_flt env 0) i (sv_db sv) of
            (Some e, db) \<Rightarrow> (writeDeviceRepoError e, sv\<lparr>sv_db := db\<rparr>)
          | (None, db) \<Rightarrow> (NoContent, reload env (sv\<lparr>sv_db := db\<rparr>))))"

section \<open>Data points\<close>

record dataPointDTO =
  jp_id :: int
  jp_device_id :: int
  jp_tag_name :: string
  jp_function_code :: "8 word"
  jp_register_address :: u16
  jp_data_type :: string
  jp_byte_order :: string
  jp_word_order :: string
  jp_scale :: f64
  jp_offset :: f64
  jp_unit :: string
  jp_priority :: string
  jp_enabled :: bool

definition toDataPointDTO :: "datapoint \<Rightarrow> dataPointDTO" where
  "toDataPointDTO p = \<lparr>jp_id = dp_ID p, jp_device_id = dp_DeviceID p, jp_tag_name = dp_TagName p,
     jp_function_code = dp_FunctionCode p, jp_register_address = dp_RegisterAddress p, jp_data_type = dp_DataType p,
     jp_byte_order = dp_ByteOrder p, jp_word_order = dp_WordOrder p, jp_scale = dp_Scale p, jp_offset = dp_Offset p,
     jp_unit = dp_Unit p, jp_priority = dp_Priority p, jp_enabled = dp_Enabled p\<rparr>"

definition toDataPoint :: "dataPointDTO \<Rightarrow> datapoint" where
  "toDataPoint j = \<lparr>dp_ID = jp_id j, dp_DeviceID = jp_device_id j, dp_TagName = jp_tag_name j,
     dp_FunctionCode = jp_function_code j, dp_RegisterAddress = jp_register_address j, dp_DataType = jp_data_type j,
     dp_ByteOrder = jp_byte_order j, dp_WordOrder = jp_word_order j, dp_Scale = jp_scale j, dp_Offset = jp_offset j,
     dp_Unit = jp_unit j, dp_Priority = jp_priority j, dp_Enabled = jp_enabled j\<rparr>"

definition listDataPoints :: "api_env \<Rightarrow> string \<Rightarrow> server \<Rightarrow> dataPointDTO list response" where
  "listDataPoints env p sv = (case parseID p of
       Inl e \<Rightarrow> ErrorReply 400 e
     | Inr i \<Rightarrow>
         (case ListByDevice (e_flt env 0) i (sv_db sv) of
            Inl e \<Rightarrow> ErrorReply 500 (RepoError e)
          | Inr ps \<Rightarrow> Reply 200 (map toDataPointDTO ps)))"

definition createDataPoint ::
  "(f64 \<Rightarrow> f64 option) \<Rightarrow> api_env \<Rightarrow> string \<Rightarrow> string + dataPointDTO \<Rightarrow> server \<Rightarrow> dataPointDTO response \<times> server" where
  "createDataPoint bind env p body sv = (case parseID p of
       Inl e \<Rightarrow> (ErrorReply 400 e, sv)
     | Inr dev \<Rightarrow>
         (case Get_device (e_flt env 0) dev (sv_db sv) of
            Inl e \<Rightarrow> (writeDeviceRepoError e, sv)
          | Inr _ \<Rightarrow>
              (case body of
                 Inl m \<Rightarrow> (ErrorReply 400 (BadJSON m), sv)
               | Inr dto \<Rightarrow>
                   (let dp = (toDataPoint dto)\<lparr>dp_DeviceID := dev\<rparr>
                    in case Validate_datapoint dp of
                         Some v \<Rightarrow> (ErrorReply 400 (NotValid v), sv)
                       | None \<Rightarrow>
                           (case Create_datapoint bind (e_flt env 1) dp (sv_db sv) of
                              (Inl e, db) \<Rightarrow> (ErrorReply 500 (RepoError e), sv\<lparr>sv_db := db\<rparr>)
                            | (Inr i, db) \<Rightarrow>
                                (Reply 201 (toDataPointDTO (dp\<lparr>dp_ID := i\<rparr>)), reload env (sv\<lparr>sv_db := db\<rparr>)))))))"

definition updateDataPoint ::
  "(f64 \<Rightarrow> f64 option) \<Rightarrow> api_env \<Rightarrow> string \<Rightarrow> string + dataPointDTO \<Rightarrow> server \<Rightarrow> dataPointDTO response \<times> server" where
  "updateDataPoint bind env p body sv = (case parseID p of
       Inl e \<Rightarrow> (ErrorReply 400 e, sv)
     | Inr i \<Rightarrow>
         (case Get_datapoint (e_flt env 0) i (sv_db sv) of
            Inl e \<Rightarrow> (writeDataPointRepoError e, sv)
          | Inr existing \<Rightarrow>
              (case body of
                 Inl m \<Rightarrow> (ErrorReply 400 (BadJSON m), sv)
               | Inr dto \<Rightarrow>
                   (let dp = (toDataPoint dto)\<lparr>dp_ID := i, dp_DeviceID := dp_DeviceID existing\<rparr>
                    in case Validate_datapoint dp of
                         Some v \<Rightarrow> (ErrorReply 400 (NotValid v), sv)
                       | None \<Rightarrow>
                           (case Update_datapoint bind (e_flt env 1) i dp (sv_db sv) of
                              (Some e, db) \<Rightarrow> (writeDataPointRepoError e, sv\<lparr>sv_db := db\<rparr>)
                            | (None, db) \<Rightarrow> (Reply 200 (toDataPointDTO dp), reload env (sv\<lparr>sv_db := db\<rparr>)))))))"

definition deleteDataPoint :: "api_env \<Rightarrow> string \<Rightarrow> server \<Rightarrow> unit response \<times> server" where
  "deleteDataPoint env p sv = (case parseID p of
       Inl e \<Rightarrow> (ErrorReply 400 e, sv)
     | Inr i \<Rightarrow>
         (case Delete_datapoint (e_flt env 0) i (sv_db sv) of
            (Some e, db) \<Rightarrow> (writeDataPointRepoError e, sv\<lparr>sv_db := db\<rparr>)
          | (None, db) \<Rightarrow> (NoContent, reload env (sv\<lparr>sv_db := db\<rparr>))))"

end
