(* ===== verification/LiveTest.thy ===== *)
theory LiveTest
  imports WebApi ModbusSim
begin

text \<open>
  The two actions of \<open>src/gateway/internal/api/test.go\<close>: "Test Connection" and "Test Read". \<open>dial\<close> stands for the two
  client constructors: it gives the client of a configuration and its initial state. Both handlers
  return the response and, if a client was built, its final state.
\<close>

section \<open>Handlers\<close>

datatype test_error = Build build_error | Net go_error | Codec modbus_error

record testConnectionResult =
  tc_Quality :: string
  tc_Error :: "test_error option"

record testReadResult =
  tr_Tag :: string
  tr_Value :: "f64 option"
  tr_Unit :: string
  tr_Quality :: string
  tr_Error :: "test_error option"

definition testDeviceConnection ::
  "(client_config \<Rightarrow> 'c client \<times> 'c) \<Rightarrow> api_env \<Rightarrow> string \<Rightarrow> server \<Rightarrow> testConnectionResult response \<times> 'c option" where
  "testDeviceConnection dial env p sv =
     (case parseID p of Inl e \<Rightarrow> (ErrorReply 400 e, None) | Inr i \<Rightarrow>
      case Get_device (e_flt env 0) i (sv_db sv) of Inl e \<Rightarrow> (writeDeviceRepoError e, None) | Inr d \<Rightarrow>
      case Get_connection (e_flt env 1) (d_ConnectionID d) (sv_db sv) of Inl e \<Rightarrow> (writeConnectionRepoError e, None) | Inr conn \<Rightarrow>
      case BuildClient conn of
        Inl e \<Rightarrow> (Reply 200 \<lparr>tc_Quality = quality_string Invalid, tc_Error = Some (Build e)\<rparr>, None)
      | Inr cfg \<Rightarrow>
          (let (cl, st) = dial cfg;
               (connErr, st1) = cl_connect cl (cl_set_unit cl (of_int (d_SlaveID d)) st);
               st2 = snd (cl_close cl st1)
           in (Reply 200 \<lparr>tc_Quality = quality_string (QualityFromError connErr), tc_Error = map_option Net connErr\<rparr>, Some st2)))"

definition testDataPointRead ::
  "(client_config \<Rightarrow> 'c client \<times> 'c) \<Rightarrow> 'c ctx \<Rightarrow> bool \<Rightarrow> api_env \<Rightarrow> string \<Rightarrow> server \<Rightarrow> testReadResult response \<times> 'c option" where
  "testDataPointRead dial ctx fused env p sv =
     (case parseID p of Inl e \<Rightarrow> (ErrorReply 400 e, None) | Inr i \<Rightarrow>
      case Get_datapoint (e_flt env 0) i (sv_db sv) of Inl e \<Rightarrow> (writeDataPointRepoError e, None) | Inr dp \<Rightarrow>
      case Get_device (e_flt env 1) (dp_DeviceID dp) (sv_db sv) of Inl e \<Rightarrow> (writeDeviceRepoError e, None) | Inr d \<Rightarrow>
      case Get_connection (e_flt env 2) (d_ConnectionID d) (sv_db sv) of Inl e \<Rightarrow> (writeConnectionRepoError e, None) | Inr conn \<Rightarrow>
      (let failed = (\<lambda>q e. Reply 200 \<lparr>tr_Tag = dp_TagName dp, tr_Value = None, tr_Unit = dp_Unit dp,
             tr_Quality = quality_string q, tr_Error = Some e\<rparr>)
       in case BuildClient conn of
            Inl e \<Rightarrow> (failed Invalid (Build e), None)
          | Inr cfg \<Rightarrow>
              (let (cl, st) = dial cfg;
                   (cerr, st1) = cl_connect cl (cl_set_unit cl (of_int (d_SlaveID d)) st)
               in case cerr of
                    Some e \<Rightarrow> (failed (QualityFromError (Some e)) (Net e), Some st1) \<comment> \<open>the deferred close is not yet registered\<close>
                  | None \<Rightarrow>
                      (case RegisterCount (dp_DataType dp) of
                         Inl e \<Rightarrow> (failed Invalid (Codec e), Some (snd (cl_close cl st1)))
                       | Inr qty \<Rightarrow>
                           (let ((raw, attempts, err), st2) =
                                  ReadWithRetry ctx cl (dp_FunctionCode dp) (dp_RegisterAddress dp) qty (c_Retry conn) st1;
                                st3 = snd (cl_close cl st2)
                            in case err of
                                 Some e \<Rightarrow> (failed (QualityFromError (Some e)) (Net e), Some st3)
                               | None \<Rightarrow>
                                   (case Decode raw (dp_DataType dp) (dp_ByteOrder dp) of
                                      Inl e \<Rightarrow> (failed Invalid (Codec e), Some st3)
                                    | Inr decoded \<Rightarrow>
                                        (Reply 200 \<lparr>tr_Tag = dp_TagName dp,
                                           tr_Value = Some (ApplyScale fused decoded (dp_Scale dp) (dp_Offset dp)),
                                           tr_Unit = dp_Unit dp, tr_Quality = quality_string Good, tr_Error = None\<rparr>,
                                         Some st3)))))))"

section \<open>A test read shows what the poller records\<close>

lemma ReadWithRetry_success:
  assumes "0 \<le> n" "fst (cl_read cl fc a q st) = Inr raw"
  shows "\<exists>st'. ReadWithRetry ctx cl fc a q n st = ((raw, 1, None), st')"
  using assms by (cases "cl_read cl fc a q st") (simp add: ReadWithRetry_def read_loop.simps)

definition same_answer :: "testReadResult \<Rightarrow> acq_reading \<Rightarrow> bool" where
  "same_answer t r \<longleftrightarrow> tr_Tag t = a_Tag r \<and> tr_Value t = a_Value r \<and> tr_Unit t = a_Unit r \<and> tr_Quality t = quality_string (a_Quality r)"

context register_bank
begin

lemma test_read_bank:
  assumes p: "parseID p = Inr i" and dp: "Get_datapoint None i (sv_db sv) = Inr dp"
    and d: "Get_device None (dp_DeviceID dp) (sv_db sv) = Inr d" and conn: "Get_connection None (d_ConnectionID d) (sv_db sv) = Inr conn"
    and cfg: "BuildClient conn = Inr cfg" "dial cfg = (cl, st)" "0 \<le> c_Retry conn" "\<And>s. fst (cl_connect cl s) = None"
    and reg: "known dp" "dp_FunctionCode dp \<in> {3, 4}" "reg_end dp \<le> bank_size (dp_FunctionCode dp)" and env: "\<And>k. e_flt env k = None"
  shows "\<exists>t st'. testDataPointRead dial ctx fused env p sv = (Reply 200 t, st') \<and>
    same_answer t (decodeAndEmit fused d dp (own_registers mem dp) (dp_RegisterAddress dp) now)"
proof -
  obtain q where q: "RegisterCount (dp_DataType dp) = Inr q" using reg(1) known_iff by blast
  have w: "ByteWidth (dp_DataType dp) = Inr (2 * regs dp)" using RegisterCount_ByteWidth [OF q] regs_eq [OF q] by simp
  have own: "length (own_registers mem dp) = 2 * regs dp" by (simp add: own_registers_def reg_end_def)
  have qs: "0 < q" "q \<le> maxRegistersPerBlock"
    using RegisterCount_small [OF q] order_trans [of q 4 125] by (simp_all add: maxRegistersPerBlock_def)
  have e: "reg_start dp = unat (dp_RegisterAddress dp)" "reg_end dp = unat (dp_RegisterAddress dp) + unat q"
    using regs_eq [OF q] by (simp_all add: reg_start_def reg_end_def)
  have rd: "fst (cl_read cl (dp_FunctionCode dp) (dp_RegisterAddress dp) q s) = Inr (own_registers mem dp)" for s
    using bank_read [OF reg(2) qs, of "dp_RegisterAddress dp" s] reg(3) by (simp add: e own_registers_def)
  obtain st1 where c1: "cl_connect cl (cl_set_unit cl (of_int (d_SlaveID d)) st) = (None, st1)"
    using cfg(4) by (metis prod.collapse)
  obtain st2 where r: "ReadWithRetry ctx cl (dp_FunctionCode dp) (dp_RegisterAddress dp) q (c_Retry conn) st1 =
      ((own_registers mem dp, 1, None), st2)"
    using ReadWithRetry_success [OF cfg(3) rd] by blast
  show ?thesis
    using own
    by (auto simp: testDataPointRead_def p dp d conn cfg(1,2) env c1 q r decodeAndEmit_def w same_answer_def badReading_def Let_def
        split: sum.split)
qed

end

text \<open>C32: "Test Read" shows what the poller records. For a device that answers with the contents of its holding or
  input registers, the on-demand read of one data point, made on a connection of its own, gives the tag, unit, quality and
  value of the one reading that a polling pass, with whatever block reads it chose to make, emits for that data point.\<close>

theorem test_read_matches_poll:
  assumes bank: "register_bank cl mem bank_size"
    and plan: "sql_order srt" "fc_order fcs dps" "distinct (map dp_ID dps)"
      "\<forall>x \<in> set dps. dp_FunctionCode x \<in> {3, 4} \<and> reg_end x \<le> bank_size (dp_FunctionCode x) \<and> reg_end x < 2 ^ 16"
    and poll: "readDevice ctx cl fused fcs srt el d dps now diag st = ((rs, n, k), diag', st')"
    and test: "parseID p = Inr i" "Get_datapoint None i (sv_db sv) = Inr dp" "Get_device None (dp_DeviceID dp) (sv_db sv) = Inr d"
      "Get_connection None (d_ConnectionID d) (sv_db sv) = Inr conn" "BuildClient conn = Inr cfg" "dial cfg = (cl, st0)"
      "0 \<le> c_Retry conn" "\<And>s. fst (cl_connect cl s) = None" "\<And>j. e_flt env j = None"
    and dp: "dp \<in> set dps" "known dp"
  shows "\<exists>t st2 r. testDataPointRead dial ctx' fused env p sv = (Reply 200 t, st2) \<and> r \<in> set rs \<and> a_DatapointID r = dp_ID dp \<and>
    same_answer t r \<and> (\<forall>r' \<in> set rs. a_DatapointID r' = dp_ID dp \<longrightarrow> r' = r)"
proof -
  let ?read = "\<lambda>x. decodeAndEmit fused d x (own_registers mem x) (dp_RegisterAddress x) now"
  have rs: "set rs = ?read ` set (filter known dps)"
    using set_eq_of_mset [OF register_bank.readDevice_bank [OF bank plan(1,2,4) poll]] by simp
  have id: "a_DatapointID (?read x) = dp_ID x" for x
    using decodeAndEmit_ok(2) [of d x fused "own_registers mem x" "dp_RegisterAddress x" now] by (simp add: reading_of_def)
  have uniq: "r' = ?read dp" if r': "r' \<in> set rs" "a_DatapointID r' = dp_ID dp" for r'
  proof -
    obtain x where x: "x \<in> set dps" "r' = ?read x" using r'(1) rs by auto
    then have "x = dp" using r'(2) id dp(1) plan(3) by (auto simp: distinct_map inj_on_def)
    with x show ?thesis by simp
  qed
  obtain t st2 where "testDataPointRead dial ctx' fused env p sv = (Reply 200 t, st2)" "same_answer t (?read dp)"
    using register_bank.test_read_bank [where dial = dial and cl = cl and bank_size = bank_size, OF bank test(1-8) dp(2) _ _ test(9),
        where now = now and ctx = ctx' and fused = fused] plan(4) dp(1) by blast
  moreover have "?read dp \<in> set rs" using rs dp by auto
  ultimately show ?thesis using id uniq by blast
qed

definition stored_dp :: datapoint where
  "stored_dp = sample_dp\<lparr>dp_ID := 1, dp_Priority := ''NORMAL''\<rparr>"

theorem test_read_matches_poll_witness:
  "\<exists>rs n k diag st t st2 r. readDevice (\<lambda>_. None) (sim_client sim_holding sim_input) False [4] sort_key (\<lambda>_. 0)
      (sample_dev\<lparr>d_ID := 1\<rparr>) [stored_dp] 7 None (0, 7) = ((rs, n, k), diag, st) \<and>
    testDataPointRead (\<lambda>_. (sim_client sim_holding sim_input, (0, 0))) (\<lambda>_. None) False
      \<lparr>e_flt = (\<lambda>_. None), e_rel_dev = None, e_rel_conn = None, e_rel_dp = (\<lambda>_. None)\<rparr> ''1''
      \<lparr>sv_db = sample_cfg_db, sv_manager = None, sv_status = Map.empty\<rparr> = (Reply 200 t, st2) \<and> r \<in> set rs \<and> same_answer t r"
proof -
  let ?sv = "\<lparr>sv_db = sample_cfg_db, sv_manager = None, sv_status = Map.empty\<rparr>"
  let ?cl = "sim_client sim_holding sim_input"
  let ?d = "sample_dev\<lparr>d_ID := 1\<rparr>"
  let ?env = "\<lparr>e_flt = (\<lambda>_. None), e_rel_dev = None, e_rel_conn = None, e_rel_dp = (\<lambda>_. None)\<rparr>"
  let ?dial = "\<lambda>_ :: client_config. (?cl, (0, 0))"
  obtain rs n k diag st where poll: "readDevice (\<lambda>_. None) ?cl False [4] sort_key (\<lambda>_. 0) ?d [stored_dp] 7 None (0, 7) = ((rs, n, k), diag, st)"
    by (metis prod.exhaust_sel)
  have f: "fc_order [4] [stored_dp]" "distinct (map dp_ID [stored_dp])" "known stored_dp"
    by (simp_all add: fc_order_def stored_dp_def sample_dp_def known_def ByteWidth_def)
  have b: "\<forall>x \<in> set [stored_dp]. dp_FunctionCode x \<in> {3, 4} \<and>
      reg_end x \<le> length (if dp_FunctionCode x = 4 then sim_input else sim_holding) \<and> reg_end x < 2 ^ 16"
    by (simp add: stored_dp_def sample_dp_def reg_end_def reg_start_def regs_def RegisterCount_def ByteWidth_def sim_input_def)
  have p: "parseID ''1'' = Inr 1" by (simp add: parseID_def ParseInt_def digit_def Let_def)
  have g1: "Get_datapoint None 1 (sv_db ?sv) = Inr stored_dp"
    by (simp add: Get_datapoint_def row_by_def sample_cfg_rows) (simp add: stored_dp_def sample_dp_def dp_priorityOrDefault_def)
  have g2: "Get_device None (dp_DeviceID stored_dp) (sv_db ?sv) = Inr ?d"
    by (simp add: Get_device_def row_by_def sample_cfg_rows stored_dp_def sample_dp_def)
  have g3: "Get_connection None (d_ConnectionID ?d) (sv_db ?sv) = Inr (sample_conn\<lparr>c_ID := 1\<rparr>)"
    by (simp add: Get_connection_def row_by_def sample_cfg_rows sample_dev_def)
  obtain cfg where c: "BuildClient (sample_conn\<lparr>c_ID := 1\<rparr>) = Inr cfg"
    by (simp add: BuildClient_def sample_conn_def Let_def)
  have r: "0 \<le> c_Retry (sample_conn\<lparr>c_ID := 1\<rparr>)" "\<And>s. fst (cl_connect ?cl s) = None" "\<And>j. e_flt ?env j = None" "?dial cfg = (?cl, (0, 0))"
    by (simp_all add: sample_conn_def)
  have m: "stored_dp \<in> set [stored_dp]" by simp
  from test_read_matches_poll [where dial = ?dial and cl = ?cl, OF demo.register_bank_axioms stable.sql_order_axioms f(1,2) b poll p g1 g2 g3 c
      r(4) r(1,2,3) m f(3), of "\<lambda>_. None"] poll
  show ?thesis by blast
qed

end
