(* ===== verification/Settings.thy ===== *)
theory Settings
  imports Modbus
begin

text \<open>
  The static configuration: \<open>src/gateway/internal/config/config.go\<close> with its defaults, and the settings
  page \<open>src/gateway/internal/api/settings.go\<close> that edits and saves it.

  The YAML codec is third-party code: \<open>unmarshal\<close> and \<open>marshal\<close> are arguments. \<open>os.ExpandEnv\<close> is modelled from
  the documentation of the standard library. Strings are ASCII.
\<close>

section \<open>Records\<close>

record gateway_config =
  gw_ID :: string
  gw_Name :: string

record queue_config =
  qc_RetentionDays :: int
  qc_SweepInterval :: int
  qc_StorageFullPercent :: f64
  qc_StorageSweepInterval :: int
  qc_EvictBatchSize :: int

record forwarder_config =
  fc_Transport :: string
  fc_ServerURL :: string
  fc_BatchSize :: int
  fc_PollIntervalMs :: int
  fc_SendTimeoutMs :: int

record log_config =
  lc_Level :: string
  lc_Format :: string

record tls_config =
  tls_Enabled :: bool
  tls_CAFile :: string
  tls_CertFile :: string
  tls_KeyFile :: string
  tls_InsecureSkipVerify :: bool

record mqtt_settings =
  mq_BrokerURL :: string
  mq_ClientID :: string
  mq_Username :: string
  mq_Password :: string
  mq_QoS :: int
  mq_DataTopic :: string
  mq_AckTopic :: string
  mq_KeepAliveSec :: int
  mq_ConnectTimeoutMs :: int
  mq_PublishTimeoutMs :: int
  mq_AckTimeoutMs :: int
  mq_TLS :: tls_config

record time_config =
  tc_NTPServer :: string
  tc_Timezone :: string
  tc_SyncIntervalSec :: int
  tc_QueryTimeoutMs :: int
  tc_RTCDevice :: string

record config =
  cf_Gateway :: gateway_config
  cf_ListenAddr :: string
  cf_DatabasePath :: string
  cf_Queue :: queue_config
  cf_Forwarder :: forwarder_config
  cf_Log :: log_config
  cf_MQTT :: mqtt_settings
  cf_Time :: time_config

section \<open>Environment variables in the file\<close>

definition shell_special :: "char \<Rightarrow> bool" where
  "shell_special c \<longleftrightarrow> c \<in> set ''*#$@!?-0123456789''"

definition alnum :: "char \<Rightarrow> bool" where
  "alnum c \<longleftrightarrow> (let n = of_char c :: nat in c = CHR ''_'' \<or> 48 \<le> n \<and> n \<le> 57 \<or> 97 \<le> n \<and> n \<le> 122 \<or> 65 \<le> n \<and> n \<le> 90)"

definition shell_name :: "string \<Rightarrow> string \<times> nat" where
  \<comment> \<open>the variable after a dollar sign and the characters it takes up\<close>
  "shell_name s = (case s of
       [] \<Rightarrow> ([], 0)
     | c # cs \<Rightarrow>
         if c = CHR ''{'' then
           (if 2 \<le> length cs \<and> shell_special (cs ! 0) \<and> cs ! 1 = CHR ''}'' then ([cs ! 0], 3)
            else if CHR ''}'' \<in> set cs then
              (let name = takeWhile (\<lambda>x. x \<noteq> CHR ''}'') cs in (name, length name + 2))
            else ([], 1))
         else if shell_special c then ([c], 1)
         else (let name = takeWhile alnum s in (name, length name)))"

function ExpandEnv :: "(string \<Rightarrow> string) \<Rightarrow> string \<Rightarrow> string" where
  "ExpandEnv env [] = []"
| "ExpandEnv env (c # s) =
     (if c = CHR ''$'' \<and> s \<noteq> [] then
        (let (name, w) = shell_name s
         in (if name = [] \<and> 0 < w then [] else if name = [] then [c] else env name) @ ExpandEnv env (drop w s))
      else c # ExpandEnv env s)"
  by pat_completeness auto
termination
  by (relation "measure (\<lambda>(_, s). length s)") auto

section \<open>Loading and saving\<close>

definition f64_nonpos :: "f64 \<Rightarrow> bool" where
  \<comment> \<open>\<open>x <= 0\<close>\<close>
  "f64_nonpos x = (case x of NaN \<Rightarrow> False | Inf s \<Rightarrow> s | Fin s m e \<Rightarrow> s \<or> m = 0)"

definition or_default :: "int \<Rightarrow> int \<Rightarrow> int" where
  "or_default d x = (if x \<le> 0 then d else x)"

definition or_text :: "string \<Rightarrow> string \<Rightarrow> string" where
  "or_text d x = (if x = [] then d else x)"

definition queue_defaults :: "queue_config \<Rightarrow> queue_config" where
  "queue_defaults q = \<lparr>qc_RetentionDays = or_default 30 (qc_RetentionDays q), qc_SweepInterval = or_default 60 (qc_SweepInterval q),
     qc_StorageFullPercent = (if f64_nonpos (qc_StorageFullPercent q) then f64_of_int 95 else qc_StorageFullPercent q),
     qc_StorageSweepInterval = or_default 60 (qc_StorageSweepInterval q),
     qc_EvictBatchSize = or_default 100 (qc_EvictBatchSize q)\<rparr>"

definition forwarder_defaults :: "forwarder_config \<Rightarrow> forwarder_config" where
  "forwarder_defaults f = f\<lparr>fc_BatchSize := or_default 100 (fc_BatchSize f), fc_PollIntervalMs := or_default 1000 (fc_PollIntervalMs f),
     fc_SendTimeoutMs := or_default 5000 (fc_SendTimeoutMs f), fc_Transport := or_text ''http'' (fc_Transport f)\<rparr>"

definition mqtt_defaults :: "string \<Rightarrow> mqtt_settings \<Rightarrow> mqtt_settings" where
  "mqtt_defaults gatewayID m =
     (let client = or_text gatewayID (mq_ClientID m)
      in m\<lparr>mq_QoS := or_default 1 (mq_QoS m), mq_ClientID := client,
           mq_DataTopic := or_text (''gateway/'' @ client @ ''/data'') (mq_DataTopic m),
           mq_AckTopic := or_text (''gateway/'' @ client @ ''/ack'') (mq_AckTopic m),
           mq_KeepAliveSec := or_default 30 (mq_KeepAliveSec m),
           mq_ConnectTimeoutMs := or_default 5000 (mq_ConnectTimeoutMs m),
           mq_PublishTimeoutMs := or_default 5000 (mq_PublishTimeoutMs m),
           mq_AckTimeoutMs := or_default 10000 (mq_AckTimeoutMs m)\<rparr>)"

definition time_defaults :: "time_config \<Rightarrow> time_config" where
  "time_defaults t = t\<lparr>tc_SyncIntervalSec := or_default 300 (tc_SyncIntervalSec t), tc_QueryTimeoutMs := or_default 3000 (tc_QueryTimeoutMs t),
     tc_RTCDevice := or_text ''/dev/rtc0'' (tc_RTCDevice t), tc_Timezone := or_text ''UTC'' (tc_Timezone t)\<rparr>"

definition with_defaults :: "config \<Rightarrow> config" where
  "with_defaults c = c\<lparr>cf_Queue := queue_defaults (cf_Queue c), cf_Forwarder := forwarder_defaults (cf_Forwarder c),
     cf_MQTT := mqtt_defaults (gw_ID (cf_Gateway c)) (cf_MQTT c), cf_Time := time_defaults (cf_Time c)\<rparr>"

type_synonym files = "string \<Rightarrow> string option"

definition Load :: "(string \<Rightarrow> string + config) \<Rightarrow> (string \<Rightarrow> string) \<Rightarrow> files \<Rightarrow> string \<Rightarrow> string + config" where
  "Load unmarshal env fs path = (case fs path of
       None \<Rightarrow> Inl (''open '' @ path @ '': no such file or directory'')
     | Some raw \<Rightarrow>
         (case unmarshal (ExpandEnv env raw) of
            Inl e \<Rightarrow> Inl e
          | Inr c \<Rightarrow> Inr (with_defaults c)))"

definition Save :: "(config \<Rightarrow> string + string) \<Rightarrow> (string \<times> string option) option \<Rightarrow> string \<Rightarrow> config \<Rightarrow> files \<Rightarrow> string option \<times> files" where
  \<comment> \<open>\<open>werr\<close> is the error of \<open>os.WriteFile\<close>, if it fails, and what the file then holds: it is truncated before it is written\<close>
  "Save marshal werr path c fs = (case marshal c of
       Inl e \<Rightarrow> (Some (''marshal config: '' @ e), fs)
     | Inr data \<Rightarrow>
         (case werr of
            Some (e, left) \<Rightarrow> (Some (''write config: '' @ e), fs(path := left))
          | None \<Rightarrow> (None, fs(path \<mapsto> data))))"

section \<open>The settings page\<close>

record settingsDTO =
  js_gateway_id :: string
  js_gateway_name :: string
  js_broker_url :: string
  js_client_id :: string
  js_username :: string
  js_password :: string
  js_qos :: int
  js_data_topic :: string
  js_ack_topic :: string
  js_keepalive :: int
  js_ntp_server :: string
  js_timezone :: string
  js_sync_interval :: int
  js_retention_days :: int

definition space :: "char \<Rightarrow> bool" where
  "space c \<longleftrightarrow> c = CHR '' '' \<or> (let n = of_char c :: nat in 9 \<le> n \<and> n \<le> 13)"

definition TrimSpace :: "string \<Rightarrow> string" where
  "TrimSpace s = rev (dropWhile space (rev (dropWhile space s)))"

definition HasPrefix :: "string \<Rightarrow> string \<Rightarrow> bool" where
  "HasPrefix s p \<longleftrightarrow> prefix p s"

definition blank :: "char \<Rightarrow> bool" where
  \<comment> \<open>one of \<open>" \t\r\n"\<close>\<close>
  "blank c \<longleftrightarrow> c = CHR '' '' \<or> (of_char c :: nat) \<in> {9, 10, 13}"

definition normalizeNTPServer :: "string \<Rightarrow> string + string" where
  "normalizeNTPServer raw =
     (let s = TrimSpace raw
      in if s = [] then Inr []
         else (let s = (if HasPrefix (to_lower s) ''server '' then TrimSpace (drop 7 s)
                        else if HasPrefix (to_lower s) ''pool '' then TrimSpace (drop 5 s)
                        else s)
               in if list_ex blank s
                  then Inl ''ntp_server must be a bare hostname or IP address, not an ntp.conf-style line''
                  else Inr s))"

definition getSettings :: "config \<Rightarrow> settingsDTO" where
  "getSettings c = \<lparr>js_gateway_id = gw_ID (cf_Gateway c), js_gateway_name = gw_Name (cf_Gateway c),
     js_broker_url = mq_BrokerURL (cf_MQTT c), js_client_id = mq_ClientID (cf_MQTT c), js_username = mq_Username (cf_MQTT c),
     js_password = [], js_qos = mq_QoS (cf_MQTT c), js_data_topic = mq_DataTopic (cf_MQTT c),
     js_ack_topic = mq_AckTopic (cf_MQTT c), js_keepalive = mq_KeepAliveSec (cf_MQTT c),
     js_ntp_server = tc_NTPServer (cf_Time c), js_timezone = tc_Timezone (cf_Time c),
     js_sync_interval = tc_SyncIntervalSec (cf_Time c), js_retention_days = qc_RetentionDays (cf_Queue c)\<rparr>"

definition set_identity :: "settingsDTO \<Rightarrow> config \<Rightarrow> config" where
  \<comment> \<open>the assignments before the NTP server is checked\<close>
  "set_identity j c = c\<lparr>cf_Gateway := (cf_Gateway c)\<lparr>gw_ID := js_gateway_id j, gw_Name := js_gateway_name j\<rparr>,
     cf_MQTT := (let m = cf_MQTT c in m\<lparr>mq_BrokerURL := js_broker_url j, mq_ClientID := js_client_id j, mq_Username := js_username j,
       mq_Password := (if js_password j \<noteq> [] then js_password j else mq_Password m),
       mq_QoS := (if 0 < js_qos j then js_qos j else mq_QoS m),
       mq_DataTopic := (if js_data_topic j \<noteq> [] then js_data_topic j else mq_DataTopic m),
       mq_AckTopic := (if js_ack_topic j \<noteq> [] then js_ack_topic j else mq_AckTopic m),
       mq_KeepAliveSec := (if 0 < js_keepalive j then js_keepalive j else mq_KeepAliveSec m)\<rparr>)\<rparr>"

definition set_time :: "string \<Rightarrow> settingsDTO \<Rightarrow> config \<Rightarrow> config" where
  \<comment> \<open>the assignments after it\<close>
  "set_time ntp j c = c\<lparr>cf_Time := (let t = cf_Time c in t\<lparr>tc_NTPServer := ntp, tc_Timezone := js_timezone j,
       tc_SyncIntervalSec := (if 0 < js_sync_interval j then js_sync_interval j else tc_SyncIntervalSec t)\<rparr>),
     cf_Queue := (let q = cf_Queue c in q\<lparr>qc_RetentionDays :=
       (if 0 < js_retention_days j then js_retention_days j else qc_RetentionDays q)\<rparr>)\<rparr>"

datatype settings_reply = SettingsError int string | SavedRestarting

definition saveSettings ::
  "(config \<Rightarrow> string + string) \<Rightarrow> (string \<times> string option) option \<Rightarrow> string \<Rightarrow> string + settingsDTO \<Rightarrow> config \<Rightarrow> files \<Rightarrow>
   settings_reply \<times> config \<times> files" where
  "saveSettings marshal werr configPath body c fs = (case body of
       Inl m \<Rightarrow> (SettingsError 400 (''invalid JSON: '' @ m), c, fs)
     | Inr j \<Rightarrow>
         if js_gateway_id j = [] then (SettingsError 400 ''gateway.id is required'', c, fs)
         else if js_broker_url j = [] then (SettingsError 400 ''mqtt.broker_url is required'', c, fs)
         else
         (let c1 = set_identity j c
          in case normalizeNTPServer (js_ntp_server j) of
               Inl m \<Rightarrow> (SettingsError 400 m, c1, fs)
             | Inr ntp \<Rightarrow>
                 (let c2 = set_time ntp j c1
                  in if configPath = [] then (SettingsError 500 ''config file path is unknown; cannot save'', c2, fs)
                     else case Save marshal werr configPath c2 fs of
                            (Some e, fs') \<Rightarrow> (SettingsError 500 (''failed to save config: '' @ e), c2, fs')
                          | (None, fs') \<Rightarrow> (SavedRestarting, c2, fs'))))"

section \<open>Defaults and expansion\<close>

lemma ExpandEnv_plain: "CHR ''$'' \<notin> set s \<Longrightarrow> ExpandEnv env s = s"
  by (induction s) auto

lemma ExpandEnv_append: "CHR ''$'' \<notin> set s \<Longrightarrow> ExpandEnv env (s @ t) = s @ ExpandEnv env t"
  by (induction s) auto

text \<open>A doubled dollar sign is the variable named \<open>$\<close>, not a dollar sign: it is replaced by that variable's value.\<close>

lemma ExpandEnv_dollar:
  "CHR ''$'' \<notin> set s \<Longrightarrow> ExpandEnv env (s @ ''$$'' @ t) = s @ env ''$'' @ ExpandEnv env t"
  by (simp add: ExpandEnv_append shell_name_def shell_special_def)

lemma or_default_idem [simp]: "0 < d \<Longrightarrow> or_default d (or_default d x) = or_default d x"
  by (simp add: or_default_def)

lemma or_text_idem [simp]: "or_text d (or_text d x) = or_text d x"
  by (simp add: or_text_def)

lemma f64_95: "\<not> f64_nonpos (f64_of_int 95)"
  by (simp add: f64_of_int_def f64_round_def f64_nonpos_def bitlen.simps Let_def)

lemma with_defaults_idem [simp]: "with_defaults (with_defaults c) = with_defaults c"
  by (simp add: with_defaults_def queue_defaults_def forwarder_defaults_def mqtt_defaults_def time_defaults_def Let_def f64_95)

section \<open>The NTP server field\<close>

lemma blank_space: "blank c \<Longrightarrow> space c"
  by (auto simp: blank_def space_def Let_def)

lemma TrimSpace_sub: "set (TrimSpace s) \<subseteq> set s"
  unfolding TrimSpace_def by (metis set_dropWhileD set_rev subsetI)

lemma TrimSpace_id: "\<not> list_ex space s \<Longrightarrow> TrimSpace s = s"
proof -
  assume "\<not> list_ex space s"
  then have "dropWhile space s = s" "dropWhile space (rev s) = rev s"
    by (auto simp: list_ex_iff dropWhile_eq_self_iff hd_rev)
  then show ?thesis by (simp add: TrimSpace_def)
qed

lemma no_prefix_without_space: "\<not> list_ex space s \<Longrightarrow> CHR '' '' \<in> set p \<Longrightarrow> \<not> HasPrefix (to_lower s) p"
proof
  assume s: "\<not> list_ex space s" "CHR '' '' \<in> set p" "HasPrefix (to_lower s) p"
  then have "CHR '' '' \<in> set (to_lower s)" by (auto simp: HasPrefix_def prefix_def)
  then obtain c where c: "c \<in> set s" "lower_char c = CHR '' ''" by (auto simp: to_lower_def)
  have "c = CHR '' ''"
  proof (rule ccontr)
    assume "c \<noteq> CHR '' ''"
    with c(2) have "65 \<le> (of_char c :: nat)" "(of_char c :: nat) \<le> 90" "char_of ((of_char c :: nat) + 32) = CHR '' ''"
      by (auto simp: lower_char_def Let_def split: if_splits)
    then have "(of_char (CHR '' '') :: nat) = (of_char c + 32) mod 256" by (metis of_char_of)
    with \<open>65 \<le> of_char c\<close> \<open>of_char c \<le> 90\<close> show False by simp
  qed
  with c s(1) show False by (auto simp: list_ex_iff space_def)
qed

lemma normalize_bare: "\<not> list_ex space s \<Longrightarrow> normalizeNTPServer s = Inr s"
  using no_prefix_without_space [of s]
  by (auto simp: normalizeNTPServer_def TrimSpace_id Let_def list_ex_iff dest: blank_space)

lemma normalize_no_blank: "normalizeNTPServer raw = Inr s \<Longrightarrow> \<not> list_ex blank s"
  by (auto simp: normalizeNTPServer_def Let_def split: if_splits)

section \<open>Properties of the settings\<close>


definition sample_config :: config where
  "sample_config = with_defaults \<lparr>cf_Gateway = \<lparr>gw_ID = ''GW001'', gw_Name = ''Dev''\<rparr>, cf_ListenAddr = '':8080'',
     cf_DatabasePath = ''gw.db'',
     cf_Queue = \<lparr>qc_RetentionDays = 0, qc_SweepInterval = 0, qc_StorageFullPercent = f64_zero, qc_StorageSweepInterval = 0, qc_EvictBatchSize = 0\<rparr>,
     cf_Forwarder = \<lparr>fc_Transport = ''mqtt'', fc_ServerURL = [], fc_BatchSize = 0, fc_PollIntervalMs = 0, fc_SendTimeoutMs = 0\<rparr>,
     cf_Log = \<lparr>lc_Level = [], lc_Format = []\<rparr>,
     cf_MQTT = \<lparr>mq_BrokerURL = ''tcp://broker'', mq_ClientID = [], mq_Username = [], mq_Password = ''secret'', mq_QoS = 0,
       mq_DataTopic = [], mq_AckTopic = [], mq_KeepAliveSec = 0, mq_ConnectTimeoutMs = 0, mq_PublishTimeoutMs = 0, mq_AckTimeoutMs = 0,
       mq_TLS = \<lparr>tls_Enabled = False, tls_CAFile = [], tls_CertFile = [], tls_KeyFile = [], tls_InsecureSkipVerify = False\<rparr>\<rparr>,
     cf_Time = \<lparr>tc_NTPServer = ''pool.ntp.org'', tc_Timezone = [], tc_SyncIntervalSec = 0, tc_QueryTimeoutMs = 0, tc_RTCDevice = []\<rparr>\<rparr>"

text \<open>Saving the page as it is displayed changes nothing.\<close>

lemma save_displayed:
  "set_time (tc_NTPServer (cf_Time c)) (getSettings c) (set_identity (getSettings c) c) = c"
  by (simp add: set_time_def set_identity_def getSettings_def Let_def)


text \<open>A rejected save never touches the configuration file, and a failed one at most that file; a page without gateway id or broker, or
  with a malformed body, also leaves the running configuration alone. A page rejected for its NTP server does
  not: the identity and broker it carries are already in force in memory.\<close>

theorem settings_error:
  assumes "saveSettings marshal werr path body c fs = (SettingsError status m, c', fs')"
  shows "(status = 400 \<longrightarrow> fs' = fs) \<and> (\<forall>p. p \<noteq> path \<longrightarrow> fs' p = fs p) \<and> (case body of
      Inl _ \<Rightarrow> status = 400 \<and> c' = c
    | Inr j \<Rightarrow>
        if js_gateway_id j = [] \<or> js_broker_url j = [] then status = 400 \<and> c' = c
        else case normalizeNTPServer (js_ntp_server j) of
            Inl e \<Rightarrow> status = 400 \<and> m = e \<and> c' = set_identity j c
          | Inr ntp \<Rightarrow> status = 500 \<and> c' = set_time ntp j (set_identity j c))"
  using assms
  by (auto simp: saveSettings_def Save_def Let_def split: if_splits sum.splits option.splits)

theorem settings_error_witness:
  "\<exists>m c' fs'. saveSettings (\<lambda>_. Inr []) None ''c.yaml''
      (Inr ((getSettings sample_config)\<lparr>js_gateway_id := ''GW002'', js_ntp_server := ''a b''\<rparr>)) sample_config Map.empty =
        (SettingsError 400 m, c', fs') \<and> fs' = Map.empty \<and> gw_ID (cf_Gateway c') = ''GW002''"
proof -
  let ?j = "(getSettings sample_config)\<lparr>js_gateway_id := ''GW002'', js_ntp_server := ''a b''\<rparr>"
  have n: "normalizeNTPServer ''a b'' = Inl ''ntp_server must be a bare hostname or IP address, not an ntp.conf-style line''"
    by (simp add: normalizeNTPServer_def TrimSpace_def HasPrefix_def space_def blank_def to_lower_def lower_char_def Let_def)
  have b: "js_broker_url ?j \<noteq> []" "js_gateway_id ?j \<noteq> []"
    by (simp_all add: getSettings_def sample_config_def with_defaults_def mqtt_defaults_def Let_def)
  obtain m c' fs' where r: "saveSettings (\<lambda>_. Inr []) None ''c.yaml'' (Inr ?j) sample_config Map.empty = (SettingsError 400 m, c', fs')"
    using b by (auto simp: saveSettings_def n Let_def)
  from settings_error [OF r] b have "fs' = Map.empty" "c' = set_identity ?j sample_config" by (simp_all add: n)
  with r show ?thesis by (auto simp: set_identity_def)
qed

end
