(* ===== verification/ConfigIO.thy ===== *)
theory ConfigIO
  imports WebApi Settings
begin

text \<open>
  Configuration backup and restore, \<open>src/gateway/internal/api/configio.go\<close>: the export of the whole configuration and
  the import of its connections, devices and data points.

  The import makes many queries; \<open>flts\<close> gives the fault of each, and the loops thread the number of the
  next query. An error text is the value \<open>import_error\<close> it is built from.
\<close>

section \<open>Export\<close>

record forwarderExportDTO =
  xf_transport :: string
  xf_server_url :: string
  xf_batch_size :: int
  xf_poll_interval_ms :: int
  xf_send_timeout_ms :: int

record mqttExportDTO =
  xm_broker_url :: string
  xm_client_id :: string
  xm_username :: string
  xm_qos :: int
  xm_data_topic :: string
  xm_ack_topic :: string
  xm_keepalive :: int
  xm_tls_enabled :: bool

record deviceExportDTO =
  xd_device :: deviceDTO
  xd_data_points :: "dataPointDTO list"

record configExportDTO =
  x_exported_at :: gotime
  x_gateway_id :: string
  x_gateway_name :: string
  x_forwarder :: forwarderExportDTO
  x_mqtt :: mqttExportDTO
  x_ntp_server :: string
  x_timezone :: string
  x_connections :: "connectionDTO list"
  x_devices :: "deviceExportDTO list"

definition forwarder_export :: "config \<Rightarrow> forwarderExportDTO" where
  "forwarder_export c = (let f = cf_Forwarder c in \<lparr>xf_transport = fc_Transport f, xf_server_url = fc_ServerURL f,
     xf_batch_size = fc_BatchSize f, xf_poll_interval_ms = fc_PollIntervalMs f, xf_send_timeout_ms = fc_SendTimeoutMs f\<rparr>)"

definition mqtt_export :: "config \<Rightarrow> mqttExportDTO" where
  \<comment> \<open>the password is left out\<close>
  "mqtt_export c = (let m = cf_MQTT c in \<lparr>xm_broker_url = mq_BrokerURL m, xm_client_id = mq_ClientID m, xm_username = mq_Username m,
     xm_qos = mq_QoS m, xm_data_topic = mq_DataTopic m, xm_ack_topic = mq_AckTopic m, xm_keepalive = mq_KeepAliveSec m,
     xm_tls_enabled = tls_Enabled (mq_TLS m)\<rparr>)"

fun export_devices :: "(nat \<Rightarrow> fault) \<Rightarrow> server \<Rightarrow> nat \<Rightarrow> device list \<Rightarrow> cfg_error + deviceExportDTO list" where
  "export_devices flts sv k [] = Inr []"
| "export_devices flts sv k (d # ds) =
     (case ListByDevice (flts k) (d_ID d) (sv_db sv) of
        Inl e \<Rightarrow> Inl e
      | Inr dps \<Rightarrow>
          (case export_devices flts sv (Suc k) ds of
             Inl e \<Rightarrow> Inl e
           | Inr out \<Rightarrow>
               Inr (\<lparr>xd_device = toDeviceDTO (sv_status sv) d, xd_data_points = map toDataPointDTO dps\<rparr> # out)))"

definition exportConfig :: "(nat \<Rightarrow> fault) \<Rightarrow> gotime \<Rightarrow> config \<Rightarrow> server \<Rightarrow> configExportDTO response" where
  "exportConfig flts now c sv =
     (case List_connections (flts 0) (sv_db sv) of
        Inl e \<Rightarrow> ErrorReply 500 (RepoError e)
      | Inr conns \<Rightarrow>
          (case List_devices (flts 1) (sv_db sv) of
             Inl e \<Rightarrow> ErrorReply 500 (RepoError e)
           | Inr devs \<Rightarrow>
               (case export_devices flts sv 2 devs of
                  Inl e \<Rightarrow> ErrorReply 500 (RepoError e)
                | Inr out \<Rightarrow>
                    Reply 200 \<lparr>x_exported_at = now, x_gateway_id = gw_ID (cf_Gateway c), x_gateway_name = gw_Name (cf_Gateway c),
                      x_forwarder = forwarder_export c, x_mqtt = mqtt_export c, x_ntp_server = tc_NTPServer (cf_Time c),
                      x_timezone = tc_Timezone (cf_Time c), x_connections = map toConnectionDTO conns, x_devices = out\<rparr>)))"

section \<open>Import\<close>

datatype import_error =
    BadConnection string string
  | BadDevice string string
  | BadPoint string string validation_error
  | UpdateConn string cfg_error
  | CreateConn string cfg_error
  | NoConnection string int
  | UpdateDev string cfg_error
  | CreateDev string cfg_error
  | UpdatePoint string cfg_error
  | CreatePoint string cfg_error

record importResult =
  ConnectionsCreated :: int
  ConnectionsUpdated :: int
  DevicesCreated :: int
  DevicesUpdated :: int
  DataPointsCreated :: int
  DataPointsUpdated :: int
  Errors :: "import_error list"

definition no_result :: importResult where
  "no_result = \<lparr>ConnectionsCreated = 0, ConnectionsUpdated = 0, DevicesCreated = 0, DevicesUpdated = 0,
     DataPointsCreated = 0, DataPointsUpdated = 0, Errors = []\<rparr>"

definition add_error :: "import_error \<Rightarrow> importResult \<Rightarrow> importResult" where
  "add_error e r = r\<lparr>Errors := Errors r @ [e]\<rparr>"

definition check_connections :: "connectionDTO list \<Rightarrow> import_error list" where
  "check_connections cs = concat (map (\<lambda>j. case Validate_connection (toConnection j) of
       Some m \<Rightarrow> [BadConnection (jc_name j) m] | None \<Rightarrow> []) cs)"

definition check_points :: "string \<Rightarrow> dataPointDTO list \<Rightarrow> import_error list" where
  "check_points name ps = concat (map (\<lambda>j. case Validate_datapoint (toDataPoint j) of
       Some v \<Rightarrow> [BadPoint name (jp_tag_name j) v] | None \<Rightarrow> []) ps)"

definition check_devices :: "deviceExportDTO list \<Rightarrow> import_error list" where
  "check_devices ds = concat (map (\<lambda>x. case Validate_device (toDevice (xd_device x)) of
       Some m \<Rightarrow> [BadDevice (jd_name (xd_device x)) m]
     | None \<Rightarrow> check_points (jd_name (xd_device x)) (xd_data_points x)) ds)"

type_synonym import_state = "nat \<times> importResult \<times> cfgdb"

fun import_connections ::
  "(nat \<Rightarrow> fault) \<Rightarrow> connectionDTO list \<Rightarrow> (int \<Rightarrow> int option) \<Rightarrow> import_state \<Rightarrow> (int \<Rightarrow> int option) \<times> import_state" where
  "import_connections flts [] idmap s = (idmap, s)"
| "import_connections flts (j # js) idmap (k, res, db) =
     (let c = toConnection j;
          create = (\<lambda>k. case Create_connection (flts k) c db of
              (Inl e, db') \<Rightarrow> import_connections flts js idmap (Suc k, add_error (CreateConn (jc_name j) e) res, db')
            | (Inr i, db') \<Rightarrow> import_connections flts js (idmap(jc_id j \<mapsto> i))
                (Suc k, res\<lparr>ConnectionsCreated := ConnectionsCreated res + 1\<rparr>, db'))
      in if jc_id j \<noteq> 0 then
           (case Get_connection (flts k) (jc_id j) db of
              Inl _ \<Rightarrow> create (Suc k)
            | Inr _ \<Rightarrow>
                (case Update_connection (flts (Suc k)) (jc_id j) c db of
                   (Some e, db') \<Rightarrow> import_connections flts js idmap (Suc (Suc k), add_error (UpdateConn (jc_name j) e) res, db')
                 | (None, db') \<Rightarrow> import_connections flts js (idmap(jc_id j \<mapsto> jc_id j))
                     (Suc (Suc k), res\<lparr>ConnectionsUpdated := ConnectionsUpdated res + 1\<rparr>, db')))
         else create k)"

fun import_points ::
  "(f64 \<Rightarrow> f64 option) \<Rightarrow> (nat \<Rightarrow> fault) \<Rightarrow> int \<Rightarrow> dataPointDTO list \<Rightarrow> import_state \<Rightarrow> import_state" where
  "import_points bind flts dev [] s = s"
| "import_points bind flts dev (j # js) (k, res, db) =
     (let dp = (toDataPoint j)\<lparr>dp_DeviceID := dev\<rparr>;
          create = (\<lambda>k. case Create_datapoint bind (flts k) dp db of
              (Inl e, db') \<Rightarrow> import_points bind flts dev js (Suc k, add_error (CreatePoint (jp_tag_name j) e) res, db')
            | (Inr _, db') \<Rightarrow> import_points bind flts dev js (Suc k, res\<lparr>DataPointsCreated := DataPointsCreated res + 1\<rparr>, db'))
      in if jp_id j \<noteq> 0 then
           (case Get_datapoint (flts k) (jp_id j) db of
              Inl _ \<Rightarrow> create (Suc k)
            | Inr _ \<Rightarrow>
                (case Update_datapoint bind (flts (Suc k)) (jp_id j) dp db of
                   (Some e, db') \<Rightarrow> import_points bind flts dev js (Suc (Suc k), add_error (UpdatePoint (jp_tag_name j) e) res, db')
                 | (None, db') \<Rightarrow> import_points bind flts dev js
                     (Suc (Suc k), res\<lparr>DataPointsUpdated := DataPointsUpdated res + 1\<rparr>, db')))
         else create k)"

fun import_devices ::
  "(f64 \<Rightarrow> f64 option) \<Rightarrow> (nat \<Rightarrow> fault) \<Rightarrow> (int \<Rightarrow> int option) \<Rightarrow> deviceExportDTO list \<Rightarrow> import_state \<Rightarrow> import_state" where
  "import_devices bind flts idmap [] s = s"
| "import_devices bind flts idmap (x # xs) (k, res, db) =
     (let j = xd_device x
      in case idmap (jd_connection_id j) of
           None \<Rightarrow> import_devices bind flts idmap xs (k, add_error (NoConnection (jd_name j) (jd_connection_id j)) res, db)
         | Some conn \<Rightarrow>
             (let d = (toDevice j)\<lparr>d_ConnectionID := conn\<rparr>;
                  create = (\<lambda>k. case Create_device (flts k) d db of
                      (Inl e, db') \<Rightarrow> import_devices bind flts idmap xs (Suc k, add_error (CreateDev (jd_name j) e) res, db')
                    | (Inr i, db') \<Rightarrow> import_devices bind flts idmap xs (import_points bind flts i (xd_data_points x)
                        (Suc k, res\<lparr>DevicesCreated := DevicesCreated res + 1\<rparr>, db')))
              in if jd_id j \<noteq> 0 then
                   (case Get_device (flts k) (jd_id j) db of
                      Inl _ \<Rightarrow> create (Suc k)
                    | Inr _ \<Rightarrow>
                        (case Update_device (flts (Suc k)) (jd_id j) d db of
                           (Some e, db') \<Rightarrow>
                             import_devices bind flts idmap xs (Suc (Suc k), add_error (UpdateDev (jd_name j) e) res, db')
                         | (None, db') \<Rightarrow> import_devices bind flts idmap xs (import_points bind flts (jd_id j) (xd_data_points x)
                             (Suc (Suc k), res\<lparr>DevicesUpdated := DevicesUpdated res + 1\<rparr>, db'))))
                 else create k))"

datatype import_reply = ImportBadJSON string | ImportRejected importResult | Imported importResult

definition importConfig ::
  "(f64 \<Rightarrow> f64 option) \<Rightarrow> (nat \<Rightarrow> fault) \<Rightarrow> api_env \<Rightarrow> string + configExportDTO \<Rightarrow> server \<Rightarrow> import_reply \<times> server" where
  "importConfig bind flts env body sv = (case body of
       Inl m \<Rightarrow> (ImportBadJSON m, sv)
     | Inr payload \<Rightarrow>
         (let errs = check_connections (x_connections payload) @ check_devices (x_devices payload)
          in if 0 < length errs then (ImportRejected (no_result\<lparr>Errors := errs\<rparr>), sv)
             else (case import_connections flts (x_connections payload) Map.empty (0, no_result, sv_db sv) of
                     (idmap, s) \<Rightarrow>
                       (case import_devices bind flts idmap (x_devices payload) s of
                          (k, res, db) \<Rightarrow> (Imported res, reload env (sv\<lparr>sv_db := db\<rparr>))))))"

end
