(* ===== verification/ApiState.thy ===== *)
theory ApiState
  imports ConfigIO
begin

text \<open>
  What the Web API keeps true of the configuration. Only validated records reach the database, through
  whatever requests and database failures; so every poller the manager starts has a usable client and
  every data point it polls has a known type.
\<close>

section \<open>Checked rows\<close>

text \<open>\<open>bind\<close>, the storage of a \<open>float64\<close>, either refuses a value or keeps it.\<close>

definition exact_bind :: "(f64 \<Rightarrow> f64 option) \<Rightarrow> bool" where
  "exact_bind bind \<longleftrightarrow> (\<forall>x y. bind x = Some y \<longrightarrow> y = x)"

definition good_conn :: "conn_row \<Rightarrow> bool" where
  "good_conn r \<longleftrightarrow> 0 < cr_id r \<and> conn_row_of (cr_id r) (scanConnection r) = r \<and> Validate_connection (scanConnection r) = None"

definition good_dev :: "dev_row \<Rightarrow> bool" where
  "good_dev r \<longleftrightarrow> 0 < dr_id r \<and> dev_row_of (dr_id r) (scanDevice r) = r \<and> Validate_device (scanDevice r) = None"

definition good_point :: "(f64 \<Rightarrow> f64 option) \<Rightarrow> dp_row \<Rightarrow> bool" where
  "good_point bind r \<longleftrightarrow> 0 < pr_id r \<and> bind (pr_scale r) = Some (pr_scale r) \<and> bind (pr_offset r) = Some (pr_offset r) \<and>
     dp_row_of (pr_scale r) (pr_offset r) (pr_id r) (pr_device_id r) (scanDataPoint r) = r \<and>
     Validate_datapoint (scanDataPoint r) = None"

definition checked_cfg :: "(f64 \<Rightarrow> f64 option) \<Rightarrow> cfgdb \<Rightarrow> bool" where
  "checked_cfg bind db \<longleftrightarrow> cfg_inv db \<and> 0 \<le> conn_seq db \<and> 0 \<le> dp_seq db \<and>
     list_all good_conn (connections db) \<and> list_all good_dev (devices db) \<and> list_all (good_point bind) (datapoints db)"

text \<open>A device is checked apart from its connection, which the foreign key covers.\<close>

definition device_fields_ok :: "device \<Rightarrow> bool" where
  "device_fields_ok d \<longleftrightarrow> d_Name d \<noteq> [] \<and> 1 \<le> d_SlaveID d \<and> d_SlaveID d \<le> 247"

inductive checked_step :: "(f64 \<Rightarrow> f64 option) \<Rightarrow> cfgdb \<Rightarrow> cfgdb \<Rightarrow> bool" for bind where
  ck_create_conn: "Validate_connection c = None \<Longrightarrow> checked_step bind db (snd (Create_connection flt c db))"
| ck_update_conn: "Validate_connection c = None \<Longrightarrow> checked_step bind db (snd (Update_connection flt i c db))"
| ck_delete_conn: "checked_step bind db (snd (Delete_connection flt i db))"
| ck_create_dev: "device_fields_ok d \<Longrightarrow> checked_step bind db (snd (Create_device flt d db))"
| ck_update_dev: "device_fields_ok d \<Longrightarrow> checked_step bind db (snd (Update_device flt i d db))"
| ck_delete_dev: "checked_step bind db (snd (Delete_device flt i db))"
| ck_create_dp: "Validate_datapoint p = None \<Longrightarrow> checked_step bind db (snd (Create_datapoint bind flt p db))"
| ck_update_dp: "Validate_datapoint p = None \<Longrightarrow> checked_step bind db (snd (Update_datapoint bind flt i p db))"
| ck_delete_dp: "checked_step bind db (snd (Delete_datapoint flt i db))"

lemma checked_is_cfg_step: "checked_step bind db db' \<Longrightarrow> cfg_step db db'"
  by (induction rule: checked_step.induct) (rule cfg_step.intros)+

section \<open>Every step keeps the rows checked\<close>

lemma Validate_ids [simp]:
  "Validate_connection (c\<lparr>c_ID := i\<rparr>) = Validate_connection c"
  "Validate_datapoint (p\<lparr>dp_ID := i\<rparr>) = Validate_datapoint p"
  "Validate_datapoint (p\<lparr>dp_DeviceID := j\<rparr>) = Validate_datapoint p"
  by (simp_all add: Validate_connection_def Validate_datapoint_def)

lemma Validate_device_fields: "Validate_device d = None \<longleftrightarrow> device_fields_ok d \<and> 0 < d_ConnectionID d"
  by (auto simp: Validate_device_def device_fields_ok_def)

lemma good_conn_row: "0 < i \<Longrightarrow> Validate_connection c = None \<Longrightarrow> good_conn (conn_row_of i c)"
  by (simp add: good_conn_def) (simp add: conn_row_of_def)

lemma good_dev_row: "0 < i \<Longrightarrow> device_fields_ok d \<Longrightarrow> 0 < d_ConnectionID d \<Longrightarrow> good_dev (dev_row_of i d)"
  by (simp add: good_dev_def Validate_device_fields device_fields_ok_def) (simp add: dev_row_of_def)

lemma good_point_row:
  assumes "exact_bind bind" "0 < i" "bind (dp_Scale p) = Some s" "bind (dp_Offset p) = Some off" "Validate_datapoint p = None"
  shows "good_point bind (dp_row_of s off i dev p)"
proof -
  have so: "s = dp_Scale p" "off = dp_Offset p" using assms(1,3,4) by (auto simp: exact_bind_def)
  have "dp_row_of s off i dev (scanDataPoint (dp_row_of s off i dev p)) = dp_row_of s off i dev p"
    unfolding scan_row_of by (simp add: dp_row_of_def dp_priorityOrDefault_def)
  moreover have "Validate_datapoint (scanDataPoint (dp_row_of s off i dev p)) = None"
    unfolding scan_row_of so using assms(5)
    by (auto simp: Validate_datapoint_def dp_priorityOrDefault_def split: sum.splits if_splits)
  moreover have "pr_scale (dp_row_of s off i dev p) = s" "pr_offset (dp_row_of s off i dev p) = off"
    "pr_device_id (dp_row_of s off i dev p) = dev" by (simp_all add: dp_row_of_def)
  ultimately show ?thesis using assms(2-4) so by (simp add: good_point_def)
qed

lemma list_all_update_row:
  assumes "list_all P rs" "\<And>r. r \<in> set rs \<Longrightarrow> key r = i \<Longrightarrow> P (f r)"
  shows "list_all P (update_row key i f rs)"
  using assms by (auto simp: list_all_iff update_row_def)

lemma list_all_delete_row: "list_all P rs \<Longrightarrow> list_all P (delete_row key i rs)"
  by (auto simp: list_all_iff delete_row_def)

lemma conn_id_pos: "list_all good_conn rs \<Longrightarrow> i \<in> cr_id ` set rs \<Longrightarrow> 0 < i"
  by (auto simp: list_all_iff good_conn_def)

lemma checked_step_rows:
  assumes "checked_step bind db db'" "exact_bind bind" "checked_cfg bind db"
  shows "checked_cfg bind db'"
proof -
  have inv: "cfg_inv db'" using checked_is_cfg_step [OF assms(1)] assms(3) cfg_inv_step by (auto simp: checked_cfg_def)
  have p: "0 \<le> conn_seq db" "0 \<le> dp_seq db" "list_all good_conn (connections db)" "list_all good_dev (devices db)"
    "list_all (good_point bind) (datapoints db)"
    using assms(3) by (simp_all add: checked_cfg_def)
  have pos: "0 < dr_id r" if "r \<in> set (devices db)" for r using p(4) that by (auto simp: list_all_iff good_dev_def)
  have pos': "0 < pr_id r" if "r \<in> set (datapoints db)" for r using p(5) that by (auto simp: list_all_iff good_point_def)
  have posc: "0 < cr_id r" if "r \<in> set (connections db)" for r using p(3) that by (auto simp: list_all_iff good_conn_def)
  from assms(1) have "0 \<le> conn_seq db' \<and> 0 \<le> dp_seq db' \<and> list_all good_conn (connections db') \<and> list_all good_dev (devices db') \<and>
      list_all (good_point bind) (datapoints db')"
  proof cases
    case (ck_create_conn c flt)
    with p show ?thesis by (auto simp: Create_connection_def Let_def intro: good_conn_row split: option.splits)
  next
    case (ck_update_conn c flt i)
    with p posc show ?thesis
      by (auto simp: Update_connection_def Let_def intro!: list_all_update_row good_conn_row split: option.splits)
  next
    case (ck_delete_conn flt i)
    with p show ?thesis by (auto simp: Delete_connection_def Let_def intro: list_all_delete_row split: option.splits)
  next
    case (ck_create_dev d flt)
    with p conn_id_pos [OF p(3)] next_rowid_pos show ?thesis
      by (auto simp: Create_device_def dev_fk_def Let_def intro!: good_dev_row split: option.splits)
  next
    case (ck_update_dev d flt i)
    with p pos conn_id_pos [OF p(3)] show ?thesis
      by (auto simp: Update_device_def dev_fk_def Let_def filter_empty_conv intro!: list_all_update_row good_dev_row split: option.splits)
  next
    case (ck_delete_dev flt i)
    with p show ?thesis by (auto simp: Delete_device_def Let_def intro: list_all_delete_row split: option.splits)
  next
    case (ck_create_dp q flt)
    with p show ?thesis
      by (auto simp: Create_datapoint_def Let_def intro!: good_point_row [OF assms(2)] split: option.splits)
  next
    case (ck_update_dp q flt i)
    with p pos' show ?thesis
      by (auto simp: Update_datapoint_def Let_def intro!: list_all_update_row good_point_row [OF assms(2)] split: option.splits)
  next
    case (ck_delete_dp flt i)
    with p show ?thesis by (auto simp: Delete_datapoint_def Let_def intro: list_all_delete_row split: option.splits)
  qed
  with inv show ?thesis by (simp add: checked_cfg_def)
qed

lemma checked_steps:
  "(checked_step bind)\<^sup>*\<^sup>* db db' \<Longrightarrow> exact_bind bind \<Longrightarrow> checked_cfg bind db \<Longrightarrow> checked_cfg bind db'"
  by (induction rule: rtranclp.induct) (auto intro: checked_step_rows)

lemma checked_empty: "checked_cfg bind empty_cfg"
  by (simp add: checked_cfg_def cfg_inv_empty) (simp add: empty_cfg_def)

section \<open>Handlers as steps\<close>

lemma ck_results:
  "Create_connection flt c db = (r1, db') \<Longrightarrow> Validate_connection c = None \<Longrightarrow> checked_step bind db db'"
  "Update_connection flt i c db = (r2, db') \<Longrightarrow> Validate_connection c = None \<Longrightarrow> checked_step bind db db'"
  "Delete_connection flt i db = (r2, db') \<Longrightarrow> checked_step bind db db'"
  "Create_device flt d db = (r1, db') \<Longrightarrow> device_fields_ok d \<Longrightarrow> checked_step bind db db'"
  "Update_device flt i d db = (r2, db') \<Longrightarrow> device_fields_ok d \<Longrightarrow> checked_step bind db db'"
  "Delete_device flt i db = (r2, db') \<Longrightarrow> checked_step bind db db'"
  "Create_datapoint bind flt p db = (r1, db') \<Longrightarrow> Validate_datapoint p = None \<Longrightarrow> checked_step bind db db'"
  "Update_datapoint bind flt i p db = (r2, db') \<Longrightarrow> Validate_datapoint p = None \<Longrightarrow> checked_step bind db db'"
  "Delete_datapoint flt i db = (r2, db') \<Longrightarrow> checked_step bind db db'"
  using checked_step.intros [where bind = bind] by (metis snd_conv)+

definition server_inv :: "(f64 \<Rightarrow> f64 option) \<Rightarrow> server \<Rightarrow> bool" where
  "server_inv bind sv \<longleftrightarrow> checked_cfg bind (sv_db sv) \<and> (\<forall>m. sv_manager sv = Some m \<longrightarrow> mgr_inv m)"

lemma mgr_inv_Reload: "mgr_inv m \<Longrightarrow> cfg_inv db \<Longrightarrow> mgr_inv (snd (Reload fd fc fls db m))"
proof (cases "Reload fd fc fls db m")
  case (Pair err m')
  assume "mgr_inv m" "cfg_inv db"
  with Pair show ?thesis
  proof (cases err)
    case (Some e)
    with Pair \<open>mgr_inv m\<close> show ?thesis by (auto simp: Reload_def Let_def split: sum.splits option.splits)
  qed (use Reload_map(1) in force)
qed

lemma server_inv_reload: "server_inv bind sv \<Longrightarrow> server_inv bind (reload env sv)"
  by (auto simp: server_inv_def reload_def checked_cfg_def intro: mgr_inv_Reload split: option.splits)

locale exact_storage =
  fixes bind :: "f64 \<Rightarrow> f64 option"
  assumes exact: "exact_bind bind"
begin

lemma server_inv_db: "server_inv bind sv \<Longrightarrow> (checked_step bind)\<^sup>*\<^sup>* (sv_db sv) db \<Longrightarrow> server_inv bind (sv\<lparr>sv_db := db\<rparr>)"
  using checked_steps [OF _ exact] by (auto simp: server_inv_def)

lemma server_inv_step: "server_inv bind sv \<Longrightarrow> checked_step bind (sv_db sv) db \<Longrightarrow> server_inv bind (sv\<lparr>sv_db := db\<rparr>)"
  by (rule server_inv_db) auto

lemmas keep = server_inv_step server_inv_reload

lemma handlers_keep:
  assumes "server_inv bind sv"
  shows "server_inv bind (snd (createConnection env bc sv))"
    "server_inv bind (snd (updateConnection env p bc sv))"
    "server_inv bind (snd (deleteConnection env p sv))"
    "server_inv bind (snd (createDevice env bd sv))"
    "server_inv bind (snd (updateDevice env p bd sv))"
    "server_inv bind (snd (deleteDevice env p sv))"
    "server_inv bind (snd (createDataPoint bind env p bp sv))"
    "server_inv bind (snd (updateDataPoint bind env p bp sv))"
    "server_inv bind (snd (deleteDataPoint env p sv))"
proof -
  show "server_inv bind (snd (createConnection env bc sv))"
    using assms by (auto simp: createConnection_def Let_def split: sum.split option.split prod.split intro!: keep dest: ck_results(1))
  show "server_inv bind (snd (updateConnection env p bc sv))"
    using assms by (auto simp: updateConnection_def Let_def split: sum.split option.split prod.split intro!: keep dest: ck_results(2))
  show "server_inv bind (snd (deleteConnection env p sv))"
    using assms by (auto simp: deleteConnection_def Let_def split: sum.split option.split prod.split intro!: keep dest: ck_results(3))
  show "server_inv bind (snd (createDevice env bd sv))"
    using assms by (auto simp: createDevice_def Let_def Validate_device_fields split: sum.split option.split prod.split
        intro!: keep dest: ck_results(4))
  show "server_inv bind (snd (updateDevice env p bd sv))"
    using assms by (auto simp: updateDevice_def Let_def Validate_device_fields split: sum.split option.split prod.split
        intro!: keep dest: ck_results(5))
  show "server_inv bind (snd (deleteDevice env p sv))"
    using assms by (auto simp: deleteDevice_def Let_def split: sum.split option.split prod.split intro!: keep dest: ck_results(6))
  show "server_inv bind (snd (createDataPoint bind env p bp sv))"
    using assms by (auto simp: createDataPoint_def Let_def split: sum.split option.split prod.split intro!: keep dest: ck_results(7))
  show "server_inv bind (snd (updateDataPoint bind env p bp sv))"
    using assms by (auto simp: updateDataPoint_def Let_def split: sum.split option.split prod.split intro!: keep dest: ck_results(8))
  show "server_inv bind (snd (deleteDataPoint env p sv))"
    using assms by (auto simp: deleteDataPoint_def Let_def split: sum.split option.split prod.split intro!: keep dest: ck_results(9))
qed

lemma import_connections_steps:
  assumes "\<forall>j \<in> set js. Validate_connection (toConnection j) = None"
    and "import_connections flts js idmap (k, res, db) = (idmap', k', res', db')"
  shows "(checked_step bind)\<^sup>*\<^sup>* db db'"
  using assms
proof (induction js arbitrary: idmap k res db)
  case (Cons j js)
  let ?c = "toConnection j"
  have v: "Validate_connection ?c = None" and vs: "\<forall>j \<in> set js. Validate_connection (toConnection j) = None"
    using Cons.prems(1) by simp_all
  have go: "(checked_step bind)\<^sup>*\<^sup>* db db'"
    if "checked_step bind db db1" "import_connections flts js im (n, r, db1) = (idmap', k', res', db')" for im n r db1
    using Cons.IH [OF vs that(2)] that(1) by simp
  show ?case
    using Cons.prems(2)
    by (auto simp: Let_def split: if_splits sum.splits prod.splits option.splits
        dest: ck_results(1,2) [where bind = bind, OF _ v] intro: go)
qed simp

lemma import_points_steps:
  assumes "\<forall>j \<in> set js. Validate_datapoint (toDataPoint j) = None"
    and "import_points bind flts dev js (k, res, db) = (k', res', db')"
  shows "(checked_step bind)\<^sup>*\<^sup>* db db'"
  using assms
proof (induction js arbitrary: k res db)
  case (Cons j js)
  have v: "Validate_datapoint ((toDataPoint j)\<lparr>dp_DeviceID := dev\<rparr>) = None"
    and vs: "\<forall>j \<in> set js. Validate_datapoint (toDataPoint j) = None"
    using Cons.prems(1) by simp_all
  have go: "(checked_step bind)\<^sup>*\<^sup>* db db'"
    if "checked_step bind db db1" "import_points bind flts dev js (n, r, db1) = (k', res', db')" for n r db1
    using Cons.IH [OF vs that(2)] that(1) by simp
  show ?case
    using Cons.prems(2)
    by (auto simp: Let_def split: if_splits sum.splits prod.splits option.splits
        dest: ck_results(7,8) [OF _ v] intro: go)
qed simp

lemma import_devices_steps:
  assumes "\<forall>x \<in> set xs. Validate_device (toDevice (xd_device x)) = None \<and>
      (\<forall>j \<in> set (xd_data_points x). Validate_datapoint (toDataPoint j) = None)"
    and "import_devices bind flts idmap xs (k, res, db) = (k', res', db')"
  shows "(checked_step bind)\<^sup>*\<^sup>* db db'"
  using assms
proof (induction xs arbitrary: k res db)
  case (Cons x xs)
  have v: "device_fields_ok ((toDevice (xd_device x))\<lparr>d_ConnectionID := c\<rparr>)"
    and vp: "\<forall>j \<in> set (xd_data_points x). Validate_datapoint (toDataPoint j) = None" for c
    using Cons.prems(1) by (simp_all add: Validate_device_fields device_fields_ok_def)
  have IH: "(checked_step bind)\<^sup>*\<^sup>* db1 db'" if "import_devices bind flts idmap xs (n, r, db1) = (k', res', db')" for n r db1
    using Cons.IH [OF _ that] Cons.prems(1) by simp
  have go: "(checked_step bind)\<^sup>*\<^sup>* db db'"
    if "checked_step bind db db1" "import_devices bind flts idmap xs (n, r, db1) = (k', res', db')" for n r db1
    using IH [OF that(2)] that(1) by simp
  have go': "(checked_step bind)\<^sup>*\<^sup>* db db'"
    if "checked_step bind db db1"
      "import_devices bind flts idmap xs (import_points bind flts i (xd_data_points x) (n, r, db1)) = (k', res', db')" for i n r db1
  proof (cases "import_points bind flts i (xd_data_points x) (n, r, db1)")
    case (fields n' r' db2)
    with import_points_steps [OF vp this] IH [of n' r' db2] that show ?thesis by (auto intro: converse_rtranclp_into_rtranclp rtranclp_trans)
  qed
  show ?case
    using Cons.prems(2)
    by (auto simp: Let_def split: if_splits sum.splits prod.splits option.splits
        dest: ck_results(4,5) [where bind = bind, OF _ v] intro: IH go go')
qed simp

lemma import_keeps:
  assumes "server_inv bind sv"
  shows "server_inv bind (snd (importConfig bind flts env body sv))"
proof (cases body)
  case (Inr payload)
  let ?errs = "check_connections (x_connections payload) @ check_devices (x_devices payload)"
  obtain idmap k res db where c: "import_connections flts (x_connections payload) Map.empty (0, no_result, sv_db sv) = (idmap, k, res, db)"
    by (metis prod_cases4)
  obtain k' res' db' where d: "import_devices bind flts idmap (x_devices payload) (k, res, db) = (k', res', db')"
    by (metis prod_cases3)
  show ?thesis
  proof (cases "?errs = []")
    case True
    then have "\<forall>j \<in> set (x_connections payload). Validate_connection (toConnection j) = None"
      "\<forall>x \<in> set (x_devices payload). Validate_device (toDevice (xd_device x)) = None \<and>
        (\<forall>j \<in> set (xd_data_points x). Validate_datapoint (toDataPoint j) = None)"
      by (auto simp: check_connections_def check_devices_def check_points_def split: option.splits)
    then have "(checked_step bind)\<^sup>*\<^sup>* (sv_db sv) db'"
      using import_connections_steps [OF _ c] import_devices_steps [OF _ d] by (meson rtranclp_trans)
    with assms True show ?thesis by (auto simp: importConfig_def Inr c d intro!: server_inv_reload server_inv_db)
  next
    case False
    then show ?thesis using assms by (simp add: importConfig_def Inr Let_def)
  qed
qed (use assms in \<open>simp add: importConfig_def\<close>)

end

text \<open>SQLite has no NaN: it stores NULL, which the columns refuse.\<close>

definition sqlite_bind :: "f64 \<Rightarrow> f64 option" where
  "sqlite_bind x = (if x = NaN then None else Some x)"

interpretation sqlite: exact_storage sqlite_bind
  by unfold_locales (simp add: exact_bind_def sqlite_bind_def)

section \<open>Requests as steps\<close>

inductive api_step :: "(f64 \<Rightarrow> f64 option) \<Rightarrow> server \<Rightarrow> server \<Rightarrow> bool" for bind where
  api_create_connection: "api_step bind sv (snd (createConnection env bc sv))"
| api_update_connection: "api_step bind sv (snd (updateConnection env p bc sv))"
| api_delete_connection: "api_step bind sv (snd (deleteConnection env p sv))"
| api_create_device: "api_step bind sv (snd (createDevice env bd sv))"
| api_update_device: "api_step bind sv (snd (updateDevice env p bd sv))"
| api_delete_device: "api_step bind sv (snd (deleteDevice env p sv))"
| api_create_point: "api_step bind sv (snd (createDataPoint bind env p bp sv))"
| api_update_point: "api_step bind sv (snd (updateDataPoint bind env p bp sv))"
| api_delete_point: "api_step bind sv (snd (deleteDataPoint env p sv))"
| api_import: "api_step bind sv (snd (importConfig bind flts env body sv))"
| api_status: "api_step bind sv (sv\<lparr>sv_status := st\<rparr>)" \<comment> \<open>the poller reports meanwhile\<close>

lemma api_step_inv:
  assumes "api_step bind sv sv'" "exact_bind bind" "server_inv bind sv"
  shows "server_inv bind sv'"
proof -
  have x: "exact_storage bind" by (rule exact_storage.intro) fact
  note keeps = exact_storage.handlers_keep [OF x assms(3)] exact_storage.import_keeps [OF x assms(3)]
  from assms(1) show ?thesis
    by cases (use keeps assms(3) in \<open>auto simp: server_inv_def\<close>)
qed

definition start_server :: server where
  "start_server = \<lparr>sv_db = empty_cfg, sv_manager = Some NewManager, sv_status = Map.empty\<rparr>"

lemma api_reachable_inv:
  assumes "(api_step bind)\<^sup>*\<^sup>* start_server sv" "exact_bind bind"
  shows "server_inv bind sv"
  using assms(1)
proof (induction rule: rtranclp_induct)
  case base
  show ?case by (simp add: server_inv_def start_server_def checked_empty mgr_inv_New)
qed (use api_step_inv assms(2) in blast)

lemma polled_rows:
  assumes "polled db i = Some (c, ds)"
  shows "\<exists>r \<in> set (connections db). c = scanConnection r \<and> cr_enabled r = 1"
    "(d, dps) \<in> set ds \<Longrightarrow> \<exists>r \<in> set (devices db). d = scanDevice r \<and> dr_enabled r = 1"
    "(d, dps) \<in> set ds \<Longrightarrow> p \<in> set dps \<Longrightarrow> \<exists>r \<in> set (datapoints db). p = scanDataPoint r \<and> pr_enabled r = 1"
proof -
  show "\<exists>r \<in> set (connections db). c = scanConnection r \<and> cr_enabled r = 1"
    using assms by (auto simp: polled_def Let_def dest!: row_by_SomeD split: option.splits if_splits)
  have ds: "ds = group_of db i (map scanDevice (sort_key dr_id (filter (\<lambda>r. dr_enabled r = 1) (devices db))))"
    using assms by (auto simp: polled_def Let_def split: option.splits if_splits)
  show "\<exists>r \<in> set (devices db). d = scanDevice r \<and> dr_enabled r = 1" if "(d, dps) \<in> set ds"
    using that unfolding ds by (auto simp: group_of_def)
  show "\<exists>r \<in> set (datapoints db). p = scanDataPoint r \<and> pr_enabled r = 1" if "(d, dps) \<in> set ds" "p \<in> set dps"
    using that unfolding ds by (auto simp: group_of_def enabled_points_def)
qed

lemma polled_builds:
  assumes "checked_cfg bind db" "polled db i = Some (c, ds)"
  shows "\<exists>cfg. BuildClient c = Inr cfg"
proof -
  have "Validate_connection c = None"
    using polled_rows(1) [OF assms(2)] assms(1) by (auto simp: checked_cfg_def list_all_iff good_conn_def)
  then show ?thesis using BuildClient_total [of c] by blast
qed

text \<open>C24: whatever requests arrive (an import among them), with whatever bodies and database failures, the stored
  configuration consists of records that pass their validation; so every connection that should be polled yields a client, and
  every one of its data points has a known type, a slave address between 1 and 247 and a function code between 1 and 4.\<close>

theorem api_config_valid:
  assumes "exact_bind bind" "(api_step bind)\<^sup>*\<^sup>* start_server sv" "polled (sv_db sv) i = Some (c, ds)"
  shows "c_ID c = i \<and> (\<exists>cfg. BuildClient c = Inr cfg) \<and>
    (\<forall>d dps p. (d, dps) \<in> set ds \<longrightarrow> p \<in> set dps \<longrightarrow>
       d_ConnectionID d = i \<and> 1 \<le> d_SlaveID d \<and> d_SlaveID d \<le> 247 \<and> dp_DeviceID p = d_ID d \<and> known p \<and>
       dp_FunctionCode p \<in> {1, 2, 3, 4} \<and> \<not> is_zero (dp_Scale p))"
proof -
  have ck: "checked_cfg bind (sv_db sv)" using api_reachable_inv [OF assms(2,1)] by (simp add: server_inv_def)
  have b: "\<exists>cfg. BuildClient c = Inr cfg" by (rule polled_builds [OF ck assms(3)])
  have pts: "known p \<and> dp_FunctionCode p \<in> {1, 2, 3, 4} \<and> \<not> is_zero (dp_Scale p) \<and> 1 \<le> d_SlaveID d \<and> d_SlaveID d \<le> 247"
    if "(d, dps) \<in> set ds" "p \<in> set dps" for d dps p
  proof -
    have "Validate_datapoint p = None" "Validate_device d = None"
      using polled_rows(2) [OF assms(3) that(1)] polled_rows(3) [OF assms(3) that] ck
      by (auto simp: checked_cfg_def list_all_iff good_point_def good_dev_def)
    then show ?thesis
      by (auto simp: Validate_datapoint_def Validate_device_def known_def split: if_splits sum.splits)
  qed
  have "c_ID c = i" and "\<And>d dps p. (d, dps) \<in> set ds \<Longrightarrow> p \<in> set dps \<Longrightarrow> d_ConnectionID d = i \<and> dp_DeviceID p = d_ID d"
    using assms(3)
    by (auto simp: polled_def group_of_def enabled_points_def scanConnection_def scanDevice_def scanDataPoint_def Let_def
        dest!: row_by_SomeD split: option.splits if_splits)
  with b pts show ?thesis by blast
qed

definition plain_api :: api_env where
  "plain_api = \<lparr>e_flt = (\<lambda>_. None), e_rel_dev = None, e_rel_conn = None, e_rel_dp = (\<lambda>_. None)\<rparr>"

definition sample_requests :: "(server \<Rightarrow> server) list" where
  \<comment> \<open>a connection, a device and a data point entered on a fresh gateway\<close>
  "sample_requests = [\<lambda>sv. snd (createConnection plain_api (Inr (toConnectionDTO sample_conn)) sv),
     \<lambda>sv. snd (createDevice plain_api (Inr (toDeviceDTO Map.empty sample_dev)) sv),
     \<lambda>sv. snd (createDataPoint sqlite_bind plain_api ''1'' (Inr (toDataPointDTO sample_dp)) sv)]"

definition sample_server :: server where
  "sample_server = fold (\<lambda>f. f) sample_requests start_server"

lemma sample_server_reachable: "(api_step sqlite_bind)\<^sup>*\<^sup>* start_server sample_server"
  unfolding sample_server_def sample_requests_def fold_simps id_o o_apply id_apply
  by (meson api_create_connection api_create_device api_create_point rtranclp.rtrancl_into_rtrancl rtranclp.rtrancl_refl)

lemma sv_db_reload [simp]: "sv_db (reload env sv) = sv_db sv"
  by (simp add: reload_def split: option.split)

lemma dto_round [simp]:
  "toConnection (toConnectionDTO c) = c" "toDevice (toDeviceDTO st d) = d" "toDataPoint (toDataPointDTO p) = p"
  by (simp_all add: toConnection_def toConnectionDTO_def toDevice_def toDeviceDTO_def toDataPoint_def toDataPointDTO_def Let_def
      split: prod.split)

lemma sample_valid:
  "Validate_connection sample_conn = None" "Validate_device sample_dev = None" "Validate_datapoint sample_dp = None"
  by (simp_all add: Validate_connection_def sample_conn_def Validate_device_def sample_dev_def Validate_datapoint_def sample_dp_def
      ByteWidth_def f64_one_def)

lemma sample_requests_db:
  assumes "sv_db sv0 = empty_cfg"
  shows "sv_db (fold (\<lambda>f. f) sample_requests sv0) = sample_cfg_db"
proof -
  have p: "parseID ''1'' = Inr 1" by (simp add: parseID_def ParseInt_def digit_def Let_def)
  have d: "sample_dp\<lparr>dp_DeviceID := 1\<rparr> = sample_dp" by (simp add: sample_dp_def)
  have b: "sqlite_bind f64_one = Some f64_one" "sqlite_bind f64_zero = Some f64_zero"
    by (simp_all add: sqlite_bind_def f64_one_def f64_zero_def)
  let ?db1 = "snd (Create_connection None sample_conn empty_cfg)"
  let ?db2 = "snd (Create_device None sample_dev ?db1)"
  have g: "\<exists>x. Get_device None 1 ?db2 = Inr x"
    by (simp add: Get_device_def row_by_def Create_device_def Create_connection_def conn_check_def sample_conn_def dev_fk_def
        sample_dev_def empty_cfg_def next_rowid_def Let_def)
  have f: "Create_datapoint sqlite_bind None sample_dp ?db2 = Create_datapoint Some None sample_dp ?db2"
    using b by (simp add: Create_datapoint_def sample_dp_def)
  have s1: "sv_db (snd (createConnection plain_api (Inr (toConnectionDTO sample_conn)) sv0)) = ?db1"
    by (auto simp: createConnection_def sample_valid plain_api_def assms split: prod.split sum.split)
  have s2: "sv_db (snd (createDevice plain_api (Inr (toDeviceDTO Map.empty sample_dev)) sv)) = ?db2" if "sv_db sv = ?db1" for sv
    using that by (auto simp: createDevice_def sample_valid plain_api_def Let_def split: prod.split sum.split)
  show ?thesis unfolding sample_requests_def sample_cfg_db_def
    using s2 [OF s1] g
    by (auto simp: createDataPoint_def p d sample_valid plain_api_def f Let_def split: prod.split sum.split)
qed

lemma sample_server_db: "sv_db sample_server = sample_cfg_db"
  by (simp add: sample_server_def sample_requests_db start_server_def)

theorem api_config_valid_witness:
  "\<exists>sv c ds. (api_step sqlite_bind)\<^sup>*\<^sup>* start_server sv \<and> polled (sv_db sv) 1 = Some (c, ds) \<and> (\<exists>cfg. BuildClient c = Inr cfg)"
proof -
  have "polled (sv_db sample_server) 1 \<noteq> None"
    by (simp add: sample_server_db polled_def row_by_def group_of_def sample_cfg_rows conn_row_of_def dev_row_of_def boolToInt_def
        scanDevice_def sample_conn_def sample_dev_def Let_def)
  then obtain c ds where p: "polled (sv_db sample_server) 1 = Some (c, ds)" by auto
  from api_config_valid [OF sqlite.exact sample_server_reachable p] sample_server_reachable p show ?thesis by blast
qed

end
