(* ===== verification/Restore.thy ===== *)
theory Restore
  imports ApiState
begin

text \<open>
  Backup and restore: importing a gateway's own export leaves its configuration as it is, and what an import does on
  a gateway whose keys differ from those of the export.
\<close>

section \<open>Updating a row with what it holds\<close>

lemma update_row_same:
  assumes "distinct (map key rs)" "r \<in> set rs" "f r = r"
  shows "update_row key (key r) f rs = rs"
proof -
  have "(if key x = key r then f x else x) = x" if "x \<in> set rs" for x
    using that assms by (metis distinct_map inj_onD)
  then show ?thesis by (simp add: update_row_def map_idI)
qed

lemma row_by_member: "distinct (map key rs) \<Longrightarrow> r \<in> set rs \<Longrightarrow> row_by key (key r) rs = Some r"
  by (induction rs) (auto simp: row_by_def)

lemma affected: "r \<in> set rs \<Longrightarrow> checkRowsAffected None (length (filter (\<lambda>x. key x = key r) rs)) = None"
  by (auto simp: checkRowsAffected_def filter_empty_conv)

lemma update_conn_same:
  assumes "checked_cfg bind db" "r \<in> set (connections db)"
  shows "Get_connection None (cr_id r) db = Inr (scanConnection r)"
    "Update_connection None (cr_id r) (scanConnection r) db = (None, db)"
proof -
  have d: "distinct (map cr_id (connections db))" and g: "good_conn r" and pr: "conn_check (scanConnection r)"
    using assms by (auto simp: checked_cfg_def list_all_iff conn_check_def scanConnection_def dest: cfg_invD(1,5))
  show "Get_connection None (cr_id r) db = Inr (scanConnection r)"
    by (simp add: Get_connection_def row_by_member [OF d assms(2)])
  show "Update_connection None (cr_id r) (scanConnection r) db = (None, db)"
    using update_row_same [OF d assms(2), of "\<lambda>_. conn_row_of (cr_id r) (scanConnection r)"] g pr affected [OF assms(2), of cr_id]
    by (simp add: Update_connection_def good_conn_def Let_def)
qed

lemma update_dev_same:
  assumes "checked_cfg bind db" "r \<in> set (devices db)"
  shows "Get_device None (dr_id r) db = Inr (scanDevice r)"
    "Update_device None (dr_id r) (scanDevice r) db = (None, db)"
proof -
  have d: "distinct (map dr_id (devices db))" and g: "good_dev r" and fk: "dev_fk (scanDevice r) db"
    using assms by (auto simp: checked_cfg_def list_all_iff dev_fk_def scanDevice_def dest: cfg_invD(2,6))
  show "Get_device None (dr_id r) db = Inr (scanDevice r)"
    by (simp add: Get_device_def row_by_member [OF d assms(2)])
  show "Update_device None (dr_id r) (scanDevice r) db = (None, db)"
    using update_row_same [OF d assms(2), of "\<lambda>_. dev_row_of (dr_id r) (scanDevice r)"] g fk affected [OF assms(2), of dr_id]
    by (simp add: Update_device_def good_dev_def Let_def)
qed

lemma update_point_same:
  assumes "checked_cfg bind db" "r \<in> set (datapoints db)"
  shows "Get_datapoint None (pr_id r) db = Inr (scanDataPoint r)"
    "Update_datapoint bind None (pr_id r) (scanDataPoint r) db = (None, db)"
proof -
  have d: "distinct (map pr_id (datapoints db))" and g: "good_point bind r" and ck: "dp_check (scanDataPoint r)"
    using assms by (auto simp: checked_cfg_def list_all_iff dp_check_def dp_priorityOrDefault_def scanDataPoint_def dest: cfg_invD(3,9))
  show "Get_datapoint None (pr_id r) db = Inr (scanDataPoint r)"
    by (simp add: Get_datapoint_def row_by_member [OF d assms(2)])
  have s: "dp_Scale (scanDataPoint r) = pr_scale r" "dp_Offset (scanDataPoint r) = pr_offset r" by (simp_all add: scanDataPoint_def)
  have n: "length (filter (\<lambda>x. pr_id x = pr_id r) (datapoints db)) \<noteq> 0" using assms(2) by (auto simp: filter_empty_conv)
  show "Update_datapoint bind None (pr_id r) (scanDataPoint r) db = (None, db)"
    using update_row_same [OF d assms(2), of "\<lambda>x. dp_row_of (pr_scale r) (pr_offset r) (pr_id r) (pr_device_id x) (scanDataPoint r)"]
      g ck n affected [OF assms(2), of pr_id]
    by (simp add: Update_datapoint_def good_point_def s Let_def)
qed

section \<open>Importing one's own export\<close>

lemma import_connections_same:
  assumes "checked_cfg bind db" "set rs \<subseteq> set (connections db)"
  shows "\<exists>k' im. import_connections (\<lambda>_. None) (map (toConnectionDTO \<circ> scanConnection) rs) idmap (k, res, db) =
      (im, k', res\<lparr>ConnectionsUpdated := ConnectionsUpdated res + int (length rs)\<rparr>, db) \<and>
    (\<forall>i. im i = (if i \<in> cr_id ` set rs then Some i else idmap i))"
  using assms(2)
proof (induction rs arbitrary: idmap k res)
  case (Cons r rs)
  have u: "Get_connection None (cr_id r) db = Inr (scanConnection r)"
    "Update_connection None (cr_id r) (scanConnection r) db = (None, db)"
    using update_conn_same [OF assms(1)] Cons.prems by auto
  have id: "jc_id (toConnectionDTO (scanConnection r)) = cr_id r" by (simp add: toConnectionDTO_def scanConnection_def)
  have nz: "cr_id r \<noteq> 0" using assms(1) Cons.prems by (auto simp: checked_cfg_def list_all_iff good_conn_def)
  from Cons.IH [of "idmap(cr_id r \<mapsto> cr_id r)" "Suc (Suc k)" "res\<lparr>ConnectionsUpdated := ConnectionsUpdated res + 1\<rparr>"] Cons.prems
  obtain k' im where im: "import_connections (\<lambda>_. None) (map (toConnectionDTO \<circ> scanConnection) rs) (idmap(cr_id r \<mapsto> cr_id r))
      (Suc (Suc k), res\<lparr>ConnectionsUpdated := ConnectionsUpdated res + 1\<rparr>, db) =
      (im, k', res\<lparr>ConnectionsUpdated := ConnectionsUpdated res + 1 + int (length rs)\<rparr>, db)"
    "\<forall>i. im i = (if i \<in> cr_id ` set rs then Some i else (idmap(cr_id r \<mapsto> cr_id r)) i)"
    by (simp del: fun_upd_apply o_apply) blast
  have "import_connections (\<lambda>_. None) (map (toConnectionDTO \<circ> scanConnection) (r # rs)) idmap (k, res, db) =
      (im, k', res\<lparr>ConnectionsUpdated := ConnectionsUpdated res + int (length (r # rs))\<rparr>, db)"
    using im(1) by (simp add: Let_def u id nz add.assoc)
  moreover have "\<forall>i. im i = (if i \<in> cr_id ` set (r # rs) then Some i else idmap i)" using im(2) by simp
  ultimately show ?case by blast
qed simp

lemma import_points_same:
  assumes "checked_cfg bind db" "set rs \<subseteq> {r \<in> set (datapoints db). pr_device_id r = dev}"
  shows "\<exists>k'. import_points bind (\<lambda>_. None) dev (map (toDataPointDTO \<circ> scanDataPoint) rs) (k, res, db) =
      (k', res\<lparr>DataPointsUpdated := DataPointsUpdated res + int (length rs)\<rparr>, db)"
  using assms(2)
proof (induction rs arbitrary: k res)
  case (Cons r rs)
  have u: "Get_datapoint None (pr_id r) db = Inr (scanDataPoint r)"
    "Update_datapoint bind None (pr_id r) (scanDataPoint r) db = (None, db)"
    using update_point_same [OF assms(1)] Cons.prems by auto
  have id: "jp_id (toDataPointDTO (scanDataPoint r)) = pr_id r" "(scanDataPoint r)\<lparr>dp_DeviceID := dev\<rparr> = scanDataPoint r"
    using Cons.prems by (auto simp: toDataPointDTO_def scanDataPoint_def)
  have nz: "pr_id r \<noteq> 0" using assms(1) Cons.prems by (auto simp: checked_cfg_def list_all_iff good_point_def)
  from Cons.IH [of "Suc (Suc k)" "res\<lparr>DataPointsUpdated := DataPointsUpdated res + 1\<rparr>"] Cons.prems
  show ?case by (auto simp: Let_def u id nz add.assoc)
qed simp

definition exported_device :: "server \<Rightarrow> dev_row \<Rightarrow> deviceExportDTO" where
  "exported_device sv r = \<lparr>xd_device = toDeviceDTO (sv_status sv) (scanDevice r),
     xd_data_points = map (toDataPointDTO \<circ> scanDataPoint)
       (sort_key pr_id (filter (\<lambda>p. pr_device_id p = dr_id r) (datapoints (sv_db sv))))\<rparr>"

lemma import_devices_same:
  assumes "checked_cfg bind (sv_db sv)" "set rs \<subseteq> set (devices (sv_db sv))"
    and "\<forall>i \<in> cr_id ` set (connections (sv_db sv)). idmap i = Some i"
  shows "\<exists>k' n. import_devices bind (\<lambda>_. None) idmap (map (exported_device sv) rs) (k, res, sv_db sv) =
      (k', res\<lparr>DevicesUpdated := DevicesUpdated res + int (length rs), DataPointsUpdated := DataPointsUpdated res + n\<rparr>, sv_db sv)"
  using assms(2)
proof (induction rs arbitrary: k res)
  case Nil
  then show ?case by (intro exI [of _ k] exI [of _ 0]) simp
next
  case (Cons r rs)
  let ?db = "sv_db sv"
  let ?ps = "sort_key pr_id (filter (\<lambda>p. pr_device_id p = dr_id r) (datapoints ?db))"
  have u: "Get_device None (dr_id r) ?db = Inr (scanDevice r)" "Update_device None (dr_id r) (scanDevice r) ?db = (None, ?db)"
    using update_dev_same [OF assms(1)] Cons.prems by auto
  have r: "idmap (dr_connection_id r) = Some (dr_connection_id r)" "dr_id r \<noteq> 0"
    using assms(1,3) Cons.prems by (auto simp: checked_cfg_def list_all_iff good_dev_def dest: cfg_invD(6))
  have j: "jd_id (xd_device (exported_device sv r)) = dr_id r" "jd_connection_id (xd_device (exported_device sv r)) = dr_connection_id r"
    "toDevice (xd_device (exported_device sv r)) = scanDevice r"
    by (simp_all add: exported_device_def) (simp_all add: toDeviceDTO_def scanDevice_def Let_def split: prod.split)
  have c: "(scanDevice r)\<lparr>d_ConnectionID := dr_connection_id r\<rparr> = scanDevice r" by (simp add: scanDevice_def)
  obtain k1 where p: "import_points bind (\<lambda>_. None) (dr_id r) (xd_data_points (exported_device sv r))
      (Suc (Suc k), res\<lparr>DevicesUpdated := DevicesUpdated res + 1\<rparr>, ?db) =
      (k1, res\<lparr>DevicesUpdated := DevicesUpdated res + 1, DataPointsUpdated := DataPointsUpdated res + int (length ?ps)\<rparr>, ?db)"
    using import_points_same [OF assms(1), of ?ps "dr_id r" "Suc (Suc k)" "res\<lparr>DevicesUpdated := DevicesUpdated res + 1\<rparr>"]
    by (auto simp: exported_device_def)
  from Cons.IH [of k1 "res\<lparr>DevicesUpdated := DevicesUpdated res + 1, DataPointsUpdated := DataPointsUpdated res + int (length ?ps)\<rparr>"]
    Cons.prems obtain k' n where
    "import_devices bind (\<lambda>_. None) idmap (map (exported_device sv) rs)
       (k1, res\<lparr>DevicesUpdated := DevicesUpdated res + 1, DataPointsUpdated := DataPointsUpdated res + int (length ?ps)\<rparr>, ?db) =
     (k', res\<lparr>DevicesUpdated := DevicesUpdated res + 1 + int (length rs),
        DataPointsUpdated := DataPointsUpdated res + int (length ?ps) + n\<rparr>, ?db)" by auto
  then show ?case
    by (intro exI [of _ k'] exI [of _ "int (length ?ps) + n"]) (simp add: Let_def j u r c p add.assoc)
qed

lemma export_devices_rows: "export_devices (\<lambda>_. None) sv k (map scanDevice rs) = Inr (map (exported_device sv) rs)"
  by (induction rs arbitrary: k) (simp_all add: ListByDevice_def exported_device_def)

lemma export_rows:
  "exportConfig (\<lambda>_. None) now c sv = Reply 200 payload \<Longrightarrow>
     x_connections payload = map (toConnectionDTO \<circ> scanConnection) (sort_key cr_id (connections (sv_db sv))) \<and>
     x_devices payload = map (exported_device sv) (sort_key dr_id (devices (sv_db sv)))"
  by (auto simp: exportConfig_def List_connections_def List_devices_def export_devices_rows)

lemma export_passes:
  assumes "checked_cfg bind (sv_db sv)"
  shows "check_connections (map (toConnectionDTO \<circ> scanConnection) (sort_key cr_id (connections (sv_db sv)))) = []"
    "check_devices (map (exported_device sv) (sort_key dr_id (devices (sv_db sv)))) = []"
  using assms
  by (auto simp: check_connections_def check_devices_def check_points_def checked_cfg_def list_all_iff good_conn_def good_dev_def
      good_point_def exported_device_def)

text \<open>C33: a backup restores onto its own gateway without a trace. In every reachable state, importing what the gateway has
  just exported is accepted without errors, creates nothing, and leaves connections, devices and data points exactly as they were.\<close>

theorem import_own_export:
  assumes "exact_bind bind" "(api_step bind)\<^sup>*\<^sup>* start_server sv" "exportConfig (\<lambda>_. None) now c sv = Reply 200 payload"
  shows "\<exists>res sv'. importConfig bind (\<lambda>_. None) env (Inr payload) sv = (Imported res, sv') \<and> sv_db sv' = sv_db sv \<and>
    Errors res = [] \<and> ConnectionsCreated res = 0 \<and> DevicesCreated res = 0 \<and> DataPointsCreated res = 0 \<and>
    ConnectionsUpdated res = int (length (connections (sv_db sv))) \<and> DevicesUpdated res = int (length (devices (sv_db sv)))"
proof -
  have ck: "checked_cfg bind (sv_db sv)" using api_reachable_inv [OF assms(2,1)] by (simp add: server_inv_def)
  let ?cs = "sort_key cr_id (connections (sv_db sv))" and ?ds = "sort_key dr_id (devices (sv_db sv))"
  note x = export_rows [OF assms(3)]
  let ?r1 = "no_result\<lparr>ConnectionsUpdated := ConnectionsUpdated no_result + int (length (connections (sv_db sv)))\<rparr>"
  obtain k im where c: "import_connections (\<lambda>_. None) (map (toConnectionDTO \<circ> scanConnection) ?cs) Map.empty (0, no_result, sv_db sv) =
      (im, k, ?r1, sv_db sv)"
    and im: "\<forall>i. im i = (if i \<in> cr_id ` set ?cs then Some i else None)"
    using import_connections_same [OF ck, of ?cs Map.empty 0 no_result] by (simp del: o_apply) blast
  have im': "\<forall>i \<in> cr_id ` set (connections (sv_db sv)). im i = Some i" using im by simp
  obtain k' n where d: "import_devices bind (\<lambda>_. None) im (map (exported_device sv) ?ds) (k, ?r1, sv_db sv) =
      (k', ?r1\<lparr>DevicesUpdated := DevicesUpdated ?r1 + int (length (devices (sv_db sv))),
         DataPointsUpdated := DataPointsUpdated ?r1 + n\<rparr>, sv_db sv)"
    using import_devices_same [OF ck _ im', of ?ds k ?r1] by (simp only: length_sort set_sort order_refl simp_thms) blast
  have "importConfig bind (\<lambda>_. None) env (Inr payload) sv = (Imported (?r1\<lparr>DevicesUpdated := DevicesUpdated ?r1 + int (length (devices (sv_db sv))),
      DataPointsUpdated := DataPointsUpdated ?r1 + n\<rparr>), reload env (sv\<lparr>sv_db := sv_db sv\<rparr>))"
    by (simp only: importConfig_def sum.case x export_passes [OF ck] append_Nil list.size less_irrefl if_False c d prod.case Let_def)
  then show ?thesis by (simp add: no_result_def)
qed

theorem import_own_export_witness:
  "\<exists>payload res sv'. exportConfig (\<lambda>_. None) 0 sample_config sample_server = Reply 200 payload \<and>
    importConfig sqlite_bind (\<lambda>_. None) plain_api (Inr payload) sample_server = (Imported res, sv') \<and>
    sv_db sv' = sample_cfg_db \<and> DevicesUpdated res = 1"
proof -
  obtain payload where p: "exportConfig (\<lambda>_. None) 0 sample_config sample_server = Reply 200 payload"
    by (simp add: exportConfig_def List_connections_def List_devices_def export_devices_rows)
  from import_own_export [OF sqlite.exact sample_server_reachable p, of plain_api] p show ?thesis
    by (auto simp: sample_server_db sample_cfg_rows)
qed

section \<open>Restoring onto another gateway\<close>

definition as_server :: "cfgdb \<Rightarrow> server" where
  "as_server db = \<lparr>sv_db = db, sv_manager = None, sv_status = Map.empty\<rparr>"

definition point_a :: datapoint where "point_a = sample_dp\<lparr>dp_TagName := ''a'', dp_DeviceID := 1\<rparr>"
definition point_b :: datapoint where "point_b = sample_dp\<lparr>dp_TagName := ''b'', dp_DeviceID := 2\<rparr>"

definition two_meters :: cfgdb where
  \<comment> \<open>two devices; the point of the second was entered before the point of the first\<close>
  "two_meters = snd (Create_datapoint Some None point_a (snd (Create_datapoint Some None point_b
     (snd (Create_device None sample_dev (snd (Create_device None sample_dev
       (snd (Create_connection None sample_conn empty_cfg)))))))))"

lemma two_meters_rows:
  "connections two_meters = [conn_row_of 1 sample_conn]"
  "devices two_meters = [dev_row_of 1 sample_dev, dev_row_of 2 sample_dev]"
  "datapoints two_meters = [dp_row_of f64_one f64_zero 1 2 point_b, dp_row_of f64_one f64_zero 2 1 point_a]"
  by (simp_all add: two_meters_def Create_datapoint_def Create_device_def Create_connection_def empty_cfg_def
      conn_check_def dev_fk_def dp_check_def sample_conn_def sample_dev_def sample_dp_def point_a_def point_b_def next_rowid_def
      dp_priorityOrDefault_def)

lemmas import_eval = import_connections.simps import_devices.simps import_points.simps Get_connection_def Get_device_def Get_datapoint_def
  Create_connection_def Create_device_def Create_datapoint_def Update_datapoint_def row_by_def update_row_def conn_check_def dev_fk_def dp_check_def
  last_insert_id_def next_rowid_def checkRowsAffected_def Let_def

lemmas sample_defs = sample_conn_def sample_dev_def sample_dp_def point_a_def point_b_def

definition meter_dto :: "int \<Rightarrow> deviceDTO" where
  "meter_dto i = toDeviceDTO Map.empty (sample_dev\<lparr>d_ID := i\<rparr>)"

lemma export_two_meters:
  assumes "exportConfig (\<lambda>_. None) now c (as_server two_meters) = Reply 200 payload"
  shows "x_connections payload = [toConnectionDTO (sample_conn\<lparr>c_ID := 1\<rparr>)]"
    "x_devices payload = [\<lparr>xd_device = meter_dto 1, xd_data_points = [toDataPointDTO (point_a\<lparr>dp_ID := 2, dp_Priority := ''NORMAL''\<rparr>)]\<rparr>,
       \<lparr>xd_device = meter_dto 2, xd_data_points = [toDataPointDTO (point_b\<lparr>dp_ID := 1, dp_Priority := ''NORMAL''\<rparr>)]\<rparr>]"
  using export_rows [OF assms]
  by (simp_all add: as_server_def two_meters_rows exported_device_def meter_dto_def dp_row_of_def [where dev = 1] dp_row_of_def [where dev = 2])
    (simp_all add: scanDataPoint_def sample_defs dp_priorityOrDefault_def nullable_def null_string_def boolToInt_def)

lemma import_meter_connection:
  "import_connections (\<lambda>_. None) [toConnectionDTO (sample_conn\<lparr>c_ID := 1\<rparr>)] Map.empty (0, no_result, empty_cfg) =
   ([1 \<mapsto> 1], 2, no_result\<lparr>ConnectionsCreated := 1\<rparr>, empty_cfg\<lparr>connections := [conn_row_of 1 sample_conn], conn_seq := 1\<rparr>)"
  by (simp add: import_eval empty_cfg_def toConnectionDTO_def toConnection_def no_result_def sample_conn_def conn_row_of_def)

lemma import_two_meters:
  "import_devices Some (\<lambda>_. None) [1 \<mapsto> 1]
     [\<lparr>xd_device = meter_dto 1, xd_data_points = [toDataPointDTO (point_a\<lparr>dp_ID := 2, dp_Priority := ''NORMAL''\<rparr>)]\<rparr>,
      \<lparr>xd_device = meter_dto 2, xd_data_points = [toDataPointDTO (point_b\<lparr>dp_ID := 1, dp_Priority := ''NORMAL''\<rparr>)]\<rparr>]
     (2, res, empty_cfg\<lparr>connections := [conn_row_of 1 sample_conn], conn_seq := 1\<rparr>) =
   (10, res\<lparr>DevicesCreated := DevicesCreated res + 2, DataPointsCreated := DataPointsCreated res + 1, DataPointsUpdated := DataPointsUpdated res + 1\<rparr>,
    empty_cfg\<lparr>connections := [conn_row_of 1 sample_conn], conn_seq := 1, devices := [dev_row_of 1 sample_dev, dev_row_of 2 sample_dev],
      datapoints := [dp_row_of f64_one f64_zero 1 1 point_b], dp_seq := 1\<rparr>)"
  by (simp add: import_eval empty_cfg_def meter_dto_def toDeviceDTO_def toDevice_def Get_status_def toDataPointDTO_def toDataPoint_def
      sample_defs dp_priorityOrDefault_def dev_row_of_def dp_row_of_def conn_row_of_def)

definition tags_of :: "int \<Rightarrow> cfgdb \<Rightarrow> string list" where
  "tags_of i db = (case ListByDevice None i db of Inr ps \<Rightarrow> map dp_TagName ps | Inl _ \<Rightarrow> [])"

lemma tags_of_rows: "tags_of i db = map pr_tag_name (sort_key pr_id (filter (\<lambda>r. pr_device_id r = i) (datapoints db)))"
  by (simp add: tags_of_def ListByDevice_def scanDataPoint_def)

text \<open>A restore onto an empty gateway can lose data points. The key of an exported data point is looked up among the
  points the import itself has just created: when the point of the second device has a smaller key than that of
  the first, it overwrites the first device's new point, which stays with the first device. The import reports no error; afterwards
  the first device has the second one's point and the second device has none.\<close>

theorem import_overwrites_points:
  "\<exists>payload res sv'. exportConfig (\<lambda>_. None) 0 sample_config (as_server two_meters) = Reply 200 payload \<and>
     importConfig Some (\<lambda>_. None) plain_api (Inr payload) (as_server empty_cfg) = (Imported res, sv') \<and> Errors res = [] \<and>
     tags_of 1 two_meters = [''a''] \<and> tags_of 2 two_meters = [''b''] \<and>
     tags_of 1 (sv_db sv') = [''b''] \<and> tags_of 2 (sv_db sv') = []"
proof -
  obtain payload where p: "exportConfig (\<lambda>_. None) 0 sample_config (as_server two_meters) = Reply 200 payload"
    by (simp add: exportConfig_def List_connections_def List_devices_def export_devices_rows)
  note x = export_two_meters [OF p]
  have v: "Validate_datapoint (point_a\<lparr>dp_ID := i, dp_Priority := ''NORMAL''\<rparr>) = None"
    "Validate_datapoint (point_b\<lparr>dp_ID := i, dp_Priority := ''NORMAL''\<rparr>) = None" "Validate_device (sample_dev\<lparr>d_ID := i\<rparr>) = None" for i
    by (simp_all add: Validate_datapoint_def Validate_device_def sample_defs ByteWidth_def f64_one_def)
  have ck: "check_connections (x_connections payload) @ check_devices (x_devices payload) = []"
    by (simp add: x check_connections_def check_devices_def check_points_def sample_valid v meter_dto_def)
  have sv: "sv_db (as_server empty_cfg) = empty_cfg" by (simp add: as_server_def)
  have r: "importConfig Some (\<lambda>_. None) plain_api (Inr payload) (as_server empty_cfg) =
      (Imported (no_result\<lparr>ConnectionsCreated := 1, DevicesCreated := 2, DataPointsCreated := 1, DataPointsUpdated := 1\<rparr>),
       reload plain_api ((as_server empty_cfg)\<lparr>sv_db := empty_cfg\<lparr>connections := [conn_row_of 1 sample_conn], conn_seq := 1,
         devices := [dev_row_of 1 sample_dev, dev_row_of 2 sample_dev],
         datapoints := [dp_row_of f64_one f64_zero 1 1 point_b], dp_seq := 1\<rparr>\<rparr>))"
    using ck by (simp add: importConfig_def sv x import_meter_connection import_two_meters
        del: import_connections.simps import_devices.simps) (simp add: no_result_def)
  have t: "tags_of 1 two_meters = [''a'']" "tags_of 2 two_meters = [''b'']"
    by (simp_all add: tags_of_rows two_meters_rows dp_row_of_def point_a_def point_b_def)
  show ?thesis
    by (intro exI conjI) (rule p, rule r, simp_all add: t, simp_all add: no_result_def tags_of_rows dp_row_of_def point_b_def)
qed

end
