(* ===== verification/Backup.thy ===== *)
theory Backup
  imports Restore
begin

text \<open>
  Moving a configuration to another gateway with \<open>src/gateway/internal/api/configio.go\<close>: a backup of one gateway imported
  on a fresh one. The import looks every key of the backup up in the tables it is filling, and creates the record under the next free
  key when the lookup fails. So the outcome depends on how far the keys of the backup run ahead of the keys handed out so far.
\<close>

section \<open>Numbering\<close>

text \<open>\<open>numbers f n ks\<close>: \<open>f\<close> gives the keys \<open>ks\<close> the numbers after \<open>n\<close>, in order. \<open>ahead n ks\<close>: each key is larger
  than all numbers given out before its turn.\<close>

fun numbers :: "(int \<Rightarrow> int) \<Rightarrow> int \<Rightarrow> int list \<Rightarrow> bool" where
  "numbers f n [] \<longleftrightarrow> True"
| "numbers f n (k # ks) \<longleftrightarrow> f k = n + 1 \<and> numbers f (n + 1) ks"

fun ahead :: "int \<Rightarrow> int list \<Rightarrow> bool" where
  "ahead n [] \<longleftrightarrow> True"
| "ahead n (k # ks) \<longleftrightarrow> n < k \<and> ahead (n + 1) ks"

lemma numbers_cong: "(\<And>k. k \<in> set ks \<Longrightarrow> f k = g k) \<Longrightarrow> numbers f n ks = numbers g n ks"
  by (induction ks arbitrary: n) auto

lemma numbers_exist: "distinct ks \<Longrightarrow> \<exists>f. numbers f n ks"
proof (induction ks arbitrary: n)
  case (Cons k ks)
  then obtain f where "numbers f (n + 1) ks" by auto
  moreover have "numbers (f(k := n + 1)) (n + 1) ks = numbers f (n + 1) ks" using Cons.prems by (intro numbers_cong) auto
  ultimately have "numbers (f(k := n + 1)) n (k # ks)" by simp
  then show ?case by blast
qed simp

lemma numbers_range: "numbers f n ks \<Longrightarrow> f ` set ks = {n + 1..n + int (length ks)}"
proof (induction ks arbitrary: n)
  case (Cons k ks)
  then have "f k = n + 1" "f ` set ks = {n + 1 + 1..n + 1 + int (length ks)}"
    using Cons.IH [of "n + 1"] by simp_all
  then have "f ` set (k # ks) = insert (n + 1) {n + 1 + 1..n + 1 + int (length ks)}" by simp
  also have "\<dots> = {n + 1..n + int (length (k # ks))}" by auto
  finally show ?case .
qed simp

lemma numbers_inj: "numbers f n ks \<Longrightarrow> distinct ks \<Longrightarrow> inj_on f (set ks)"
  using numbers_range [of f n ks] by (intro eq_card_imp_inj_on) (auto simp: distinct_card)

lemma numbers_append: "numbers f n (ks @ ls) \<longleftrightarrow> numbers f n ks \<and> numbers f (n + int (length ks)) ls"
  by (induction ks arbitrary: n) (auto simp: algebra_simps)

lemma ahead_append: "ahead n (ks @ ls) \<longleftrightarrow> ahead n ks \<and> ahead (n + int (length ks)) ls"
  by (induction ks arbitrary: n) (auto simp: algebra_simps)

lemma ahead_ascending: "sorted_wrt (<) ks \<Longrightarrow> (\<And>k. k \<in> set ks \<Longrightarrow> n < k) \<Longrightarrow> ahead n ks"
  by (induction ks arbitrary: n) (auto intro: zless_imp_add1_zle order_le_less_trans [of "n + 1" _ _ for n])

lemma ahead_nth: "ahead n ks \<longleftrightarrow> (\<forall>i<length ks. n + int i < ks ! i)"
  by (induction ks arbitrary: n) (auto simp: less_Suc_eq_0_disj algebra_simps)

lemma ascending_keys: "distinct (map key rs) \<Longrightarrow> sorted_wrt (<) (map key (sort_key key rs))"
proof -
  assume "distinct (map key rs)"
  then have "distinct (map key (sort_key key rs))" by (metis distinct_map inj_on_subset mset_map mset_sort set_mset_mset mset_eq_imp_distinct_iff)
  then show ?thesis by (simp add: strict_sorted_iff)
qed

lemma next_rowid_full: "set ids = {1..m} \<Longrightarrow> 0 \<le> m \<Longrightarrow> next_rowid ids = m + 1"
proof -
  assume ids: "set ids = {1..m}" and m: "0 \<le> m"
  have "foldr max xs (0::int) = 0 \<or> foldr max xs 0 \<in> set xs" for xs by (induction xs) (auto simp: max_def)
  from this [of ids] have "next_rowid ids \<le> m + 1" using ids m by (auto simp: next_rowid_def)
  moreover have "m < next_rowid ids" using ids m next_rowid_fresh [of m ids] next_rowid_pos [of ids] by (cases "m = 0") auto
  ultimately show ?thesis by simp
qed

section \<open>Copies of rows\<close>

lemma copy_conn_row: "good_conn r \<Longrightarrow> conn_row_of i (scanConnection r) = r\<lparr>cr_id := i\<rparr>"
  by (cases r) (simp add: good_conn_def conn_row_of_def scanConnection_def)

lemma copy_dev_row: "good_dev r \<Longrightarrow> dev_row_of i ((scanDevice r)\<lparr>d_ConnectionID := c\<rparr>) = r\<lparr>dr_id := i, dr_connection_id := c\<rparr>"
  by (cases r) (simp add: good_dev_def dev_row_of_def scanDevice_def)

lemma copy_point_row:
  "good_point bind r \<Longrightarrow> dp_row_of (pr_scale r) (pr_offset r) i dev ((scanDataPoint r)\<lparr>dp_DeviceID := dev'\<rparr>) = r\<lparr>pr_id := i, pr_device_id := dev\<rparr>"
  by (cases r) (simp add: good_point_def dp_row_of_def scanDataPoint_def)

section \<open>The import of fresh keys\<close>

lemma missing_rows:
  "i \<notin> cr_id ` set (connections db) \<Longrightarrow> Get_connection None i db = Inl NotFound"
  "i \<notin> dr_id ` set (devices db) \<Longrightarrow> Get_device None i db = Inl NotFound"
  "i \<notin> pr_id ` set (datapoints db) \<Longrightarrow> Get_datapoint None i db = Inl NotFound"
  by (simp_all add: Get_connection_def Get_device_def Get_datapoint_def row_by_None [THEN iffD2])

lemma dto_keys:
  "jc_id (toConnectionDTO (scanConnection r)) = cr_id r" "jp_id (toDataPointDTO (scanDataPoint p)) = pr_id p"
  by (simp_all add: toConnectionDTO_def scanConnection_def toDataPointDTO_def scanDataPoint_def)

lemma create_conn_copy:
  assumes "good_conn r"
  shows "Create_connection None (scanConnection r) db =
    (Inr (conn_seq db + 1), db\<lparr>connections := connections db @ [r\<lparr>cr_id := conn_seq db + 1\<rparr>], conn_seq := conn_seq db + 1\<rparr>)"
proof -
  have "conn_check (scanConnection r)"
    using assms by (auto simp: good_conn_def Validate_connection_def conn_check_def split: if_splits)
  then show ?thesis using copy_conn_row [OF assms] by (simp add: Create_connection_def last_insert_id_def Let_def)
qed

lemma import_connections_fresh:
  assumes "list_all good_conn rs" "numbers f (conn_seq db) (map cr_id rs)" "ahead (conn_seq db) (map cr_id rs)" "0 \<le> conn_seq db"
    and "\<forall>r \<in> set (connections db). cr_id r \<le> conn_seq db"
  shows "\<exists>k' im. import_connections (\<lambda>_. None) (map (toConnectionDTO \<circ> scanConnection) rs) idmap (k, res, db) =
      (im, k', res\<lparr>ConnectionsCreated := ConnectionsCreated res + int (length rs)\<rparr>,
       db\<lparr>connections := connections db @ map (\<lambda>r. r\<lparr>cr_id := f (cr_id r)\<rparr>) rs, conn_seq := conn_seq db + int (length rs)\<rparr>) \<and>
    (\<forall>i. im i = (if i \<in> cr_id ` set rs then Some (f i) else idmap i))"
  using assms
proof (induction rs arbitrary: idmap k res db)
  case (Cons r rs)
  let ?n = "conn_seq db"
  let ?db = "db\<lparr>connections := connections db @ [r\<lparr>cr_id := ?n + 1\<rparr>], conn_seq := ?n + 1\<rparr>"
  let ?res = "res\<lparr>ConnectionsCreated := ConnectionsCreated res + 1\<rparr>"
  have new: "Get_connection None (cr_id r) db = Inl NotFound" using Cons.prems by (intro missing_rows) auto
  have step: "import_connections (\<lambda>_. None) (map (toConnectionDTO \<circ> scanConnection) (r # rs)) idmap (k, res, db) =
      import_connections (\<lambda>_. None) (map (toConnectionDTO \<circ> scanConnection) rs) (idmap(cr_id r \<mapsto> ?n + 1)) (Suc (Suc k), ?res, ?db)"
    using Cons.prems by (simp add: new create_conn_copy dto_keys Let_def)
  have "\<exists>k' im. import_connections (\<lambda>_. None) (map (toConnectionDTO \<circ> scanConnection) rs) (idmap(cr_id r \<mapsto> ?n + 1)) (Suc (Suc k), ?res, ?db) =
      (im, k', ?res\<lparr>ConnectionsCreated := ConnectionsCreated ?res + int (length rs)\<rparr>,
       ?db\<lparr>connections := connections ?db @ map (\<lambda>r. r\<lparr>cr_id := f (cr_id r)\<rparr>) rs, conn_seq := conn_seq ?db + int (length rs)\<rparr>) \<and>
      (\<forall>i. im i = (if i \<in> cr_id ` set rs then Some (f i) else (idmap(cr_id r \<mapsto> ?n + 1)) i))"
    using Cons.prems by (intro Cons.IH) (auto simp: algebra_simps)
  then show ?case unfolding step using Cons.prems by (auto simp: algebra_simps)
qed simp

definition point_table :: "cfgdb \<Rightarrow> bool" where
  \<comment> \<open>the keys of the data points are those handed out so far\<close>
  "point_table db \<longleftrightarrow> 0 \<le> dp_seq db \<and> pr_id ` set (datapoints db) = {1..dp_seq db}"

definition point_copy :: "(int \<Rightarrow> int) \<Rightarrow> int \<Rightarrow> dp_row \<Rightarrow> dp_row" where
  "point_copy f dev r = r\<lparr>pr_id := f (pr_id r), pr_device_id := dev\<rparr>"

lemma good_point_check: "good_point bind r \<Longrightarrow> dp_check ((scanDataPoint r)\<lparr>dp_DeviceID := dev\<rparr>)"
  by (auto simp: good_point_def Validate_datapoint_def dp_check_def dp_priorityOrDefault_def split: if_splits sum.splits)

lemma create_point_copy:
  assumes "good_point bind r" "dev \<in> dr_id ` set (devices db)" "f (pr_id r) = dp_seq db + 1"
  shows "Create_datapoint bind None ((scanDataPoint r)\<lparr>dp_DeviceID := dev\<rparr>) db =
    (Inr (dp_seq db + 1), db\<lparr>datapoints := datapoints db @ [point_copy f dev r], dp_seq := dp_seq db + 1\<rparr>)"
proof -
  have s: "dp_Scale (scanDataPoint r) = pr_scale r" "dp_Offset (scanDataPoint r) = pr_offset r" by (simp_all add: scanDataPoint_def)
  have "bind (pr_scale r) = Some (pr_scale r)" "bind (pr_offset r) = Some (pr_offset r)" using assms(1) by (simp_all add: good_point_def)
  with assms(2,3) show ?thesis
    by (simp add: Create_datapoint_def s good_point_check [OF assms(1)] copy_point_row [OF assms(1)] last_insert_id_def Let_def point_copy_def)
qed

lemma import_point_new:
  assumes "good_point bind r" "dev \<in> dr_id ` set (devices db)" "point_table db" "dp_seq db < pr_id r" "f (pr_id r) = dp_seq db + 1"
  shows "import_points bind (\<lambda>_. None) dev (map (toDataPointDTO \<circ> scanDataPoint) (r # rs)) (k, res, db) =
    import_points bind (\<lambda>_. None) dev (map (toDataPointDTO \<circ> scanDataPoint) rs) (Suc (Suc k),
      res\<lparr>DataPointsCreated := DataPointsCreated res + 1\<rparr>,
      db\<lparr>datapoints := datapoints db @ [point_copy f dev r], dp_seq := dp_seq db + 1\<rparr>)"
proof -
  have "Get_datapoint None (pr_id r) db = Inl NotFound" using assms(3,4) by (intro missing_rows) (auto simp: point_table_def)
  moreover have "pr_id r \<noteq> 0" using assms(1) by (simp add: good_point_def)
  ultimately show ?thesis by (simp add: dto_keys create_point_copy [where f = f, OF assms(1,2,5)] Let_def)
qed

lemma point_table_grow:
  "point_table db \<Longrightarrow> f (pr_id r) = dp_seq db + 1 \<Longrightarrow>
   point_table (db\<lparr>datapoints := datapoints db @ [point_copy f dev r], dp_seq := dp_seq db + 1\<rparr>)"
  by (auto simp: point_table_def point_copy_def)

lemma import_points_fresh:
  assumes "list_all (good_point bind) rs" "dev \<in> dr_id ` set (devices db)" "point_table db"
    and "numbers f (dp_seq db) (map pr_id rs)" "ahead (dp_seq db) (map pr_id rs)"
  shows "\<exists>k'. import_points bind (\<lambda>_. None) dev (map (toDataPointDTO \<circ> scanDataPoint) rs) (k, res, db) =
    (k', res\<lparr>DataPointsCreated := DataPointsCreated res + int (length rs)\<rparr>,
     db\<lparr>datapoints := datapoints db @ map (point_copy f dev) rs, dp_seq := dp_seq db + int (length rs)\<rparr>)"
  using assms
proof (induction rs arbitrary: k res db)
  case (Cons r rs)
  let ?db = "db\<lparr>datapoints := datapoints db @ [point_copy f dev r], dp_seq := dp_seq db + 1\<rparr>"
  let ?res = "res\<lparr>DataPointsCreated := DataPointsCreated res + 1\<rparr>"
  have step: "import_points bind (\<lambda>_. None) dev (map (toDataPointDTO \<circ> scanDataPoint) (r # rs)) (k, res, db) =
    import_points bind (\<lambda>_. None) dev (map (toDataPointDTO \<circ> scanDataPoint) rs) (Suc (Suc k), ?res, ?db)"
    using Cons.prems by (intro import_point_new) auto
  have "\<exists>k'. import_points bind (\<lambda>_. None) dev (map (toDataPointDTO \<circ> scanDataPoint) rs) (Suc (Suc k), ?res, ?db) =
    (k', ?res\<lparr>DataPointsCreated := DataPointsCreated ?res + int (length rs)\<rparr>,
     ?db\<lparr>datapoints := datapoints ?db @ map (point_copy f dev) rs, dp_seq := dp_seq ?db + int (length rs)\<rparr>)"
    using Cons.prems point_table_grow [of db f r dev] by (intro Cons.IH) auto
  then show ?case unfolding step by (auto simp: algebra_simps)
qed simp

text \<open>Without fresh keys: nothing fails, but every key that was already handed out costs a data point.\<close>

definition points_moved :: "cfgdb \<Rightarrow> importResult \<Rightarrow> int list \<Rightarrow> cfgdb \<Rightarrow> importResult \<Rightarrow> bool" where
  "points_moved db res ks db' res' \<longleftrightarrow> Errors res' = Errors res \<and> point_table db' \<and> dp_seq db \<le> dp_seq db' \<and> dp_seq db' \<le> dp_seq db + int (length ks) \<and>
     (dp_seq db' = dp_seq db + int (length ks) \<longrightarrow> ahead (dp_seq db) ks)"

lemma import_point_known:
  assumes "good_point bind r" "point_table db" "pr_id r \<le> dp_seq db"
  shows "\<exists>db'. import_points bind (\<lambda>_. None) dev (map (toDataPointDTO \<circ> scanDataPoint) (r # rs)) (k, res, db) =
      import_points bind (\<lambda>_. None) dev (map (toDataPointDTO \<circ> scanDataPoint) rs) (Suc (Suc k),
        res\<lparr>DataPointsUpdated := DataPointsUpdated res + 1\<rparr>, db') \<and>
    connections db' = connections db \<and> devices db' = devices db \<and> dp_seq db' = dp_seq db \<and> point_table db'"
proof -
  let ?upd = "update_row pr_id (pr_id r) (\<lambda>x. dp_row_of (pr_scale r) (pr_offset r) (pr_id r) (pr_device_id x)
    ((scanDataPoint r)\<lparr>dp_DeviceID := dev\<rparr>)) (datapoints db)"
  have s: "dp_Scale (scanDataPoint r) = pr_scale r" "dp_Offset (scanDataPoint r) = pr_offset r" by (simp_all add: scanDataPoint_def)
  have b: "bind (pr_scale r) = Some (pr_scale r)" "bind (pr_offset r) = Some (pr_offset r)" "pr_id r \<noteq> 0"
    using assms(1) by (auto simp: good_point_def)
  have i: "pr_id r \<in> pr_id ` set (datapoints db)" using assms by (auto simp: point_table_def good_point_def)
  then obtain x where x: "row_by pr_id (pr_id r) (datapoints db) = Some x" using row_by_None by (metis not_None_eq)
  have n: "filter (\<lambda>x. pr_id x = pr_id r) (datapoints db) \<noteq> []" using i by (simp add: count_key_zero)
  have "Update_datapoint bind None (pr_id r) ((scanDataPoint r)\<lparr>dp_DeviceID := dev\<rparr>) db = (None, db\<lparr>datapoints := ?upd\<rparr>)"
    using n by (simp add: Update_datapoint_def s b good_point_check [OF assms(1)] checkRowsAffected_def Let_def)
  moreover have "pr_id ` set ?upd = pr_id ` set (datapoints db)" by (rule set_keys_update) (simp add: dp_row_of_def)
  ultimately show ?thesis using assms(2) b(3)
    by (intro exI [of _ "db\<lparr>datapoints := ?upd\<rparr>"]) (simp add: dto_keys Get_datapoint_def x point_table_def Let_def)
qed

lemma import_points_outcome:
  assumes "list_all (good_point bind) rs" "dev \<in> dr_id ` set (devices db)" "point_table db"
  shows "\<exists>k' res' db'. import_points bind (\<lambda>_. None) dev (map (toDataPointDTO \<circ> scanDataPoint) rs) (k, res, db) = (k', res', db') \<and>
    points_moved db res (map pr_id rs) db' res' \<and> connections db' = connections db \<and> devices db' = devices db"
  using assms
proof (induction rs arbitrary: k res db)
  case Nil
  then show ?case by (simp add: points_moved_def)
next
  case (Cons r rs)
  show ?case
  proof (cases "dp_seq db < pr_id r")
    case True
    let ?f = "\<lambda>_. dp_seq db + 1"
    let ?db = "db\<lparr>datapoints := datapoints db @ [point_copy ?f dev r], dp_seq := dp_seq db + 1\<rparr>"
    let ?res = "res\<lparr>DataPointsCreated := DataPointsCreated res + 1\<rparr>"
    have step: "import_points bind (\<lambda>_. None) dev (map (toDataPointDTO \<circ> scanDataPoint) (r # rs)) (k, res, db) =
      import_points bind (\<lambda>_. None) dev (map (toDataPointDTO \<circ> scanDataPoint) rs) (Suc (Suc k), ?res, ?db)"
      using Cons.prems True by (intro import_point_new) auto
    have "\<exists>k' res' db'. import_points bind (\<lambda>_. None) dev (map (toDataPointDTO \<circ> scanDataPoint) rs) (Suc (Suc k), ?res, ?db) =
        (k', res', db') \<and> points_moved ?db ?res (map pr_id rs) db' res' \<and> connections db' = connections ?db \<and> devices db' = devices ?db"
      using Cons.prems point_table_grow [of db ?f r dev] by (intro Cons.IH) auto
    then show ?thesis unfolding step using True by (auto simp: points_moved_def algebra_simps)
  next
    case False
    obtain db1 where db1: "import_points bind (\<lambda>_. None) dev (map (toDataPointDTO \<circ> scanDataPoint) (r # rs)) (k, res, db) =
        import_points bind (\<lambda>_. None) dev (map (toDataPointDTO \<circ> scanDataPoint) rs) (Suc (Suc k),
          res\<lparr>DataPointsUpdated := DataPointsUpdated res + 1\<rparr>, db1)"
      "connections db1 = connections db" "devices db1 = devices db" "dp_seq db1 = dp_seq db" "point_table db1"
      using import_point_known [of bind r db dev rs k res] Cons.prems False by auto
    have "\<exists>k' res' db'. import_points bind (\<lambda>_. None) dev (map (toDataPointDTO \<circ> scanDataPoint) rs) (Suc (Suc k),
          res\<lparr>DataPointsUpdated := DataPointsUpdated res + 1\<rparr>, db1) = (k', res', db') \<and>
        points_moved db1 (res\<lparr>DataPointsUpdated := DataPointsUpdated res + 1\<rparr>) (map pr_id rs) db' res' \<and>
        connections db' = connections db1 \<and> devices db' = devices db1"
      using Cons.prems db1(3,5) by (intro Cons.IH) auto
    then show ?thesis unfolding db1(1) using db1(2-4) by (auto simp: points_moved_def)
  qed
qed

lemma points_moved_trans:
  "points_moved db res ks db1 res1 \<Longrightarrow> points_moved db1 res1 ls db2 res2 \<Longrightarrow> points_moved db res (ks @ ls) db2 res2"
  unfolding points_moved_def ahead_append length_append by (auto simp: algebra_simps)

section \<open>Devices with their points\<close>

definition points_of :: "cfgdb \<Rightarrow> dev_row \<Rightarrow> dp_row list" where
  "points_of db r = sort_key pr_id (filter (\<lambda>p. pr_device_id p = dr_id r) (datapoints db))"

definition conn_copy :: "(int \<Rightarrow> int) \<Rightarrow> conn_row \<Rightarrow> conn_row" where
  "conn_copy fc r = r\<lparr>cr_id := fc (cr_id r)\<rparr>"

definition dev_copy :: "(int \<Rightarrow> int) \<Rightarrow> (int \<Rightarrow> int) \<Rightarrow> dev_row \<Rightarrow> dev_row" where
  "dev_copy fc fd r = r\<lparr>dr_id := fd (dr_id r), dr_connection_id := fc (dr_connection_id r)\<rparr>"

definition ready_for :: "(int \<Rightarrow> int) \<Rightarrow> (int \<Rightarrow> int) \<Rightarrow> (int \<Rightarrow> int option) \<Rightarrow> cfgdb \<Rightarrow> dev_row list \<Rightarrow> bool" where
  \<comment> \<open>the devices of the backup can be created in the database\<close>
  "ready_for fc fd idmap db rs \<longleftrightarrow> list_all good_dev rs \<and> dr_id ` set (devices db) = {1..int (length (devices db))} \<and>
     numbers fd (int (length (devices db))) (map dr_id rs) \<and> ahead (int (length (devices db))) (map dr_id rs) \<and>
     (\<forall>r \<in> set rs. idmap (dr_connection_id r) = Some (fc (dr_connection_id r)) \<and>
        fc (dr_connection_id r) \<in> cr_id ` set (connections db))"

lemma import_device_new:
  assumes "ready_for fc fd idmap db (r # rs)"
  shows "import_devices bind (\<lambda>_. None) idmap (map (exported_device sv) (r # rs)) (k, res, db) =
    import_devices bind (\<lambda>_. None) idmap (map (exported_device sv) rs)
      (import_points bind (\<lambda>_. None) (fd (dr_id r)) (map (toDataPointDTO \<circ> scanDataPoint) (points_of (sv_db sv) r))
        (Suc (Suc k), res\<lparr>DevicesCreated := DevicesCreated res + 1\<rparr>, db\<lparr>devices := devices db @ [dev_copy fc fd r]\<rparr>))"
proof -
  have g: "good_dev r" "dr_id r \<noteq> 0" using assms by (auto simp: ready_for_def good_dev_def)
  have i: "idmap (dr_connection_id r) = Some (fc (dr_connection_id r))" using assms by (simp add: ready_for_def)
  have n: "next_rowid (map dr_id (devices db)) = fd (dr_id r)"
    using assms by (simp add: ready_for_def next_rowid_full [of _ "int (length (devices db))"])
  have new: "Get_device None (dr_id r) db = Inl NotFound" using assms by (intro missing_rows) (auto simp: ready_for_def)
  have j: "jd_id (xd_device (exported_device sv r)) = dr_id r" "jd_connection_id (xd_device (exported_device sv r)) = dr_connection_id r"
    "toDevice (xd_device (exported_device sv r)) = scanDevice r"
    by (simp_all add: exported_device_def) (simp_all add: toDeviceDTO_def scanDevice_def Let_def split: prod.split)
  have p: "xd_data_points (exported_device sv r) = map (toDataPointDTO \<circ> scanDataPoint) (points_of (sv_db sv) r)"
    by (simp add: exported_device_def points_of_def)
  have "Create_device None ((scanDevice r)\<lparr>d_ConnectionID := fc (dr_connection_id r)\<rparr>) db =
      (Inr (fd (dr_id r)), db\<lparr>devices := devices db @ [dev_copy fc fd r]\<rparr>)"
    using assms by (simp add: Create_device_def ready_for_def dev_fk_def n copy_dev_row [OF g(1)] last_insert_id_def dev_copy_def Let_def)
  then show ?thesis by (simp add: Let_def j i g(2) new p)
qed

lemma ready_for_next:
  assumes "ready_for fc fd idmap db (r # rs)" "connections db' = connections db" "devices db' = devices db @ [dev_copy fc fd r]"
  shows "ready_for fc fd idmap db' rs"
proof -
  have "insert (int (length (devices db)) + 1) {1..int (length (devices db))} = {1..int (length (devices db)) + 1}" by auto
  then show ?thesis using assms by (simp add: ready_for_def dev_copy_def algebra_simps)
qed

lemma points_of_good: "list_all (good_point bind) (datapoints db) \<Longrightarrow> list_all (good_point bind) (points_of db r)"
  by (auto simp: points_of_def list_all_iff)

lemma import_devices_outcome:
  assumes "ready_for fc fd idmap db rs" "point_table db" "list_all (good_point bind) (datapoints (sv_db sv))"
  shows "\<exists>k' res' db'. import_devices bind (\<lambda>_. None) idmap (map (exported_device sv) rs) (k, res, db) = (k', res', db') \<and>
    points_moved db res (map pr_id (concat (map (points_of (sv_db sv)) rs))) db' res'"
  using assms(1,2)
proof (induction rs arbitrary: k res db)
  case Nil
  then show ?case by (simp add: points_moved_def)
next
  case (Cons r rs)
  let ?db = "db\<lparr>devices := devices db @ [dev_copy fc fd r]\<rparr>" and ?res = "res\<lparr>DevicesCreated := DevicesCreated res + 1\<rparr>"
  have "fd (dr_id r) \<in> dr_id ` set (devices ?db)" "point_table ?db" using Cons.prems(2) by (simp_all add: dev_copy_def point_table_def)
  then obtain k1 res1 db1 where p:
    "import_points bind (\<lambda>_. None) (fd (dr_id r)) (map (toDataPointDTO \<circ> scanDataPoint) (points_of (sv_db sv) r)) (Suc (Suc k), ?res, ?db) =
       (k1, res1, db1)" "points_moved ?db ?res (map pr_id (points_of (sv_db sv) r)) db1 res1"
    "connections db1 = connections ?db" "devices db1 = devices ?db"
    using import_points_outcome [OF points_of_good [OF assms(3)]] by blast
  have "ready_for fc fd idmap db1 rs" using ready_for_next [OF Cons.prems(1)] p(3,4) by simp
  moreover have "point_table db1" using p(2) by (simp add: points_moved_def)
  ultimately obtain k' res' db' where d:
    "import_devices bind (\<lambda>_. None) idmap (map (exported_device sv) rs) (k1, res1, db1) = (k', res', db')"
    "points_moved db1 res1 (map pr_id (concat (map (points_of (sv_db sv)) rs))) db' res'"
    using Cons.IH by blast
  have "points_moved db res (map pr_id (points_of (sv_db sv) r)) db1 res1" using p(2) by (simp add: points_moved_def)
  from points_moved_trans [OF this d(2)] show ?case
    using d(1) p(1) unfolding import_device_new [OF Cons.prems(1)] by simp
qed

lemma import_devices_fresh:
  assumes "ready_for fc fd idmap db rs" "point_table db" "list_all (good_point bind) (datapoints (sv_db sv))"
    and "numbers fp (dp_seq db) (map pr_id (concat (map (points_of (sv_db sv)) rs)))"
    and "ahead (dp_seq db) (map pr_id (concat (map (points_of (sv_db sv)) rs)))"
  shows "\<exists>k' res'. import_devices bind (\<lambda>_. None) idmap (map (exported_device sv) rs) (k, res, db) = (k', res',
      db\<lparr>devices := devices db @ map (dev_copy fc fd) rs,
         datapoints := datapoints db @ map (\<lambda>p. point_copy fp (fd (pr_device_id p)) p) (concat (map (points_of (sv_db sv)) rs)),
         dp_seq := dp_seq db + int (length (concat (map (points_of (sv_db sv)) rs)))\<rparr>)"
  using assms(1,2,4,5)
proof (induction rs arbitrary: k res db)
  case (Cons r rs)
  let ?ps = "points_of (sv_db sv) r"
  let ?db = "db\<lparr>devices := devices db @ [dev_copy fc fd r]\<rparr>" and ?res = "res\<lparr>DevicesCreated := DevicesCreated res + 1\<rparr>"
  let ?db1 = "?db\<lparr>datapoints := datapoints ?db @ map (point_copy fp (fd (dr_id r))) ?ps, dp_seq := dp_seq ?db + int (length ?ps)\<rparr>"
  have pt: "numbers fp (dp_seq db) (map pr_id ?ps)" "ahead (dp_seq db) (map pr_id ?ps)"
    "numbers fp (dp_seq db + int (length ?ps)) (map pr_id (concat (map (points_of (sv_db sv)) rs)))"
    "ahead (dp_seq db + int (length ?ps)) (map pr_id (concat (map (points_of (sv_db sv)) rs)))"
    using Cons.prems(3,4) by (simp_all add: numbers_append ahead_append)
  have c: "map (point_copy fp (fd (dr_id r))) ?ps = map (\<lambda>p. point_copy fp (fd (pr_device_id p)) p) ?ps"
    by (simp add: points_of_def)
  have tab: "fd (dr_id r) \<in> dr_id ` set (devices ?db)" "point_table ?db" using Cons.prems(2) by (simp_all add: dev_copy_def point_table_def)
  obtain k1 res1 where p: "import_points bind (\<lambda>_. None) (fd (dr_id r)) (map (toDataPointDTO \<circ> scanDataPoint) ?ps) (Suc (Suc k), ?res, ?db) =
      (k1, res1, ?db1)"
    using import_points_fresh [OF points_of_good [OF assms(3)] tab, of fp r] pt(1,2) by fastforce
  have "point_table ?db1" using import_points_outcome [OF points_of_good [OF assms(3)] tab, of r "Suc (Suc k)" ?res] p
    by (auto simp: points_moved_def)
  moreover have "ready_for fc fd idmap ?db1 rs" using ready_for_next [OF Cons.prems(1)] by simp
  ultimately obtain k' res' where "import_devices bind (\<lambda>_. None) idmap (map (exported_device sv) rs) (k1, res1, ?db1) = (k', res',
      ?db1\<lparr>devices := devices ?db1 @ map (dev_copy fc fd) rs,
         datapoints := datapoints ?db1 @ map (\<lambda>p. point_copy fp (fd (pr_device_id p)) p) (concat (map (points_of (sv_db sv)) rs)),
         dp_seq := dp_seq ?db1 + int (length (concat (map (points_of (sv_db sv)) rs)))\<rparr>)"
    using Cons.IH [of ?db1 k1 res1] pt(3,4) by auto
  then show ?case unfolding import_device_new [OF Cons.prems(1)] p by (simp add: c algebra_simps)
qed simp

section \<open>A whole backup\<close>

definition point_ids :: "configExportDTO \<Rightarrow> int list" where
  \<comment> \<open>the keys of the data points of a backup, in the order of the import\<close>
  "point_ids payload = map jp_id (concat (map xd_data_points (x_devices payload)))"

definition config_copy :: "(int \<Rightarrow> int) \<Rightarrow> (int \<Rightarrow> int) \<Rightarrow> (int \<Rightarrow> int) \<Rightarrow> cfgdb \<Rightarrow> cfgdb \<Rightarrow> bool" where
  \<comment> \<open>the same records under other keys, with the references following the keys\<close>
  "config_copy fc fd fp db db' \<longleftrightarrow>
     inj_on fc (cr_id ` set (connections db)) \<and> inj_on fd (dr_id ` set (devices db)) \<and> inj_on fp (pr_id ` set (datapoints db)) \<and>
     mset (connections db') = image_mset (conn_copy fc) (mset (connections db)) \<and>
     mset (devices db') = image_mset (dev_copy fc fd) (mset (devices db)) \<and>
     mset (datapoints db') = image_mset (\<lambda>p. point_copy fp (fd (pr_device_id p)) p) (mset (datapoints db))"

lemma mset_grouped:
  assumes "distinct (map key ks)" "\<forall>x \<in> set xs. f x \<in> key ` set ks"
  shows "mset (concat (map (\<lambda>k. sort_key g (filter (\<lambda>x. f x = key k) xs)) ks)) = mset xs"
  using assms
proof (induction ks arbitrary: xs)
  case (Cons k ks)
  let ?xs = "filter (\<lambda>x. f x \<noteq> key k) xs"
  have "filter (\<lambda>x. f x = key l) xs = filter (\<lambda>x. f x = key l) ?xs" if "l \<in> set ks" for l
  proof -
    have "key l \<noteq> key k" using Cons.prems(1) that by (metis distinct.simps(2) image_eqI list.map(2) set_map)
    then show ?thesis by (auto simp: filter_filter intro!: filter_cong)
  qed
  then have "map (\<lambda>l. sort_key g (filter (\<lambda>x. f x = key l) xs)) ks = map (\<lambda>l. sort_key g (filter (\<lambda>x. f x = key l) ?xs)) ks" by simp
  moreover have "mset (concat (map (\<lambda>l. sort_key g (filter (\<lambda>x. f x = key l) ?xs)) ks)) = mset ?xs"
    using Cons.prems by (intro Cons.IH) auto
  ultimately show ?case by (simp only: list.map concat.simps mset_append mset_sort mset_filter) (simp add: multiset_partition [symmetric])
qed simp

lemma mset_points:
  assumes "cfg_inv db"
  shows "mset (concat (map (points_of db) (sort_key dr_id (devices db)))) = mset (datapoints db)"
proof -
  have "distinct (map dr_id (sort_key dr_id (devices db)))"
    using ascending_keys [OF cfg_invD(2) [OF assms]] by (simp add: strict_sorted_iff)
  moreover have "\<forall>x \<in> set (datapoints db). pr_device_id x \<in> dr_id ` set (sort_key dr_id (devices db))"
    using cfg_invD(8) [OF assms] by simp
  ultimately show ?thesis unfolding points_of_def by (rule mset_grouped)
qed

lemma copy_keys:
  assumes "cfg_inv db" "config_copy fc fd fp db db'" "point_table db'"
  shows "dp_seq db' = int (length (datapoints db))"
proof -
  have "pr_id ` set (datapoints db') = fp ` pr_id ` set (datapoints db)"
    using arg_cong [OF assms(2) [unfolded config_copy_def, THEN conjunct2, THEN conjunct2, THEN conjunct2, THEN conjunct2, THEN conjunct2], of set_mset]
    by (auto simp: point_copy_def image_image)
  moreover have "inj_on fp (pr_id ` set (datapoints db))" using assms(2) by (simp add: config_copy_def)
  ultimately have "card {1..dp_seq db'} = card (pr_id ` set (datapoints db))"
    using assms(3) by (metis card_image point_table_def)
  also have "\<dots> = length (datapoints db)" using distinct_card [OF cfg_invD(3) [OF assms(1)]] by simp
  finally show ?thesis using assms(3) by (auto simp: point_table_def)
qed

lemma exported_point_ids:
  assumes "exportConfig (\<lambda>_. None) now c sv = Reply 200 payload"
  shows "point_ids payload = map pr_id (concat (map (points_of (sv_db sv)) (sort_key dr_id (devices (sv_db sv)))))"
proof -
  have "xd_data_points (exported_device sv r) = map (toDataPointDTO \<circ> scanDataPoint) (points_of (sv_db sv) r)" for r
    by (simp add: exported_device_def points_of_def)
  then show ?thesis using export_rows [OF assms] by (simp add: point_ids_def map_concat dto_keys o_def)
qed

lemma copied_tables:
  assumes "checked_cfg bind db" "cs = sort_key cr_id (connections db)" "ds = sort_key dr_id (devices db)"
    and "numbers fc 0 (map cr_id cs)" "numbers fd 0 (map dr_id ds)" "numbers fp 0 (map pr_id (concat (map (points_of db) ds)))"
    and "connections db' = map (conn_copy fc) cs" "devices db' = map (dev_copy fc fd) ds"
    and "datapoints db' = map (\<lambda>p. point_copy fp (fd (pr_device_id p)) p) (concat (map (points_of db) ds))"
  shows "config_copy fc fd fp db db'"
proof -
  have inv: "cfg_inv db" using assms(1) by (simp add: checked_cfg_def)
  note ps = mset_points [OF inv, folded assms(3)]
  have "distinct (map pr_id (concat (map (points_of db) ds)))"
    using cfg_invD(3) [OF inv] ps by (metis mset_map mset_eq_imp_distinct_iff)
  with numbers_inj [OF assms(6)] have "inj_on fp (pr_id ` set (datapoints db))" using ps by (metis set_map set_mset_mset)
  moreover have "inj_on fc (cr_id ` set (connections db))" "inj_on fd (dr_id ` set (devices db))"
    using numbers_inj [OF assms(4)] numbers_inj [OF assms(5)] ascending_keys [OF cfg_invD(1) [OF inv]] ascending_keys [OF cfg_invD(2) [OF inv]]
      assms(2,3) by (simp_all add: strict_sorted_iff)
  ultimately show ?thesis
    using ps assms(2,3) by (simp add: config_copy_def assms(7-9) mset_map del: mset_concat map_concat)
qed

lemma checked_rows:
  assumes "checked_cfg bind db"
  shows "list_all good_conn (sort_key cr_id (connections db))" "ahead 0 (map cr_id (sort_key cr_id (connections db)))"
    "sorted_wrt (<) (map cr_id (sort_key cr_id (connections db)))"
    and "list_all good_dev (sort_key dr_id (devices db))" "ahead 0 (map dr_id (sort_key dr_id (devices db)))"
    "sorted_wrt (<) (map dr_id (sort_key dr_id (devices db)))"
proof -
  have inv: "cfg_inv db" using assms by (simp add: checked_cfg_def)
  show good: "list_all good_conn (sort_key cr_id (connections db))" "list_all good_dev (sort_key dr_id (devices db))"
    using assms by (simp_all add: checked_cfg_def list_all_iff)
  show asc: "sorted_wrt (<) (map cr_id (sort_key cr_id (connections db)))" "sorted_wrt (<) (map dr_id (sort_key dr_id (devices db)))"
    by (rule ascending_keys, rule cfg_invD [OF inv])+
  show "ahead 0 (map cr_id (sort_key cr_id (connections db)))" "ahead 0 (map dr_id (sort_key dr_id (devices db)))"
    using good asc by (auto intro!: ahead_ascending simp: list_all_iff good_conn_def good_dev_def)
qed

lemma import_connections_empty:
  assumes "checked_cfg bind db" "cs = sort_key cr_id (connections db)" "ds = sort_key dr_id (devices db)"
    and "numbers fc 0 (map cr_id cs)" "numbers fd 0 (map dr_id ds)"
    and "db1 = empty_cfg\<lparr>connections := map (conn_copy fc) cs, conn_seq := int (length cs)\<rparr>"
  obtains k im res where
    "import_connections (\<lambda>_. None) (map (toConnectionDTO \<circ> scanConnection) cs) Map.empty (0, no_result, empty_cfg) = (im, k, res, db1)"
    "Errors res = []" "ready_for fc fd im db1 ds" "point_table db1"
proof -
  note rows = checked_rows [OF assms(1), folded assms(2,3)]
  obtain k im res where
    c: "import_connections (\<lambda>_. None) (map (toConnectionDTO \<circ> scanConnection) cs) Map.empty (0, no_result, empty_cfg) = (im, k, res, db1)"
      "Errors res = []" and im: "\<forall>i \<in> cr_id ` set cs. im i = Some (fc i)"
    using import_connections_fresh [OF rows(1), of fc empty_cfg Map.empty 0 no_result] assms(4) rows(2)
    by (fastforce simp: empty_cfg_def no_result_def conn_copy_def assms(6))
  have "cr_id ` set (connections db1) = fc ` cr_id ` set cs" by (simp add: conn_copy_def image_image assms(6))
  moreover have "\<forall>r \<in> set ds. dr_connection_id r \<in> cr_id ` set cs" using assms(1-3) by (simp add: checked_cfg_def cfg_inv_def)
  ultimately have "\<forall>r \<in> set ds. im (dr_connection_id r) = Some (fc (dr_connection_id r)) \<and> fc (dr_connection_id r) \<in> cr_id ` set (connections db1)"
    using im by (metis image_eqI)
  then have "ready_for fc fd im db1 ds" "point_table db1"
    using rows(4,5) assms(5) by (simp_all add: ready_for_def point_table_def assms(6)) (simp_all add: empty_cfg_def)
  with c that show ?thesis by blast
qed

text \<open>C34: moving a configuration to a fresh gateway. The import of a backup on a gateway with an empty database is accepted and reports
  no error. It restores the complete configuration - every connection, device and data point under a new key, with all references following -
  exactly if each data point of the backup has a key larger than the number of data points before it. Otherwise
  data points are overwritten without an error.\<close>

theorem import_onto_fresh:
  assumes "exact_bind bind" "(api_step bind)\<^sup>*\<^sup>* start_server sv" "exportConfig (\<lambda>_. None) now c sv = Reply 200 payload"
    and "sv_db sv0 = empty_cfg"
  shows "\<exists>res sv'. importConfig bind (\<lambda>_. None) env (Inr payload) sv0 = (Imported res, sv') \<and> Errors res = [] \<and>
    ((\<exists>fc fd fp. config_copy fc fd fp (sv_db sv) (sv_db sv')) \<longleftrightarrow> (\<forall>i<length (point_ids payload). int i < point_ids payload ! i))"
proof -
  let ?db = "sv_db sv"
  define cs ds where rows: "cs = sort_key cr_id (connections ?db)" "ds = sort_key dr_id (devices ?db)"
  define ks where "ks = map pr_id (concat (map (points_of ?db) ds))"
  have ck: "checked_cfg bind ?db" using api_reachable_inv [OF assms(2,1)] by (simp add: server_inv_def)
  then have inv: "cfg_inv ?db" and good: "list_all (good_point bind) (datapoints ?db)" by (simp_all add: checked_cfg_def)
  have "distinct ks" using cfg_invD(3) [OF inv] mset_points [OF inv] unfolding ks_def rows by (metis mset_map mset_eq_imp_distinct_iff)
  with checked_rows(3,6) [OF ck, folded rows] obtain fc fd fp where f: "numbers fc 0 (map cr_id cs)" "numbers fd 0 (map dr_id ds)" "numbers fp 0 ks"
    using numbers_exist by (metis strict_sorted_iff)
  let ?db1 = "empty_cfg\<lparr>connections := map (conn_copy fc) cs, conn_seq := int (length cs)\<rparr>"
  obtain k im res1 where
    c: "import_connections (\<lambda>_. None) (map (toConnectionDTO \<circ> scanConnection) cs) Map.empty (0, no_result, empty_cfg) = (im, k, res1, ?db1)"
      "Errors res1 = []" and ready: "ready_for fc fd im ?db1 ds" "point_table ?db1"
    using import_connections_empty [OF ck rows f(1,2) refl] by blast
  obtain k' res' db' where d: "import_devices bind (\<lambda>_. None) im (map (exported_device sv) ds) (k, res1, ?db1) = (k', res', db')"
    "points_moved ?db1 res1 ks db' res'"
    using import_devices_outcome [OF ready good] unfolding ks_def by blast
  have run: "importConfig bind (\<lambda>_. None) env (Inr payload) sv0 = (Imported res', reload env (sv0\<lparr>sv_db := db'\<rparr>))"
    using export_rows [OF assms(3)] export_passes [OF ck] c(1) d(1) assms(4)
    by (simp add: importConfig_def rows [symmetric] del: import_connections.simps import_devices.simps)
  have "config_copy fc fd fp ?db db'" if "ahead 0 ks"
  proof -
    have "datapoints db' = map (\<lambda>p. point_copy fp (fd (pr_device_id p)) p) (concat (map (points_of ?db) ds))"
      "devices db' = map (dev_copy fc fd) ds" "connections db' = map (conn_copy fc) cs"
      using import_devices_fresh [OF ready good, of fp k res1] f(3) that d(1) by (auto simp: ks_def empty_cfg_def)
    then show ?thesis by (intro copied_tables [OF ck rows f(1,2) f(3) [unfolded ks_def]])
  qed
  moreover have "ahead 0 ks" if "config_copy fc fd fp ?db db'" for fc fd fp
  proof -
    have "length ks = length (datapoints ?db)" using arg_cong [OF mset_points [OF inv], of size] by (simp add: ks_def rows)
    moreover have "dp_seq db' = int (length (datapoints ?db))" using copy_keys [OF inv that] d(2) by (simp add: points_moved_def)
    ultimately show ?thesis using d(2) by (simp add: points_moved_def empty_cfg_def)
  qed
  ultimately have "(\<exists>fc fd fp. config_copy fc fd fp ?db db') \<longleftrightarrow> ahead 0 ks" by blast
  moreover have "point_ids payload = ks" using exported_point_ids [OF assms(3)] by (simp add: ks_def rows)
  moreover have "Errors res' = []" using d(2) c(2) by (simp add: points_moved_def)
  ultimately show ?thesis using run by (simp add: ahead_nth)
qed

theorem import_onto_fresh_witness:
  "\<exists>payload res sv' fc fd fp. exportConfig (\<lambda>_. None) 0 sample_config sample_server = Reply 200 payload \<and>
    importConfig sqlite_bind (\<lambda>_. None) plain_api (Inr payload) start_server = (Imported res, sv') \<and>
    config_copy fc fd fp sample_cfg_db (sv_db sv')"
proof -
  obtain payload where p: "exportConfig (\<lambda>_. None) 0 sample_config sample_server = Reply 200 payload"
    by (simp add: exportConfig_def List_connections_def List_devices_def export_devices_rows)
  have "point_ids payload = [1]"
    using exported_point_ids [OF p] by (simp add: sample_server_db sample_cfg_rows points_of_def dp_row_of_def dev_row_of_def)
  moreover have "sv_db start_server = empty_cfg" by (simp add: start_server_def)
  ultimately show ?thesis
    using import_onto_fresh [OF sqlite.exact sample_server_reachable p, of start_server plain_api] p by (simp add: sample_server_db) blast
qed

end
