(* ===== verification/Netconfig.thy ===== *)
theory Netconfig
  imports Settings Server
begin

text \<open>
  Host network configuration: the nmcli controller \<open>src/gateway/internal/netconfig/netconfig.go\<close>, the confirm-or-revert service
  \<open>service.go\<close> and the handlers \<open>src/gateway/internal/api/network.go\<close>.

  \<open>run\<close> is the nmcli command: its arguments and the state of the host to its output, its error and the new state. The
  service is a step relation: a request is one step, and an expired timer is two, the controller call and the critical section
  after it, between which requests can arrive.
\<close>

section \<open>Controller\<close>

record net_info =
  ni_Interface :: string
  ni_Method :: string
  ni_Address :: string
  ni_Prefix :: int
  ni_Gateway :: string
  ni_DNS :: "string list"

record static_config =
  st_Interface :: string
  st_Address :: string
  st_Prefix :: int
  st_Gateway :: string
  st_DNS :: "string list"

datatype net_error = Unsupported | NetMsg string

definition validate_static :: "static_config \<Rightarrow> net_error option" where
  "validate_static c =
     (if st_Interface c = [] then Some (NetMsg ''interface is required'')
      else if st_Address c = [] then Some (NetMsg ''address is required'')
      else if st_Gateway c = [] then Some (NetMsg ''gateway is required'')
      else if st_Prefix c \<le> 0 \<or> 32 < st_Prefix c then Some (NetMsg ''prefix must be between 1 and 32'')
      else None)"

type_synonym 'h nmcli = "string list \<Rightarrow> 'h \<Rightarrow> (string \<times> string option) \<times> 'h"

definition newline :: char where "newline = CHR 0x0A"

fun Split :: "char \<Rightarrow> string \<Rightarrow> string list" where
  \<comment> \<open>\<open>strings.Split\<close> at a single character\<close>
  "Split c [] = [[]]"
| "Split c (x # xs) = (if x = c then [] # Split c xs else (case Split c xs of y # ys \<Rightarrow> (x # y) # ys | [] \<Rightarrow> [[x]]))"

definition Cut :: "char \<Rightarrow> string \<Rightarrow> string \<times> string \<times> bool" where
  "Cut c s = (if c \<in> set s then (takeWhile (\<lambda>x. x \<noteq> c) s, tl (dropWhile (\<lambda>x. x \<noteq> c) s), True) else (s, [], False))"

fun find_primary :: "string list \<Rightarrow> string option" where
  "find_primary [] = None"
| "find_primary (line # lines) =
     (case Split CHR '':'' line of
        dev # devType # state # _ \<Rightarrow>
          if state = ''connected'' \<and> (devType = ''ethernet'' \<or> devType = ''wifi'') then Some dev else find_primary lines
      | _ \<Rightarrow> find_primary lines)"

definition primaryInterface :: "'h nmcli \<Rightarrow> 'h \<Rightarrow> (net_error + string) \<times> 'h" where
  "primaryInterface run h = (case run [''-t'', ''-f'', ''DEVICE,TYPE,STATE'', ''device'', ''status''] h of
       ((out, Some e), h') \<Rightarrow> (Inl (NetMsg (''nmcli device status: '' @ e)), h')
     | ((out, None), h') \<Rightarrow>
         (case find_primary (Split newline out) of
            Some dev \<Rightarrow> (Inr dev, h')
          | None \<Rightarrow> (Inl (NetMsg ''no connected ethernet/wifi interface found''), h')))"

fun find_profile :: "string \<Rightarrow> string list \<Rightarrow> net_error + string" where
  "find_profile iface [] = Inl (NetMsg (''could not determine connection profile for interface '' @ iface))"
| "find_profile iface (line # lines) =
     (case Cut CHR '':'' line of
        (key, val, ok) \<Rightarrow>
          if \<not> ok \<or> key \<noteq> ''GENERAL.CONNECTION'' then find_profile iface lines
          else (let val = TrimSpace val
                in if val = [] \<or> val = ''--'' then Inl (NetMsg (''interface '' @ iface @ '' has no active connection profile''))
                   else Inr val))"

definition connectionForInterface :: "'h nmcli \<Rightarrow> string \<Rightarrow> 'h \<Rightarrow> (net_error + string) \<times> 'h" where
  "connectionForInterface run iface h = (case run [''-t'', ''-f'', ''GENERAL.CONNECTION'', ''device'', ''show'', iface] h of
       ((out, Some e), h') \<Rightarrow> (Inl (NetMsg (''nmcli device show '' @ iface @ '': '' @ e)), h')
     | ((out, None), h') \<Rightarrow> (find_profile iface (Split newline out), h'))"

definition read_line :: "net_info \<times> string \<Rightarrow> string \<Rightarrow> net_info \<times> string" where
  \<comment> \<open>one line of \<open>nmcli device show\<close>, into the info and the profile name\<close>
  "read_line = (\<lambda>(info, conn) line. case Cut CHR '':'' line of
       (key, val, ok) \<Rightarrow>
         if \<not> ok then (info, conn)
         else if key = ''GENERAL.CONNECTION'' then (info, val)
         else if key = ''IP4.ADDRESS[1]'' then
           (case Cut CHR ''/'' val of (addr, prefixStr, _) \<Rightarrow>
              (info\<lparr>ni_Address := addr, ni_Prefix := (case ParseInt prefixStr of None \<Rightarrow> 0 | Some n \<Rightarrow> n)\<rparr>, conn))
         else if key = ''IP4.GATEWAY'' then (info\<lparr>ni_Gateway := val\<rparr>, conn)
         else if HasPrefix key ''IP4.DNS['' then
           (if val \<noteq> [] then (info\<lparr>ni_DNS := ni_DNS info @ [val]\<rparr>, conn) else (info, conn))
         else (info, conn))"

definition read_method :: "string list \<Rightarrow> string \<Rightarrow> string" where
  "read_method lines m = foldl (\<lambda>m line. case Cut CHR '':'' line of
       (key, val, ok) \<Rightarrow> if ok \<and> key = ''ipv4.method'' then TrimSpace val else m) m lines"

definition Current :: "bool \<Rightarrow> 'h nmcli \<Rightarrow> 'h \<Rightarrow> (net_error + net_info) \<times> 'h" where
  "Current available run h =
     (if \<not> available then (Inl Unsupported, h)
      else (case primaryInterface run h of
              (Inl e, h1) \<Rightarrow> (Inl e, h1)
            | (Inr iface, h1) \<Rightarrow>
                (case run [''-t'', ''-f'', ''GENERAL.CONNECTION,IP4.ADDRESS,IP4.GATEWAY,IP4.DNS'', ''device'', ''show'', iface] h1 of
                   ((out, Some e), h2) \<Rightarrow> (Inl (NetMsg (''nmcli device show '' @ iface @ '': '' @ e)), h2)
                 | ((out, None), h2) \<Rightarrow>
                     (let (info, conn) = foldl read_line
                        (\<lparr>ni_Interface = iface, ni_Method = [], ni_Address = [], ni_Prefix = 0, ni_Gateway = [], ni_DNS = []\<rparr>, [])
                        (Split newline out)
                      in if conn \<noteq> [] \<and> conn \<noteq> ''--'' then
                           (case run [''-t'', ''-f'', ''ipv4.method'', ''connection'', ''show'', conn] h2 of
                              ((methodOut, None), h3) \<Rightarrow>
                                (Inr (info\<lparr>ni_Method := read_method (Split newline methodOut) (ni_Method info)\<rparr>), h3)
                            | ((methodOut, Some _), h3) \<Rightarrow> (Inr info, h3))
                         else (Inr info, h2)))))"

fun join :: "string \<Rightarrow> string list \<Rightarrow> string" where
  "join sep [] = []"
| "join sep [s] = s"
| "join sep (s # t # ts) = s @ sep @ join sep (t # ts)"

definition static_args :: "static_config \<Rightarrow> string \<Rightarrow> string list" where
  "static_args c conn = [''con'', ''mod'', conn, ''ipv4.addresses'', st_Address c @ ''/'' @ show_int (st_Prefix c),
     ''ipv4.gateway'', st_Gateway c, ''ipv4.method'', ''manual''] @
     (if 0 < length (st_DNS c) then [''ipv4.dns'', join '','' (st_DNS c)] else [])"

definition ApplyStatic :: "bool \<Rightarrow> 'h nmcli \<Rightarrow> static_config \<Rightarrow> 'h \<Rightarrow> net_error option \<times> 'h" where
  "ApplyStatic available run c h =
     (if \<not> available then (Some Unsupported, h)
      else case validate_static c of Some e \<Rightarrow> (Some e, h) | None \<Rightarrow>
        (case connectionForInterface run (st_Interface c) h of
           (Inl e, h1) \<Rightarrow> (Some e, h1)
         | (Inr conn, h1) \<Rightarrow>
             (case run (static_args c conn) h1 of
                ((_, Some e), h2) \<Rightarrow> (Some (NetMsg (''nmcli con mod: '' @ e)), h2)
              | ((_, None), h2) \<Rightarrow>
                  (case run [''con'', ''up'', conn] h2 of
                     ((_, Some e), h3) \<Rightarrow> (Some (NetMsg (''nmcli con up: '' @ e)), h3)
                   | ((_, None), h3) \<Rightarrow> (None, h3)))))"

definition ApplyDHCP :: "bool \<Rightarrow> 'h nmcli \<Rightarrow> string \<Rightarrow> 'h \<Rightarrow> net_error option \<times> 'h" where
  "ApplyDHCP available run iface h =
     (if \<not> available then (Some Unsupported, h)
      else if iface = [] then (Some (NetMsg ''interface is required''), h)
      else (case connectionForInterface run iface h of
              (Inl e, h1) \<Rightarrow> (Some e, h1)
            | (Inr conn, h1) \<Rightarrow>
                (case run [''con'', ''mod'', conn, ''ipv4.method'', ''auto''] h1 of
                   ((_, Some e), h2) \<Rightarrow> (Some (NetMsg (''nmcli con mod (dhcp): '' @ e)), h2)
                 | ((_, None), h2) \<Rightarrow>
                     (case run [''con'', ''up'', conn] h2 of
                        ((_, Some e), h3) \<Rightarrow> (Some (NetMsg (''nmcli con up: '' @ e)), h3)
                      | ((_, None), h3) \<Rightarrow> (None, h3)))))"

section \<open>Service\<close>

record 'h controller =
  ct_Current :: "'h \<Rightarrow> (net_error + net_info) \<times> 'h"
  ct_ApplyStatic :: "static_config \<Rightarrow> 'h \<Rightarrow> net_error option \<times> 'h"
  ct_ApplyDHCP :: "string \<Rightarrow> 'h \<Rightarrow> net_error option \<times> 'h"

definition nmcliController :: "bool \<Rightarrow> 'h nmcli \<Rightarrow> 'h controller" where
  "nmcliController available run = \<lparr>ct_Current = Current available run, ct_ApplyStatic = ApplyStatic available run,
     ct_ApplyDHCP = ApplyDHCP available run\<rparr>"

text \<open>\<open>y_armed\<close> are the timers that have neither fired nor been stopped, with the configuration they restore; \<open>y_closing\<close>
  counts the reverts between their controller call and their critical section.\<close>

record 'h net_sys =
  y_host :: 'h
  y_previous :: "net_info option"
  y_timer :: "nat option"
  y_next :: nat
  y_armed :: "(nat \<times> net_info) list"
  y_closing :: nat

definition stop_timer :: "nat option \<Rightarrow> (nat \<times> net_info) list \<Rightarrow> (nat \<times> net_info) list" where
  "stop_timer t armed = (case t of None \<Rightarrow> armed | Some i \<Rightarrow> filter (\<lambda>p. fst p \<noteq> i) armed)"

definition wrap_current :: "net_error \<Rightarrow> net_error" where
  \<comment> \<open>\<open>errors.Is\<close> still finds \<open>ErrUnsupported\<close> in the wrapped error\<close>
  "wrap_current e = (case e of Unsupported \<Rightarrow> Unsupported | NetMsg m \<Rightarrow> NetMsg (''read current network config: '' @ m))"

definition applyAndArm ::
  "'h controller \<Rightarrow> ('h \<Rightarrow> net_error option \<times> 'h) \<Rightarrow> 'h net_sys \<Rightarrow> net_error option \<times> 'h net_sys" where
  "applyAndArm ct act y = (case ct_Current ct (y_host y) of
       (Inl e, h) \<Rightarrow> (Some (wrap_current e), y\<lparr>y_host := h\<rparr>)
     | (Inr prev, h) \<Rightarrow>
         (case act h of
            (Some e, h') \<Rightarrow> (Some e, y\<lparr>y_host := h'\<rparr>)
          | (None, h') \<Rightarrow> (None, y\<lparr>y_host := h', y_armed := (y_next y, prev) # stop_timer (y_timer y) (y_armed y),
              y_previous := Some prev, y_timer := Some (y_next y), y_next := Suc (y_next y)\<rparr>)))"

definition Apply :: "'h controller \<Rightarrow> static_config \<Rightarrow> 'h net_sys \<Rightarrow> net_error option \<times> 'h net_sys" where
  "Apply ct c y = applyAndArm ct (ct_ApplyStatic ct c) y"

definition Service_ApplyDHCP :: "'h controller \<Rightarrow> string \<Rightarrow> 'h net_sys \<Rightarrow> net_error option \<times> 'h net_sys" where
  "Service_ApplyDHCP ct iface y = applyAndArm ct (ct_ApplyDHCP ct iface) y"

definition as_static :: "net_info \<Rightarrow> static_config" where
  "as_static i = \<lparr>st_Interface = ni_Interface i, st_Address = ni_Address i, st_Prefix = ni_Prefix i, st_Gateway = ni_Gateway i,
     st_DNS = ni_DNS i\<rparr>"

definition revert_call :: "'h controller \<Rightarrow> net_info \<Rightarrow> 'h \<Rightarrow> net_error option \<times> 'h" where
  \<comment> \<open>\<open>revert\<close> up to its critical section; the error is only logged\<close>
  "revert_call ct prev h = (if ni_Method prev = ''manual'' then ct_ApplyStatic ct (as_static prev) h
     else ct_ApplyDHCP ct (ni_Interface prev) h)"

definition fire :: "'h controller \<Rightarrow> nat \<Rightarrow> net_info \<Rightarrow> 'h net_sys \<Rightarrow> 'h net_sys" where
  "fire ct t prev y = y\<lparr>y_host := snd (revert_call ct prev (y_host y)), y_armed := filter (\<lambda>p. fst p \<noteq> t) (y_armed y),
     y_closing := Suc (y_closing y)\<rparr>"

definition finish_revert :: "'h net_sys \<Rightarrow> 'h net_sys" where
  "finish_revert y = y\<lparr>y_previous := None, y_timer := None, y_closing := y_closing y - 1\<rparr>"

definition Confirm :: "'h net_sys \<Rightarrow> net_error option \<times> 'h net_sys" where
  "Confirm y = (if y_timer y = None then (Some (NetMsg ''no pending network change to confirm''), y)
     else (None, y\<lparr>y_armed := stop_timer (y_timer y) (y_armed y), y_timer := None, y_previous := None\<rparr>))"

definition Pending :: "'h net_sys \<Rightarrow> bool" where
  "Pending y \<longleftrightarrow> y_timer y \<noteq> None"

definition NewService :: "'h \<Rightarrow> 'h net_sys" where
  "NewService h = \<lparr>y_host = h, y_previous = None, y_timer = None, y_next = 0, y_armed = [], y_closing = 0\<rparr>"

inductive net_step :: "'h controller \<Rightarrow> 'h net_sys \<Rightarrow> 'h net_sys \<Rightarrow> bool" for ct where
  net_apply: "net_step ct y (snd (Apply ct c y))"
| net_dhcp: "net_step ct y (snd (Service_ApplyDHCP ct iface y))"
| net_confirm: "net_step ct y (snd (Confirm y))"
| net_fire: "(t, prev) \<in> set (y_armed y) \<Longrightarrow> net_step ct y (fire ct t prev y)"
| net_finish: "0 < y_closing y \<Longrightarrow> net_step ct y (finish_revert y)"

section \<open>Handlers\<close>

definition networkConfirmWindow :: duration where "networkConfirmWindow = 45 * second"

datatype network_reply =
    NetworkUnavailable \<comment> \<open>200 with \<open>supported: false\<close>\<close>
  | NetworkStatus net_info bool
  | NetworkError int net_error
  | BadRequest string
  | Applied int
  | Confirmed

definition getNetworkStatus :: "'h controller \<Rightarrow> 'h net_sys option \<Rightarrow> network_reply \<times> 'h net_sys option" where
  "getNetworkStatus ct svc = (case svc of
       None \<Rightarrow> (NetworkUnavailable, None)
     | Some y \<Rightarrow>
         (case ct_Current ct (y_host y) of
            (Inl e, h) \<Rightarrow> (if e = Unsupported then NetworkUnavailable else NetworkError 500 e, Some (y\<lparr>y_host := h\<rparr>))
          | (Inr info, h) \<Rightarrow> (NetworkStatus info (Pending y), Some (y\<lparr>y_host := h\<rparr>))))"

definition apply_reply :: "net_error option \<Rightarrow> network_reply" where
  "apply_reply r = (case r of
       Some e \<Rightarrow> if e = Unsupported then NetworkError 503 e else NetworkError 400 e
     | None \<Rightarrow> Applied (networkConfirmWindow div second))"

definition applyNetwork :: "'h controller \<Rightarrow> string + static_config \<Rightarrow> 'h net_sys option \<Rightarrow> network_reply \<times> 'h net_sys option" where
  "applyNetwork ct body svc = (case svc of
       None \<Rightarrow> (NetworkError 503 Unsupported, None)
     | Some y \<Rightarrow>
         (case body of
            Inl m \<Rightarrow> (BadRequest m, Some y)
          | Inr c \<Rightarrow> (case Apply ct c y of (r, y') \<Rightarrow> (apply_reply r, Some y'))))"

definition applyNetworkDHCP :: "'h controller \<Rightarrow> string + string \<Rightarrow> 'h net_sys option \<Rightarrow> network_reply \<times> 'h net_sys option" where
  "applyNetworkDHCP ct body svc = (case svc of
       None \<Rightarrow> (NetworkError 503 Unsupported, None)
     | Some y \<Rightarrow>
         (case body of
            Inl m \<Rightarrow> (BadRequest m, Some y)
          | Inr iface \<Rightarrow> (case Service_ApplyDHCP ct iface y of (r, y') \<Rightarrow> (apply_reply r, Some y'))))"

definition confirmNetwork :: "'h net_sys option \<Rightarrow> network_reply \<times> 'h net_sys option" where
  "confirmNetwork svc = (case svc of
       None \<Rightarrow> (NetworkError 503 Unsupported, None)
     | Some y \<Rightarrow> (case Confirm y of (Some e, y') \<Rightarrow> (NetworkError 400 e, Some y') | (None, y') \<Rightarrow> (Confirmed, Some y')))"

section \<open>Orderly use\<close>

text \<open>If no change is applied while a revert is between its two steps, the armed timer is always the registered one.\<close>

inductive orderly_step :: "'h controller \<Rightarrow> 'h net_sys \<Rightarrow> 'h net_sys \<Rightarrow> bool" for ct where
  ord_apply: "y_closing y = 0 \<Longrightarrow> orderly_step ct y (snd (Apply ct c y))"
| ord_dhcp: "y_closing y = 0 \<Longrightarrow> orderly_step ct y (snd (Service_ApplyDHCP ct iface y))"
| ord_confirm: "orderly_step ct y (snd (Confirm y))"
| ord_fire: "(t, prev) \<in> set (y_armed y) \<Longrightarrow> orderly_step ct y (fire ct t prev y)"
| ord_finish: "0 < y_closing y \<Longrightarrow> orderly_step ct y (finish_revert y)"

lemma orderly_is_net_step: "orderly_step ct y y' \<Longrightarrow> net_step ct y y'"
  by (induction rule: orderly_step.induct) (auto intro: net_step.intros)

definition net_inv :: "'h net_sys \<Rightarrow> bool" where
  "net_inv y \<longleftrightarrow> y_closing y \<le> 1 \<and>
     (if y_closing y = 0
      then y_armed y = (case (y_timer y, y_previous y) of (Some t, Some prev) \<Rightarrow> [(t, prev)] | _ \<Rightarrow> []) \<and>
           (y_timer y = None \<longleftrightarrow> y_previous y = None)
      else y_armed y = [])"

lemma net_inv_apply:
  assumes "net_inv y" "y_closing y = 0"
  shows "net_inv (snd (applyAndArm ct act y))"
  using assms
  by (cases "y_timer y"; cases "y_previous y")
    (auto simp: net_inv_def applyAndArm_def stop_timer_def split: sum.split option.split prod.split)

lemma net_inv_step: "orderly_step ct y y' \<Longrightarrow> net_inv y \<Longrightarrow> net_inv y'"
proof (induction rule: orderly_step.induct)
  case (ord_confirm y)
  then show ?case
    by (cases "y_timer y"; cases "y_previous y") (auto simp: net_inv_def Confirm_def stop_timer_def split: if_splits)
next
  case (ord_fire t prev y)
  then show ?case
    by (cases "y_timer y"; cases "y_previous y") (auto simp: net_inv_def fire_def split: if_splits)
next
  case (ord_finish y)
  then show ?case by (auto simp: net_inv_def finish_revert_def split: if_splits)
qed (simp_all add: Apply_def Service_ApplyDHCP_def net_inv_apply)

lemma net_inv_reachable: "(orderly_step ct)\<^sup>*\<^sup>* (NewService h) y \<Longrightarrow> net_inv y"
proof (induction rule: rtranclp_induct)
  case base
  show ?case by (simp add: net_inv_def NewService_def)
qed (rule net_inv_step)

text \<open>The steps other than a new change.\<close>

inductive idle_step :: "'h controller \<Rightarrow> 'h net_sys \<Rightarrow> 'h net_sys \<Rightarrow> bool" for ct where
  idle_confirm: "idle_step ct y (snd (Confirm y))"
| idle_fire: "(t, prev) \<in> set (y_armed y) \<Longrightarrow> idle_step ct y (fire ct t prev y)"
| idle_finish: "0 < y_closing y \<Longrightarrow> idle_step ct y (finish_revert y)"

lemma idle_unarmed:
  assumes "(idle_step ct)\<^sup>*\<^sup>* y y'" "y_armed y = []"
  shows "y_armed y' = [] \<and> y_host y' = y_host y"
  using assms(1)
proof (induction rule: rtranclp_induct)
  case (step y' y'')
  from step.hyps(2) step.IH show ?case
    by cases (auto simp: Confirm_def stop_timer_def finish_revert_def split: option.splits)
qed (simp add: assms(2))

section \<open>Properties of the service\<close>


definition plain_controller :: "net_info controller" where
  \<comment> \<open>a host that is its configuration\<close>
  "plain_controller = \<lparr>ct_Current = (\<lambda>h. (Inr h, h)),
     ct_ApplyStatic = (\<lambda>c h. (None, h\<lparr>ni_Method := ''manual'', ni_Address := st_Address c, ni_Prefix := st_Prefix c,
        ni_Gateway := st_Gateway c, ni_DNS := st_DNS c\<rparr>)),
     ct_ApplyDHCP = (\<lambda>iface h. (None, h\<lparr>ni_Method := ''auto''\<rparr>))\<rparr>"

definition sample_net :: net_info where
  "sample_net = \<lparr>ni_Interface = ''eth0'', ni_Method = ''manual'', ni_Address = ''10.0.0.2'', ni_Prefix = 24, ni_Gateway = ''10.0.0.1'', ni_DNS = []\<rparr>"

definition typo_net :: static_config where
  "typo_net = (as_static sample_net)\<lparr>st_Address := ''11.0.0.2''\<rparr>"


text \<open>The guarantee needs that order. If a second change is applied while a revert is still finishing, the end of the revert forgets
  the second change's timer without stopping it: the change is no longer pending, confirming it is refused, and it
  is undone when its timer fires.\<close>

theorem late_revert_forgets_timer:
  assumes "0 < y_closing y" "ct_Current ct (y_host y) = (Inr prev, h)" "applyAndArm ct act y = (None, y1)"
  shows "let y2 = finish_revert y1
    in \<not> Pending y2 \<and> Confirm y2 = (Some (NetMsg ''no pending network change to confirm''), y2) \<and>
       (y_next y, prev) \<in> set (y_armed y2) \<and>
       y_host (fire ct (y_next y) prev y2) = snd (revert_call ct prev (y_host y1))"
  using assms
  by (auto simp: applyAndArm_def finish_revert_def Pending_def Confirm_def fire_def Let_def split: prod.splits option.splits)

theorem late_revert_forgets_timer_witness:
  "\<exists>y y1. (net_step plain_controller)\<^sup>*\<^sup>* (NewService sample_net) y \<and> Apply plain_controller typo_net y = (None, y1) \<and>
    fst (Confirm (finish_revert y1)) \<noteq> None \<and> y_armed (finish_revert y1) \<noteq> []"
proof -
  let ?y = "fire plain_controller 0 sample_net (snd (Apply plain_controller typo_net (NewService sample_net)))"
  have armed: "(0, sample_net) \<in> set (y_armed (snd (Apply plain_controller typo_net (NewService sample_net))))"
    by (simp add: Apply_def applyAndArm_def plain_controller_def NewService_def)
  have r: "(net_step plain_controller)\<^sup>*\<^sup>* (NewService sample_net) ?y"
    by (meson armed net_apply net_fire rtranclp.rtrancl_into_rtrancl rtranclp.rtrancl_refl)
  have c: "0 < y_closing ?y" by (simp add: fire_def)
  obtain prev h where cur: "ct_Current plain_controller (y_host ?y) = (Inr prev, h)" by (simp add: plain_controller_def)
  obtain y1 where a: "applyAndArm plain_controller (ct_ApplyStatic plain_controller typo_net) ?y = (None, y1)"
    by (simp add: applyAndArm_def plain_controller_def)
  have "Confirm (finish_revert y1) = (Some (NetMsg ''no pending network change to confirm''), finish_revert y1) \<and>
      y_armed (finish_revert y1) \<noteq> []"
    using late_revert_forgets_timer [OF c cur a] by (auto simp: Let_def)
  with r a show ?thesis by (auto simp: Apply_def)
qed

text \<open>A change that fails half-way is not undone. When nmcli has rewritten the profile and then cannot activate it, the request
  reports an error, the host keeps the rewritten profile, and no timer is armed for it.\<close>

lemma failed_apply_not_reverted:
  assumes "validate_static c = None" "Current True run (y_host y) = (Inr prev, h0)"
    and "connectionForInterface run (st_Interface c) h0 = (Inr conn, h1)"
    and "run (static_args c conn) h1 = ((out, None), h2)" "run [''con'', ''up'', conn] h2 = ((out', Some e), h3)"
  shows "Apply (nmcliController True run) c y = (Some (NetMsg (''nmcli con up: '' @ e)), y\<lparr>y_host := h3\<rparr>)"
  using assms by (simp add: Apply_def applyAndArm_def nmcliController_def ApplyStatic_def)

end
