(* ===== verification/TimeSync.thy ===== *)
theory TimeSync
  imports GoFloat "HOL-Library.Signed_Division"
begin

text \<open>
  The time service \<open>src/gateway/internal/time\<close>: the SNTP exchange (\<open>ntp.go\<close>), and the service that keeps the time quality
  (\<open>service.go\<close>). The RTC and the UDP exchange are arguments: what reading or writing the clock gave, and the reply datagram with the
  local instants around it. Durations are \<open>int64\<close> nanoseconds.
\<close>

section \<open>SNTP\<close>

definition ntpEpoch :: gotime where "ntpEpoch = - 2208988800 * second" \<comment> \<open>1900-01-01\<close>

definition maxDuration :: duration where "maxDuration = 2 ^ 63 - 1"
definition minDuration :: duration where "minDuration = - (2 ^ 63)"

definition Sub :: "gotime \<Rightarrow> gotime \<Rightarrow> duration" where
  \<comment> \<open>\<open>time.Time.Sub\<close> saturates\<close>
  "Sub t u = max minDuration (min maxDuration (t - u))"

definition be32 :: "byte list \<Rightarrow> int" where
  "be32 b = foldl (\<lambda>v x. 256 * v + uint x) 0 b"

definition ntpTimestampToTime :: "byte list \<Rightarrow> gotime" where
  "ntpTimestampToTime b =
     (let secs = be32 (take 4 b); frac = be32 (take 4 (drop 4 b));
          d = wrap64 (wrap64 (secs * second) + (frac * second) mod 2 ^ 64 div 2 ^ 32)
      in ntpEpoch + d)"

datatype ntp_error = NtpDial string | NtpDeadline string | NtpSend string | NtpRead string | ShortResponse nat | NtpMode nat | KissOfDeath

text \<open>The socket calls in order, up to the first that fails; then the reply.\<close>

datatype ntp_exchange = ExFail ntp_error | ExReply gotime "byte list" gotime \<comment> \<open>send time, the bytes read, receive time\<close>

unbundle bit_operations_syntax

definition queryNTP :: "ntp_exchange \<Rightarrow> ntp_error + duration" where
  "queryNTP ex = (case ex of
       ExFail e \<Rightarrow> Inl e
     | ExReply t1 resp t4 \<Rightarrow>
         if length resp < 48 then Inl (ShortResponse (length resp))
         else if resp ! 0 AND 7 \<noteq> 4 then Inl (NtpMode (unat (resp ! 0 AND 7)))
         else if resp ! 1 = 0 then Inl KissOfDeath
         else (let t2 = ntpTimestampToTime (take 8 (drop 32 resp));
                   t3 = ntpTimestampToTime (take 8 (drop 40 resp))
               in Inr (wrap64 (Sub t2 t1 + Sub t3 t4) sdiv 2)))"

section \<open>Service\<close>

datatype time_quality = QualitySynced | QualityRTC | QualityUnsynced | QualityInvalid

record time_cfg =
  t_NTPServer :: string
  t_SyncInterval :: duration
  t_QueryTimeout :: duration
  t_RTCDevice :: string

record time_status =
  ts_SystemTime :: gotime
  ts_Timezone :: string
  ts_NTPServer :: string
  ts_NTPSynced :: bool
  ts_LastSync :: "gotime option"
  ts_ClockOffset :: "duration option"
  ts_RTCAvailable :: bool
  ts_RTCTime :: "gotime option"
  ts_TimeQuality :: time_quality

record time_service =
  sv_cfg :: time_cfg
  sv_timezone :: string
  sv_tstatus :: time_status

definition New_time :: "time_cfg \<Rightarrow> string \<Rightarrow> time_service" where
  "New_time cfg tz =
     (let cfg = (if t_SyncInterval cfg \<le> 0 then cfg\<lparr>t_SyncInterval := 300 * second\<rparr> else cfg);
          cfg = (if t_QueryTimeout cfg \<le> 0 then cfg\<lparr>t_QueryTimeout := 3 * second\<rparr> else cfg);
          cfg = (if t_RTCDevice cfg = [] then cfg\<lparr>t_RTCDevice := ''/dev/rtc0''\<rparr> else cfg)
      in \<lparr>sv_cfg = cfg, sv_timezone = tz,
          sv_tstatus = \<lparr>ts_SystemTime = zero_time, ts_Timezone = [], ts_NTPServer = t_NTPServer cfg, ts_NTPSynced = False, ts_LastSync = None,
            ts_ClockOffset = None, ts_RTCAvailable = False, ts_RTCTime = None, ts_TimeQuality = QualityUnsynced\<rparr>\<rparr>)"

definition Status_time :: "gotime \<Rightarrow> time_service \<Rightarrow> time_status" where
  "Status_time now s = (sv_tstatus s)\<lparr>ts_SystemTime := now, ts_Timezone := sv_timezone s\<rparr>"

definition isPlausible :: "gotime \<Rightarrow> bool" where
  \<comment> \<open>the years 2020 to 2100 of the local clock\<close>
  "isPlausible t \<longleftrightarrow> 1577836800 * second \<le> t \<and> t < 4133980800 * second"

definition checkRTC :: "gotime option \<Rightarrow> time_service \<Rightarrow> time_service" where
  "checkRTC rtc s = (case rtc of
       None \<Rightarrow> s\<lparr>sv_tstatus := (sv_tstatus s)\<lparr>ts_RTCAvailable := False, ts_RTCTime := None\<rparr>\<rparr>
     | Some t \<Rightarrow> s\<lparr>sv_tstatus := (sv_tstatus s)\<lparr>ts_RTCAvailable := True, ts_RTCTime := Some t\<rparr>\<rparr>)"

definition degrade :: "gotime \<Rightarrow> time_service \<Rightarrow> time_service" where
  "degrade local s =
     (let st = (sv_tstatus s)\<lparr>ts_NTPSynced := False\<rparr>
      in s\<lparr>sv_tstatus := st\<lparr>ts_TimeQuality :=
           (if ts_RTCAvailable st then QualityRTC else if isPlausible local then QualityUnsynced else QualityInvalid)\<rparr>\<rparr>)"

text \<open>One attempt: what the RTC shows, the exchange, the clock afterwards, and the local wall clock. The second result is the
  time written to the RTC.\<close>

definition syncOnce :: "gotime option \<Rightarrow> ntp_exchange \<Rightarrow> gotime \<Rightarrow> gotime \<Rightarrow> time_service \<Rightarrow> time_service \<times> gotime option" where
  "syncOnce rtc ex now local s =
     (let s = checkRTC rtc s
      in if t_NTPServer (sv_cfg s) = [] then (degrade local s, None)
         else (case queryNTP ex of
                 Inl e \<Rightarrow> (degrade local s, None)
               | Inr offset \<Rightarrow>
                   (s\<lparr>sv_tstatus := (sv_tstatus s)\<lparr>ts_NTPSynced := True, ts_LastSync := Some now, ts_ClockOffset := Some offset,
                      ts_TimeQuality := QualitySynced\<rparr>\<rparr>, Some (now + offset))))"

fun Run_time :: "(gotime option \<times> ntp_exchange \<times> gotime \<times> gotime) list \<Rightarrow> time_service \<Rightarrow> time_service" where
  \<comment> \<open>one attempt at once and one per tick, until the context ends\<close>
  "Run_time [] s = s"
| "Run_time ((rtc, ex, now, local) # as) s = Run_time as (fst (syncOnce rtc ex now local s))"

section \<open>The wire format of the server\<close>

text \<open>What an RFC 4330 server puts into its reply: seconds since 1900 modulo \<open>2 ^ 32\<close>, then the binary fraction.\<close>

definition encode32 :: "int \<Rightarrow> byte list" where
  "encode32 x = [word_of_int (x div 2 ^ 24), word_of_int (x div 2 ^ 16), word_of_int (x div 2 ^ 8), word_of_int x]"

definition ntp_timestamp :: "gotime \<Rightarrow> byte list" where
  "ntp_timestamp t = encode32 ((t - ntpEpoch) div second) @ encode32 ((t - ntpEpoch) mod second * 2 ^ 32 div second)"

definition era_end :: gotime where
  \<comment> \<open>2036-02-07T06:28:16Z\<close>
  "era_end = ntpEpoch + 2 ^ 32 * second"

lemma length_encode32 [simp]: "length (encode32 x) = 4"
  by (simp add: encode32_def)

lemma length_ntp_timestamp [simp]: "length (ntp_timestamp t) = 8"
  by (simp add: ntp_timestamp_def)

lemma byte_step:
  fixes x :: int
  assumes "0 \<le> n" "0 \<le> k"
  shows "256 * (x div (k * 256) mod n) + x div k mod 256 = x div k mod (256 * n)"
  using zmod_zmult2_eq [OF assms(1), of "x div k" 256] zdiv_zmult2_eq [of 256 x k] by simp

lemma byte_split:
  fixes x :: int
  shows "256 * (256 * (256 * (x div 16777216 mod 256) + x div 65536 mod 256) + x div 256 mod 256) + x mod 256 = x mod 4294967296"
proof -
  have 1: "256 * (x div 16777216 mod 256) + x div 65536 mod 256 = x div 65536 mod 65536"
    using byte_step [of 256 65536 x] by simp
  have 2: "256 * (x div 65536 mod 65536) + x div 256 mod 256 = x div 256 mod 16777216"
    using byte_step [of 65536 256 x] by simp
  have 3: "256 * (x div 256 mod 16777216) + x mod 256 = x mod 4294967296"
    using byte_step [of 16777216 1 x] by simp
  show ?thesis by (simp only: 1 2 3)
qed

lemma be32_encode32 [simp]: "be32 (encode32 x) = x mod 2 ^ 32"
proof -
  have "be32 (encode32 x) = 256 * (256 * (256 * (x div 16777216 mod 256) + x div 65536 mod 256) + x div 256 mod 256) + x mod 256"
    by (simp add: be32_def encode32_def uint_word_of_int)
  then show ?thesis by (simp only: byte_split) simp
qed

text \<open>A fraction of a second comes back short by at most a nanosecond.\<close>

lemma div_bounds:
  fixes x k :: int
  assumes "0 < k"
  shows "k * (x div k) \<le> x" "x < k * (x div k) + k"
  using assms mult_div_mod_eq [of k x] pos_mod_bound [of k x] pos_mod_sign [of k x] by linarith+

lemma fraction_loss:
  fixes r :: int
  assumes "0 \<le> r" "r < 1000000000"
  defines "p \<equiv> r * 4294967296 div 1000000000"
  shows "r - 1 \<le> p * 1000000000 div 4294967296" "p * 1000000000 div 4294967296 \<le> r" "0 \<le> p" "p < 4294967296"
proof -
  note p = div_bounds [of 1000000000 "r * 4294967296", folded p_def]
  note q = div_bounds [of 4294967296 "p * 1000000000"]
  show "r - 1 \<le> p * 1000000000 div 4294967296" "p * 1000000000 div 4294967296 \<le> r" "0 \<le> p" "p < 4294967296"
    using p q assms(1,2) by linarith+
qed

lemma ntp_decode:
  fixes t :: gotime
  defines "u \<equiv> ntpEpoch + (t - ntpEpoch) mod (4294967296 * second)"
  shows "u - 1 \<le> ntpTimestampToTime (ntp_timestamp t)" "ntpTimestampToTime (ntp_timestamp t) \<le> u"
proof -
  define d where "d = t - ntpEpoch"
  define s where "s = d div second mod 4294967296"
  define r where "r = d mod second"
  define p where "p = r * 4294967296 div 1000000000"
  have r: "0 \<le> r" "r < 1000000000" by (simp_all add: r_def second_def)
  note f = fraction_loss [OF r, folded p_def]
  have s: "0 \<le> s" "s < 4294967296" by (simp_all add: s_def)
  have u: "u = ntpEpoch + (s * second + r)"
    using zmod_zmult2_eq [of 4294967296 d second] by (simp add: u_def s_def r_def d_def second_def mult.commute)
  have "p = d mod second * 2 ^ 32 div second"
    by (simp only: p_def r_def second_def) simp
  with f have frac: "be32 (encode32 (d mod second * 4294967296 div second)) = p"
    by (simp only: be32_encode32 mod_pos_pos_trivial power_numeral_even) simp
  have secs: "be32 (encode32 (d div second)) = s"
    by (simp add: s_def)
  have "ntpTimestampToTime (ntp_timestamp t)
      = ntpEpoch + wrap64 (wrap64 (s * second) + p * second mod 2 ^ 64 div 2 ^ 32)"
    unfolding ntpTimestampToTime_def ntp_timestamp_def Let_def d_def [symmetric]
    by (simp add: secs frac del: be32_encode32)
  also have "p * second mod 2 ^ 64 = p * 1000000000"
    using f by (simp add: second_def)
  also have "wrap64 (s * second) = s * 1000000000"
    using s by (simp add: second_def wrap64_id)
  also have "wrap64 (s * 1000000000 + p * 1000000000 div 2 ^ 32) = s * 1000000000 + p * 1000000000 div 4294967296"
    using s r f by (simp add: wrap64_id)
  finally show "u - 1 \<le> ntpTimestampToTime (ntp_timestamp t)" "ntpTimestampToTime (ntp_timestamp t) \<le> u"
    using f by (simp_all add: u second_def)
qed

lemma in_era:
  assumes "ntpEpoch \<le> t" "t < era_end"
  shows "t - 1 \<le> ntpTimestampToTime (ntp_timestamp t)" "ntpTimestampToTime (ntp_timestamp t) \<le> t"
proof -
  have "(t - ntpEpoch) mod (4294967296 * second) = t - ntpEpoch"
    using assms by (intro mod_pos_pos_trivial) (simp_all add: era_end_def)
  then show "t - 1 \<le> ntpTimestampToTime (ntp_timestamp t)" "ntpTimestampToTime (ntp_timestamp t) \<le> t"
    using ntp_decode [of t] by simp_all
qed

section \<open>Properties\<close>

lemma Sub_exact: "\<bar>t - u\<bar> < 4611686018427387904 \<Longrightarrow> Sub t u = t - u"
  by (auto simp: Sub_def minDuration_def maxDuration_def)

lemma sdiv_two: "\<bar>2 * (x sdiv 2) - x\<bar> \<le> (1 :: int)"
proof -
  have "\<bar>x\<bar> = 2 * (\<bar>x\<bar> div 2) + \<bar>x\<bar> mod 2" by simp
  then show ?thesis by (simp add: signed_divide_int_def sgn_if) linarith
qed

text \<open>C36: the clock offset is accurate. Let the server's clock be ahead of the local one by \<open>ofs\<close>, let the request be on its way for
  \<open>up\<close> and the reply for \<open>down\<close> nanoseconds, and let the server stamp its reply in the NTP format with its own clock. Whenever all
  clocks show a time of the current NTP era, the query succeeds and twice the error of its result is at most the difference of the two
  delays plus three nanoseconds of rounding: no time arithmetic saturates or overflows.\<close>

theorem ntp_offset_accurate:
  assumes "48 \<le> length resp" "resp ! 0 AND 7 = 4" "resp ! 1 \<noteq> 0"
    and t2: "take 8 (drop 32 resp) = ntp_timestamp (t1 + up + ofs)"
    and t3: "take 8 (drop 40 resp) = ntp_timestamp (t4 - down + ofs)"
    and range: "ntpEpoch \<le> t1" "t1 < era_end" "ntpEpoch \<le> t4" "t4 < era_end"
      "ntpEpoch \<le> t1 + up + ofs" "t1 + up + ofs < era_end" "ntpEpoch \<le> t4 - down + ofs" "t4 - down + ofs < era_end"
  shows "\<exists>offset. queryNTP (ExReply t1 resp t4) = Inr offset \<and> 2 * \<bar>offset - ofs\<bar> \<le> \<bar>up - down\<bar> + 3"
proof -
  define x where "x = ntpTimestampToTime (ntp_timestamp (t1 + up + ofs))"
  define y where "y = ntpTimestampToTime (ntp_timestamp (t4 - down + ofs))"
  have x: "t1 + up + ofs - 1 \<le> x" "x \<le> t1 + up + ofs" and y: "t4 - down + ofs - 1 \<le> y" "y \<le> t4 - down + ofs"
    using in_era [of "t1 + up + ofs"] in_era [of "t4 - down + ofs"] range by (simp_all add: x_def y_def)
  have small: "Sub x t1 = x - t1" "Sub y t4 = y - t4"
    using x y range by (auto intro!: Sub_exact simp: era_end_def ntpEpoch_def second_def)
  have "wrap64 (Sub x t1 + Sub y t4) = x - t1 + (y - t4)"
    unfolding small using x y range by (intro wrap64_id) (auto simp: era_end_def ntpEpoch_def second_def)
  then have "queryNTP (ExReply t1 resp t4) = Inr ((x - t1 + (y - t4)) sdiv 2)"
    using assms(1-3) by (simp add: queryNTP_def t2 t3 x_def y_def)
  moreover have "2 * \<bar>(x - t1 + (y - t4)) sdiv 2 - ofs\<bar> \<le> \<bar>up - down\<bar> + 3"
    using sdiv_two [of "x - t1 + (y - t4)"] x y by arith
  ultimately show ?thesis by blast
qed

definition sample_reply :: "byte list" where
  "sample_reply = [0x1C, 2] @ replicate 30 0 @ ntp_timestamp (1700000000 * second + 20 + 500)
     @ ntp_timestamp (1700000000 * second + 90 - 40 + 500)"

theorem ntp_offset_accurate_witness:
  "\<exists>offset. queryNTP (ExReply (1700000000 * second) sample_reply (1700000000 * second + 90)) = Inr offset \<and>
     2 * \<bar>offset - 500\<bar> \<le> 23"
  using ntp_offset_accurate [of sample_reply "1700000000 * second" 20 500 "1700000000 * second + 90" 40]
  by (simp add: sample_reply_def era_end_def ntpEpoch_def second_def nth_append)

text \<open>A time of the next era, which starts in February 2036, is read as one of the current era, 136 years earlier.\<close>

lemma ntp_rollover:
  assumes "era_end \<le> t" "t < era_end + 4294967296 * second"
  shows "ntpTimestampToTime (ntp_timestamp t) \<le> t - 4294967296 * second"
proof -
  define m where "m = 4294967296 * second"
  have "0 \<le> t - ntpEpoch - m" "t - ntpEpoch - m < m" using assms by (simp_all add: era_end_def m_def)
  then have "(t - ntpEpoch - m) mod m = t - ntpEpoch - m" by (rule mod_pos_pos_trivial)
  then have "(t - ntpEpoch) mod m = t - ntpEpoch - m" by (simp only: minus_mod_self2)
  then show ?thesis using ntp_decode(2) [of t] by (simp add: m_def)
qed

text \<open>The source of time of a status, and the last attempt that got an answer.\<close>

definition answer :: "time_service \<Rightarrow> ntp_exchange \<Rightarrow> duration option" where
  "answer s ex = (if t_NTPServer (sv_cfg s) = [] then None else case queryNTP ex of Inl _ \<Rightarrow> None | Inr offset \<Rightarrow> Some offset)"

lemma syncOnce_keeps: "sv_cfg (fst (syncOnce rtc ex now local s)) = sv_cfg s"
  by (simp add: syncOnce_def checkRTC_def degrade_def Let_def split: option.split sum.split)

lemma syncOnce_quality:
  "ts_TimeQuality (sv_tstatus (fst (syncOnce rtc ex now local s))) =
     (if answer s ex \<noteq> None then QualitySynced else if rtc \<noteq> None then QualityRTC
      else if isPlausible local then QualityUnsynced else QualityInvalid)"
  by (simp add: answer_def syncOnce_def checkRTC_def degrade_def Let_def split: option.split sum.split)

lemma syncOnce_history:
  "ts_LastSync (sv_tstatus (fst (syncOnce rtc ex now local s))) =
     (if answer s ex = None then ts_LastSync (sv_tstatus s) else Some now)"
  "ts_ClockOffset (sv_tstatus (fst (syncOnce rtc ex now local s))) =
     (if answer s ex = None then ts_ClockOffset (sv_tstatus s) else answer s ex)"
  by (simp_all add: answer_def syncOnce_def checkRTC_def degrade_def Let_def split: option.split sum.split)

lemma Run_time_append: "Run_time (as @ bs) s = Run_time bs (Run_time as s)"
  by (induction as s rule: Run_time.induct) auto

lemma Run_time_keeps: "sv_cfg (Run_time as s) = sv_cfg s"
  by (induction as s rule: Run_time.induct) (simp_all add: syncOnce_keeps)

lemma answer_Run_time: "answer (Run_time as s) ex = answer s ex"
  by (simp add: answer_def Run_time_keeps)

definition good_attempts :: "time_service \<Rightarrow> (gotime option \<times> ntp_exchange \<times> gotime \<times> gotime) list \<Rightarrow> (gotime \<times> duration) list" where
  "good_attempts s as = concat (map (\<lambda>(rtc, ex, now, local). case answer s ex of None \<Rightarrow> [] | Some offset \<Rightarrow> [(now, offset)]) as)"

lemma good_attempts_snoc:
  "good_attempts s (as @ [(rtc, ex, now, local)]) =
     good_attempts s as @ (case answer s ex of None \<Rightarrow> [] | Some offset \<Rightarrow> [(now, offset)])"
  by (simp add: good_attempts_def)

lemma Run_time_snoc: "Run_time (as @ [(rtc, ex, now, local)]) s = fst (syncOnce rtc ex now local (Run_time as s))"
  by (simp add: Run_time_append)

lemma Run_time_history:
  "(ts_LastSync (sv_tstatus (Run_time as s)), ts_ClockOffset (sv_tstatus (Run_time as s))) =
     (if good_attempts s as = [] then (ts_LastSync (sv_tstatus s), ts_ClockOffset (sv_tstatus s))
      else (Some (fst (last (good_attempts s as))), Some (snd (last (good_attempts s as)))))"
proof (induction as rule: rev_induct)
  case Nil
  show ?case by (simp add: good_attempts_def)
next
  case (snoc a as)
  obtain rtc ex now local where a: "a = (rtc, ex, now, local)" by (cases a)
  show ?case
    using snoc
    by (cases "answer s ex") (simp_all add: a Run_time_snoc good_attempts_snoc syncOnce_history answer_Run_time)
qed

text \<open>After any series of attempts, the time quality tells the source of time in the order NTP, RTC, system clock: SYNCED exactly
  if the last attempt got a valid answer, otherwise RTC if its clock could be read, otherwise UNSYNCED for a plausible system clock
  and INVALID for any other. The reported last synchronisation and offset are those of the last successful attempt,
  however many failed since.\<close>

theorem Run_time_status:
  "let st = sv_tstatus (Run_time (as @ [(rtc, ex, now, local)]) s); good = good_attempts s (as @ [(rtc, ex, now, local)])
   in ts_TimeQuality st =
        (if answer s ex \<noteq> None then QualitySynced else if rtc \<noteq> None then QualityRTC
         else if isPlausible local then QualityUnsynced else QualityInvalid) \<and>
      (ts_LastSync st, ts_ClockOffset st) =
        (if good = [] then (ts_LastSync (sv_tstatus s), ts_ClockOffset (sv_tstatus s))
         else (Some (fst (last good)), Some (snd (last good))))"
  by (simp add: Let_def Run_time_history del: prod.inject)
    (simp add: Run_time_snoc syncOnce_quality answer_Run_time)

end
