(* ===== verification/Logs.thy ===== *)
theory Logs
  imports Modbus Server
begin

text \<open>
  The log page: the ring buffer of \<open>src/gateway/internal/logger/ringbuffer.go\<close>, the logger built on it (\<open>logger.go\<close>) and the
  handler \<open>getLogs\<close> (\<open>src/gateway/internal/api/logs.go\<close>). The values of attributes are of any type. The handler of
  \<open>log/slog\<close> that writes to stdout only matters by the level it is enabled for and by the error it returns, an argument of \<open>Handle\<close>.
\<close>

section \<open>Ring buffer\<close>

record 'v log_entry =
  l_Time :: gotime
  l_Level :: string
  l_Message :: string
  l_Attrs :: "string \<Rightarrow> 'v option"

record 'v ringStorage =
  rs_entries :: "'v log_entry list"
  rs_capacity :: int

definition slice_from :: "int \<Rightarrow> 'a list \<Rightarrow> 'a list option" where
  \<comment> \<open>\<open>xs[i:]\<close>; \<open>None\<close> is the run-time panic\<close>
  "slice_from i xs = (if 0 \<le> i \<and> i \<le> int (length xs) then Some (drop (nat i) xs) else None)"

definition add_entry :: "'v log_entry \<Rightarrow> 'v ringStorage \<Rightarrow> 'v ringStorage option" where
  "add_entry e s =
     (let es = rs_entries s @ [e]
      in if rs_capacity s < int (length es)
         then map_option (\<lambda>xs. s\<lparr>rs_entries := xs\<rparr>) (slice_from (int (length es) - rs_capacity s) es)
         else Some (s\<lparr>rs_entries := es\<rparr>))"

definition log_snapshot :: "'v ringStorage \<Rightarrow> 'v log_entry list" where
  "log_snapshot s = rs_entries s"

text \<open>\<open>rb_next\<close> is the least level the stdout handler is enabled for. Handlers derived by \<open>WithAttrs\<close> and \<open>WithGroup\<close> share the
  storage and the level, so one value stands for the family.\<close>

record 'v ring_buffer =
  rb_next :: int
  rb_storage :: "'v ringStorage"

definition NewRingBufferHandler :: "int \<Rightarrow> int \<Rightarrow> 'v ring_buffer" where
  "NewRingBufferHandler next capacity = \<lparr>rb_next = next, rb_storage = \<lparr>rs_entries = [], rs_capacity = capacity\<rparr>\<rparr>"

definition Enabled :: "'v ring_buffer \<Rightarrow> int \<Rightarrow> bool" where
  "Enabled h level \<longleftrightarrow> rb_next h \<le> level"

text \<open>A record of \<open>log/slog\<close>, and the text of its level.\<close>

record 'v log_record =
  r_Time :: gotime
  r_Level :: int
  r_Message :: string
  r_Attrs :: "(string \<times> 'v) list"

definition plus_num :: "int \<Rightarrow> string" where
  \<comment> \<open>the verb \<open>%+d\<close>\<close>
  "plus_num i = (if 0 \<le> i then CHR ''+'' # show_int i else show_int i)"

definition level_string :: "int \<Rightarrow> string" where
  "level_string l =
     (let str = (\<lambda>b v. if v = 0 then b else b @ plus_num v)
      in if l < 0 then str ''DEBUG'' (l + 4)
         else if l < 4 then str ''INFO'' l
         else if l < 8 then str ''WARN'' (l - 4)
         else str ''ERROR'' (l - 8))"

definition collect_attrs :: "(string \<times> 'v) list \<Rightarrow> string \<Rightarrow> 'v option" where
  "collect_attrs kvs = foldl (\<lambda>m (k, v). m(k \<mapsto> v)) Map.empty kvs"

definition to_log_entry :: "'v log_record \<Rightarrow> 'v log_entry" where
  "to_log_entry r = \<lparr>l_Time = r_Time r, l_Level = level_string (r_Level r), l_Message = r_Message r, l_Attrs = collect_attrs (r_Attrs r)\<rparr>"

definition Handle :: "string option \<Rightarrow> 'v log_record \<Rightarrow> 'v ring_buffer \<Rightarrow> (string option \<times> 'v ring_buffer) option" where
  "Handle next_err r h = map_option (\<lambda>st. (next_err, h\<lparr>rb_storage := st\<rparr>)) (add_entry (to_log_entry r) (rb_storage h))"

definition Entries :: "'v ring_buffer \<Rightarrow> 'v log_entry list" where
  "Entries h = log_snapshot (rb_storage h)"

section \<open>Logger\<close>

definition parse_level :: "string \<Rightarrow> int" where
  "parse_level level =
     (let l = to_lower level
      in if l = ''debug'' then - 4 else if l = ''warn'' then 4 else if l = ''error'' then 8 else 0)"

definition NewWithRingBuffer :: "string \<Rightarrow> int \<Rightarrow> 'v ring_buffer" where
  \<comment> \<open>the format, text or JSON, only concerns stdout\<close>
  "NewWithRingBuffer level capacity =
     (let lvl = parse_level level; capacity = (if capacity \<le> 0 then 1 else capacity)
      in NewRingBufferHandler lvl capacity)"

text \<open>A call of the logger: \<open>slog\<close> asks \<open>Enabled\<close> and then calls \<open>Handle\<close>, whose error it drops.\<close>

definition log_call :: "'v ring_buffer \<Rightarrow> string option \<times> 'v log_record \<Rightarrow> 'v ring_buffer option" where
  "log_call h er = (if Enabled h (r_Level (snd er)) then map_option snd (Handle (fst er) (snd er) h) else Some h)"

fun log_calls :: "'v ring_buffer \<Rightarrow> (string option \<times> 'v log_record) list \<Rightarrow> 'v ring_buffer option" where
  "log_calls h [] = Some h"
| "log_calls h (er # ers) = (case log_call h er of None \<Rightarrow> None | Some h' \<Rightarrow> log_calls h' ers)"

section \<open>GET /api/logs\<close>

definition getLogs :: "string \<Rightarrow> 'v ring_buffer option \<Rightarrow> 'v log_entry list option" where
  \<comment> \<open>\<open>None\<close> is a panic of the handler\<close>
  "getLogs limit_param logBuf = (case logBuf of
       None \<Rightarrow> Some []
     | Some h \<Rightarrow>
         (let entries = Entries h;
              limit = (if limit_param = [] then 200
                       else case ParseInt limit_param of Some n \<Rightarrow> if 0 < n then n else 200 | None \<Rightarrow> 200)
          in if limit < int (length entries) then slice_from (int (length entries) - limit) entries else Some entries))"

section \<open>The last records\<close>

definition recent_of :: "nat \<Rightarrow> 'a list \<Rightarrow> 'a list" where
  "recent_of n xs = drop (length xs - n) xs"

lemma length_recent [simp]: "length (recent_of n xs) = min n (length xs)"
  by (auto simp: recent_of_def)

lemma recent_recent: "recent_of m (recent_of n xs) = recent_of (min m n) xs"
  by (auto simp: recent_of_def min_def intro!: arg_cong [of _ _ "\<lambda>k. drop k xs"])

lemma recent_snoc: "0 < n \<Longrightarrow> recent_of n (recent_of n xs @ [x]) = recent_of n (xs @ [x])"
  by (cases "n \<le> length xs") (auto simp: recent_of_def Suc_diff_le)

lemma slice_recent:
  assumes "0 \<le> n"
  shows "(if n < int (length xs) then slice_from (int (length xs) - n) xs else Some xs) = Some (recent_of (nat n) xs)"
proof -
  have "nat (int (length xs) - n) = length xs - nat n" using assms by simp
  then show ?thesis using assms by (simp add: slice_from_def recent_of_def)
qed

definition buffer_of :: "int \<Rightarrow> nat \<Rightarrow> 'v log_entry list \<Rightarrow> 'v ring_buffer" where
  "buffer_of lvl n es = \<lparr>rb_next = lvl, rb_storage = \<lparr>rs_entries = recent_of n es, rs_capacity = int n\<rparr>\<rparr>"

lemma add_entry_recent:
  "0 < n \<Longrightarrow> add_entry e \<lparr>rs_entries = recent_of n es, rs_capacity = int n\<rparr> =
     Some \<lparr>rs_entries = recent_of n (es @ [e]), rs_capacity = int n\<rparr>"
  using slice_recent [of "int n" "recent_of n es @ [e]"] recent_snoc [of n es e]
  by (auto simp: add_entry_def Let_def split: if_splits)

lemma log_call_buffer:
  "0 < n \<Longrightarrow> log_call (buffer_of lvl n es) (err, r) =
     Some (buffer_of lvl n (es @ (if lvl \<le> r_Level r then [to_log_entry r] else [])))"
  by (simp add: log_call_def Enabled_def Handle_def buffer_of_def add_entry_recent)

lemma log_calls_buffer:
  assumes "0 < n"
  shows "log_calls (buffer_of lvl n es) ers =
    Some (buffer_of lvl n (es @ map to_log_entry (filter (\<lambda>r. lvl \<le> r_Level r) (map snd ers))))"
proof (induction ers arbitrary: es)
  case (Cons er ers)
  obtain err r where "er = (err, r)" by (cases er)
  with Cons show ?case by (simp add: log_call_buffer [OF assms])
qed simp

lemma new_buffer: "NewWithRingBuffer level capacity = buffer_of (parse_level level) (nat (max 1 capacity)) []"
  by (auto simp: NewWithRingBuffer_def NewRingBufferHandler_def buffer_of_def recent_of_def Let_def)

section \<open>Properties\<close>

definition page_limit :: "string \<Rightarrow> nat" where
  "page_limit p = (case ParseInt p of Some n \<Rightarrow> if 0 < n then nat n else 200 | None \<Rightarrow> 200)"

text \<open>C38: the log page shows the end of the log. After any calls of the logger, whatever its capacity, level and errors of the stdout
  handler, nothing has panicked and the page is the longest suffix of the records at or above the configured level that fits both the
  buffer, which holds at least one record, and the limit asked for (200 if there is none or it is no positive number).\<close>

theorem logs_page_recent:
  "\<exists>h. log_calls (NewWithRingBuffer level capacity) ers = Some h \<and>
     getLogs p (Some h) = Some (recent_of (min (page_limit p) (nat (max 1 capacity)))
       (map to_log_entry (filter (\<lambda>r. parse_level level \<le> r_Level r) (map snd ers))))"
proof -
  define es where "es = map to_log_entry (filter (\<lambda>r. parse_level level \<le> r_Level r) (map snd ers))"
  define n where "n = nat (max 1 capacity)"
  have "log_calls (NewWithRingBuffer level capacity) ers = Some (buffer_of (parse_level level) n es)"
    using log_calls_buffer [of n "parse_level level" "[]" ers] by (simp add: new_buffer n_def es_def)
  moreover have "getLogs p (Some (buffer_of (parse_level level) n es)) = Some (recent_of (page_limit p) (recent_of n es))"
  proof -
    have "ParseInt [] = None" by (simp add: ParseInt_def)
    then have "(if p = [] then 200 else case ParseInt p of Some n \<Rightarrow> if 0 < n then n else 200 | None \<Rightarrow> 200) = int (page_limit p)"
      by (simp add: page_limit_def split: option.split)
    then show ?thesis
      using slice_recent [of "int (page_limit p)" "recent_of n es"]
      by (simp add: getLogs_def Entries_def log_snapshot_def buffer_of_def Let_def)
  qed
  ultimately show ?thesis by (simp add: recent_recent n_def es_def)
qed

text \<open>A capacity of zero or less does not disable the buffer, which then keeps the last record.\<close>

lemma capacity_zero_keeps_last:
  "parse_level level \<le> r_Level r \<Longrightarrow>
   \<exists>h. log_calls (NewWithRingBuffer level 0) [(err, r)] = Some h \<and> Entries h = [to_log_entry r]"
  using log_calls_buffer [of 1 "parse_level level" "[]" "[(err, r)]"]
  by (simp add: new_buffer Entries_def log_snapshot_def buffer_of_def recent_of_def)

end
