(* ===== verification/Startup.thy ===== *)
theory Startup
  imports Settings Adapters "HOL-Library.List_Lexorder" "HOL-Library.Char_ord"
begin

text \<open>
  What the gateway does before its loops run: \<open>Open\<close> and \<open>migrate\<close> of \<open>src/gateway/internal/storage/storage.go\<close>, and the choice of
  the transport in \<open>src/gateway/cmd/gateway/adapter.go\<close>.

  SQLite is a parameter: \<open>q_exec\<close> is what executing a migration script does to the tables, given whether foreign keys are enforced,
  \<open>q_violated\<close> is whether \<open>PRAGMA foreign_key_check\<close> lists a row. A script runs in a transaction, so a failed one leaves the tables as
  they were. Every other statement can fail with a message of the driver.
\<close>

section \<open>Migrations\<close>

record 'd sqlite_rules =
  q_exec :: "string \<Rightarrow> bool \<Rightarrow> 'd \<Rightarrow> string + 'd"
  q_violated :: "'d \<Rightarrow> bool"

record 'd schema_db =
  m_tables :: 'd
  m_versions :: "string list"
  m_foreign_keys :: bool

text \<open>The error texts of the driver and the file system, at each statement.\<close>

record migrate_faults =
  f_count :: "string option"
  f_read :: "string option"
  f_off :: "string option"
  f_begin :: "string option"
  f_record :: "string option"
  f_commit :: "string option"
  f_on :: "string option"
  f_check :: "string option"

datatype migrate_error =
    CreateSchema string | ReadDir string
  | CheckMigration string string | ReadMigration string string | DisableForeignKeys string string | BeginTx string string
  | ApplyMigration string string | RecordMigration string string | CommitMigration string string
  | EnableForeignKeys string string | CheckForeignKeys string string | Violation string

definition apply_migration ::
  "'d sqlite_rules \<Rightarrow> migrate_faults \<Rightarrow> string \<Rightarrow> string \<Rightarrow> 'd schema_db \<Rightarrow> migrate_error option \<times> 'd schema_db" where
  \<comment> \<open>the loop body from the pragma on\<close>
  "apply_migration q f name sql db =
     (case f_off f of Some m \<Rightarrow> (Some (DisableForeignKeys name m), db) | None \<Rightarrow>
      let db = db\<lparr>m_foreign_keys := False\<rparr> in
      case f_begin f of Some m \<Rightarrow> (Some (BeginTx name m), db) | None \<Rightarrow>
      case q_exec q sql False (m_tables db) of Inl m \<Rightarrow> (Some (ApplyMigration name m), db) | Inr d \<Rightarrow>
      case f_record f of Some m \<Rightarrow> (Some (RecordMigration name m), db) | None \<Rightarrow>
      case f_commit f of Some m \<Rightarrow> (Some (CommitMigration name m), db) | None \<Rightarrow>
      let db = db\<lparr>m_tables := d, m_versions := m_versions db @ [name]\<rparr> in
      case f_on f of Some m \<Rightarrow> (Some (EnableForeignKeys name m), db) | None \<Rightarrow>
      let db = db\<lparr>m_foreign_keys := True\<rparr> in
      case f_check f of Some m \<Rightarrow> (Some (CheckForeignKeys name m), db) | None \<Rightarrow>
      if q_violated q (m_tables db) then (Some (Violation name), db) else (None, db))"

fun migrate_loop ::
  "'d sqlite_rules \<Rightarrow> (string \<Rightarrow> migrate_faults) \<Rightarrow> (string \<Rightarrow> string) \<Rightarrow> string list \<Rightarrow> 'd schema_db \<Rightarrow> migrate_error option \<times> 'd schema_db" where
  "migrate_loop q flt contents [] db = (None, db)"
| "migrate_loop q flt contents (name # names) db =
     (case f_count (flt name) of Some m \<Rightarrow> (Some (CheckMigration name m), db) | None \<Rightarrow>
      if name \<in> set (m_versions db) then migrate_loop q flt contents names db
      else case f_read (flt name) of Some m \<Rightarrow> (Some (ReadMigration name m), db) | None \<Rightarrow>
      case apply_migration q (flt name) name (contents name) db of
        (Some e, db') \<Rightarrow> (Some e, db')
      | (None, db') \<Rightarrow> migrate_loop q flt contents names db')"

text \<open>A directory is its entries, each with a name and whether it is a directory.\<close>

fun last_dot :: "string \<Rightarrow> string option" where
  "last_dot [] = None"
| "last_dot (c # cs) = (case last_dot cs of Some e \<Rightarrow> Some e | None \<Rightarrow> if c = CHR ''.'' then Some (c # cs) else None)"

definition Ext :: "string \<Rightarrow> string" where
  \<comment> \<open>\<open>filepath.Ext\<close> of a file name\<close>
  "Ext name = (case last_dot name of None \<Rightarrow> [] | Some e \<Rightarrow> e)"

definition migration_files :: "(string \<times> bool) list \<Rightarrow> string list" where
  \<comment> \<open>\<open>sort.Strings\<close> compares bytes\<close>
  "migration_files entries = sort (map fst (filter (\<lambda>(name, dir). \<not> dir \<and> Ext name = ''.sql'') entries))"

definition migrate ::
  "'d sqlite_rules \<Rightarrow> string option \<Rightarrow> (string \<Rightarrow> migrate_faults) \<Rightarrow> string + (string \<times> bool) list \<Rightarrow> (string \<Rightarrow> string) \<Rightarrow>
   'd schema_db \<Rightarrow> migrate_error option \<times> 'd schema_db" where
  "migrate q create flt dir contents db =
     (case create of Some m \<Rightarrow> (Some (CreateSchema m), db) | None \<Rightarrow>
      case dir of Inl m \<Rightarrow> (Some (ReadDir m), db) | Inr entries \<Rightarrow> migrate_loop q flt contents (migration_files entries) db)"

section \<open>The transport\<close>

text \<open>Files, PEM blocks and key pairs are read by the standard library: \<open>readFile\<close>, \<open>appendCerts\<close> and \<open>loadKeyPair\<close>.\<close>

record ('p, 'k) tls_client =
  InsecureSkipVerify :: bool
  RootCAs :: "'p option"
  Certificates :: "'k list"

definition buildMQTTTLSConfig ::
  "(string \<Rightarrow> string + string) \<Rightarrow> (string \<Rightarrow> 'p option) \<Rightarrow> (string \<Rightarrow> string \<Rightarrow> string + 'k) \<Rightarrow> tls_config \<Rightarrow>
   string + ('p, 'k) tls_client option" where
  "buildMQTTTLSConfig readFile appendCerts loadKeyPair c =
     (if \<not> tls_Enabled c then Inr None
      else
      let base = \<lparr>InsecureSkipVerify = tls_InsecureSkipVerify c, RootCAs = None, Certificates = []\<rparr>;
          keys = (\<lambda>t. if tls_CertFile c \<noteq> [] \<or> tls_KeyFile c \<noteq> []
                     then (case loadKeyPair (tls_CertFile c) (tls_KeyFile c) of
                             Inl e \<Rightarrow> Inl (''load client certificate: '' @ e)
                           | Inr cert \<Rightarrow> Inr (Some (t\<lparr>Certificates := [cert]\<rparr>)))
                     else Inr (Some t))
      in if tls_CAFile c \<noteq> []
         then (case readFile (tls_CAFile c) of
                 Inl e \<Rightarrow> Inl (''read ca_file: '' @ e)
               | Inr pem \<Rightarrow>
                   (case appendCerts pem of
                      None \<Rightarrow> Inl (''ca_file '' @ tls_CAFile c @ '' contains no valid certificates'')
                    | Some pool \<Rightarrow> keys (base\<lparr>RootCAs := Some pool\<rparr>)))
         else keys base)"

text \<open>The options of the broker client beside what the adapter itself keeps of them.\<close>

record ('p, 'k) client_options =
  o_ClientID :: string
  o_Username :: string
  o_Password :: string
  o_KeepAlive :: duration
  o_TLS :: "('p, 'k) tls_client option"

datatype ('p, 'k) built = BuiltHTTP string duration | BuiltMQTT mqtt_adapter "('p, 'k) client_options"

datatype adapter_error = TLSError string | ConnectError string string | UnknownTransport string

definition mqtt_adapter_config :: "mqtt_settings \<Rightarrow> mqtt_config" where
  \<comment> \<open>the watchdog settings are not configured, so \<open>NewMQTTAdapter\<close> sets their defaults\<close>
  "mqtt_adapter_config m = \<lparr>BrokerURL = mq_BrokerURL m, QoS = of_int (mq_QoS m), DataTopic = mq_DataTopic m, AckTopic = mq_AckTopic m,
     ConnectTimeout = wrap64 (mq_ConnectTimeoutMs m * millisecond), PublishTimeout = wrap64 (mq_PublishTimeoutMs m * millisecond),
     AckTimeout = wrap64 (mq_AckTimeoutMs m * millisecond), WatchdogInterval = 0, ReconnectStuckAfter = 0\<rparr>"

definition buildAdapter ::
  "(string \<Rightarrow> string + string) \<Rightarrow> (string \<Rightarrow> 'p option) \<Rightarrow> (string \<Rightarrow> string \<Rightarrow> string + 'k) \<Rightarrow> token_result \<Rightarrow> config \<Rightarrow>
   adapter_error + ('p, 'k) built" where
  \<comment> \<open>\<open>tok\<close> is how the first \<open>Connect\<close> ends\<close>
  "buildAdapter readFile appendCerts loadKeyPair tok c =
     (let f = cf_Forwarder c; m = cf_MQTT c
      in if fc_Transport f = [] \<or> fc_Transport f = ''http''
         then Inr (BuiltHTTP (fc_ServerURL f) (wrap64 (fc_SendTimeoutMs f * millisecond)))
         else if fc_Transport f = ''mqtt'' then
           (case buildMQTTTLSConfig readFile appendCerts loadKeyPair (mq_TLS m) of
              Inl e \<Rightarrow> Inl (TLSError e)
            | Inr tls \<Rightarrow>
                (let a = NewMQTTAdapter (mqtt_adapter_config m)
                 in case Connect_mqtt tok a of
                      Some e \<Rightarrow> Inl (ConnectError (mq_BrokerURL m) e)
                    | None \<Rightarrow> Inr (BuiltMQTT a \<lparr>o_ClientID = mq_ClientID m, o_Username = mq_Username m, o_Password = mq_Password m,
                        o_KeepAlive = wrap64 (mq_KeepAliveSec m * second), o_TLS = tls\<rparr>)))
         else Inl (UnknownTransport (fc_Transport f)))"

section \<open>Properties of the migrations\<close>

lemma migration_files_sorted: "sorted (migration_files entries)"
  by (simp add: migration_files_def)

lemma apply_migration_done:
  assumes "apply_migration q f name sql db = (None, db')"
  shows "\<exists>d. q_exec q sql False (m_tables db) = Inr d \<and> m_tables db' = d \<and> \<not> q_violated q d \<and>
    m_versions db' = m_versions db @ [name] \<and> m_foreign_keys db'"
  using assms by (auto simp: apply_migration_def Let_def split: option.splits sum.splits if_splits)

lemma apply_migration_error:
  assumes "apply_migration q f name sql db = (Some e, db')"
  shows "m_versions db' = m_versions db \<and> m_tables db' = m_tables db \<or>
    m_versions db' = m_versions db @ [name] \<and> q_exec q sql False (m_tables db) = Inr (m_tables db')"
  using assms by (auto simp: apply_migration_def Let_def split: option.splits sum.splits if_splits)

text \<open>What a migration run is meant to do: the scripts of \<open>names\<close> one after the other on the tables.\<close>

fun run_scripts :: "'d sqlite_rules \<Rightarrow> (string \<Rightarrow> string) \<Rightarrow> string list \<Rightarrow> 'd \<Rightarrow> 'd option" where
  "run_scripts q contents [] d = Some d"
| "run_scripts q contents (n # ns) d = (case q_exec q (contents n) False d of Inl _ \<Rightarrow> None | Inr d' \<Rightarrow> run_scripts q contents ns d')"

lemma run_scripts_append:
  "run_scripts q contents (ns @ ms) d = (case run_scripts q contents ns d of None \<Rightarrow> None | Some d' \<Rightarrow> run_scripts q contents ms d')"
  by (induction ns arbitrary: d) (simp_all split: sum.split)

lemma filter_applied: "n \<notin> set ns \<Longrightarrow> filter (\<lambda>m. m \<notin> set (vs @ [n])) ns = filter (\<lambda>m. m \<notin> set vs) ns"
  by (rule filter_cong) auto

definition progress ::
  "'d sqlite_rules \<Rightarrow> (string \<Rightarrow> string) \<Rightarrow> string list \<Rightarrow> migrate_error option \<Rightarrow> 'd schema_db \<Rightarrow> 'd schema_db \<Rightarrow> bool" where
  "progress q contents names err db db' \<longleftrightarrow>
     (\<exists>ran todo. filter (\<lambda>n. n \<notin> set (m_versions db)) names = ran @ todo \<and> m_versions db' = m_versions db @ ran \<and>
        run_scripts q contents ran (m_tables db) = Some (m_tables db') \<and>
        (err = None \<longrightarrow> todo = [] \<and> (if ran = [] then db' = db else m_foreign_keys db' \<and> \<not> q_violated q (m_tables db'))))"

lemma progress_stop:
  "m_versions db' = m_versions db \<Longrightarrow> m_tables db' = m_tables db \<Longrightarrow> progress q contents names (Some e) db db'"
  unfolding progress_def
  by (intro exI [of _ "[]"] exI [of _ "filter (\<lambda>m. m \<notin> set (m_versions db)) names"]) simp

lemma progress_last:
  assumes "n \<notin> set (m_versions db)" "m_versions db' = m_versions db @ [n]" "q_exec q (contents n) False (m_tables db) = Inr (m_tables db')"
  shows "progress q contents (n # ns) (Some e) db db'"
  unfolding progress_def
  using assms by (intro exI [of _ "[n]"] exI [of _ "filter (\<lambda>m. m \<notin> set (m_versions db)) ns"]) simp

lemma progress_step:
  assumes new: "n \<notin> set (m_versions db)" "n \<notin> set ns"
    and db1: "q_exec q (contents n) False (m_tables db) = Inr (m_tables db1)" "m_versions db1 = m_versions db @ [n]"
      "\<not> q_violated q (m_tables db1)" "m_foreign_keys db1"
    and rest: "progress q contents ns err db1 db'"
  shows "progress q contents (n # ns) err db db'"
proof -
  from rest obtain ran todo where
    IH: "filter (\<lambda>m. m \<notin> set (m_versions db1)) ns = ran @ todo" "m_versions db' = m_versions db1 @ ran"
      "run_scripts q contents ran (m_tables db1) = Some (m_tables db')"
      "err = None \<longrightarrow> todo = [] \<and> (if ran = [] then db' = db1 else m_foreign_keys db' \<and> \<not> q_violated q (m_tables db'))"
    unfolding progress_def by blast
  have "filter (\<lambda>m. m \<notin> set (m_versions db)) (n # ns) = (n # ran) @ todo"
    using IH(1) filter_applied [OF new(2), of "m_versions db", folded db1(2)] new(1) by (simp only:) simp
  moreover have "m_versions db' = m_versions db @ n # ran" using IH(2) db1(2) by simp
  moreover have "run_scripts q contents (n # ran) (m_tables db) = Some (m_tables db')" using IH(3) db1(1) by simp
  moreover have "err = None \<longrightarrow> todo = [] \<and> (if n # ran = [] then db' = db else m_foreign_keys db' \<and> \<not> q_violated q (m_tables db'))"
    using IH(4) db1(3,4) by (cases "ran = []") simp_all
  ultimately show ?thesis unfolding progress_def by blast
qed

lemma progress_skip: "n \<in> set (m_versions db) \<Longrightarrow> progress q contents (n # ns) err db db' = progress q contents ns err db db'"
  by (simp add: progress_def)

lemma migrate_loop_runs:
  assumes "migrate_loop q flt contents names db = (err, db')" "distinct names"
  shows "progress q contents names err db db'"
  using assms
proof (induction names arbitrary: db)
  case Nil
  then show ?case by (simp add: progress_def)
next
  case (Cons n ns)
  obtain e db1 where a: "apply_migration q (flt n) n (contents n) db = (e, db1)" by force
  consider (count) m where "f_count (flt n) = Some m" | (skip) "f_count (flt n) = None" "n \<in> set (m_versions db)"
    | (read) m where "f_count (flt n) = None" "n \<notin> set (m_versions db)" "f_read (flt n) = Some m"
    | (run) "f_count (flt n) = None" "n \<notin> set (m_versions db)" "f_read (flt n) = None" by fastforce
  then show ?case
  proof cases
    case run
    show ?thesis
    proof (cases e)
      case None
      from apply_migration_done [OF a [unfolded None]] show ?thesis
        using Cons.IH [of db1] Cons.prems run a None by (auto intro: progress_step)
    next
      case (Some x)
      from apply_migration_error [OF a [unfolded Some]] show ?thesis
        using Cons.prems run a Some by (auto intro: progress_stop progress_last)
    qed
  qed (use Cons in \<open>auto simp: progress_skip intro: progress_stop\<close>)
qed

definition no_faults :: migrate_faults where
  "no_faults = \<lparr>f_count = None, f_read = None, f_off = None, f_begin = None, f_record = None, f_commit = None, f_on = None, f_check = None\<rparr>"

lemma no_faults_simps [simp]:
  "f_count no_faults = None" "f_read no_faults = None" "f_off no_faults = None" "f_begin no_faults = None"
  "f_record no_faults = None" "f_commit no_faults = None" "f_on no_faults = None" "f_check no_faults = None"
  by (simp_all add: no_faults_def)

lemma migrate_loop_applied:
  "set names \<subseteq> set (m_versions db) \<Longrightarrow> migrate_loop q (\<lambda>_. no_faults) contents names db = (None, db)"
  by (induction names) simp_all

lemma set_migration_files: "set (migration_files entries) = {n. (n, False) \<in> set entries \<and> Ext n = ''.sql''}"
  by (force simp: migration_files_def)

lemma distinct_migration_files: "distinct (map fst entries) \<Longrightarrow> distinct (migration_files entries)"
  by (simp add: migration_files_def distinct_map_filter)

text \<open>C26: a start applies the migrations that are not recorded yet, in the order of their names, each at most once. Whatever fails,
  the scripts that ran are the first of them, they are exactly the ones added to the record, and the tables are what these scripts
  make of the tables before. A start that succeeds has applied all, enforces foreign keys again and found none violated after the
  last script, and a further start changes nothing.\<close>

theorem migrate_spec:
  assumes "migrate q create flt (Inr entries) contents db = (err, db')" "distinct (map fst entries)"
  shows "\<exists>ran todo. filter (\<lambda>n. n \<notin> set (m_versions db)) (migration_files entries) = ran @ todo \<and>
    m_versions db' = m_versions db @ ran \<and> run_scripts q contents ran (m_tables db) = Some (m_tables db') \<and>
    (err = None \<longrightarrow> todo = [] \<and> (if ran = [] then db' = db else m_foreign_keys db' \<and> \<not> q_violated q (m_tables db')) \<and>
       migrate q None (\<lambda>_. no_faults) (Inr entries) contents db' = (None, db'))"
proof (cases create)
  case None
  with assms(1) have "migrate_loop q flt contents (migration_files entries) db = (err, db')" by (simp add: migrate_def)
  from migrate_loop_runs [OF this distinct_migration_files [OF assms(2)]] obtain ran todo where
    r: "filter (\<lambda>n. n \<notin> set (m_versions db)) (migration_files entries) = ran @ todo" "m_versions db' = m_versions db @ ran"
      "run_scripts q contents ran (m_tables db) = Some (m_tables db')" 
      "err = None \<longrightarrow> todo = [] \<and> (if ran = [] then db' = db else m_foreign_keys db' \<and> \<not> q_violated q (m_tables db'))"
    unfolding progress_def by blast
  have "set (migration_files entries) \<subseteq> set (m_versions db')" if "todo = []"
    using arg_cong [OF r(1), of set] r(2) that by auto
  then show ?thesis
    using r by (intro exI [of _ ran] exI [of _ todo]) (auto simp: migrate_def migrate_loop_applied)
next
  case (Some m)
  with assms(1) show ?thesis
    by (intro exI [of _ "[]"] exI [of _ "filter (\<lambda>n. n \<notin> set (m_versions db)) (migration_files entries)"]) (auto simp: migrate_def)
qed

text \<open>Two scripts: the first adds a row, the second one that refers to nothing.\<close>

definition toy_sqlite :: "nat list sqlite_rules" where
  "toy_sqlite = \<lparr>q_exec = (\<lambda>sql fk d. if sql = [] then Inl ''empty'' else Inr (d @ [length sql])), q_violated = (\<lambda>d. 9 \<in> set d)\<rparr>"

definition fresh_db :: "nat list schema_db" where
  "fresh_db = \<lparr>m_tables = [], m_versions = [], m_foreign_keys = True\<rparr>"

lemma sample_files: "migration_files [(''2.sql'', False), (''old'', True), (''1.sql'', False)] = [''1.sql'', ''2.sql'']"
  by (simp add: migration_files_def Ext_def)

text \<open>A start that finds a violated foreign key after a migration refuses to run, but it has already recorded the
  migration: the next start skips it, checks nothing and succeeds on the same tables.\<close>

theorem migration_violation_forgotten:
  assumes "migrate q None (\<lambda>_. no_faults) (Inr [(name, False)]) contents db = (Some (Violation name), db')"
  shows "q_violated q (m_tables db') \<and> migrate q None (\<lambda>_. no_faults) (Inr [(name, False)]) contents db' = (None, db')"
proof -
  have ext: "Ext name = ''.sql''"
    using assms by (auto simp: migrate_def migration_files_def split: if_splits)
  then have f: "migration_files [(name, False)] = [name]" by (simp add: migration_files_def)
  with assms have "apply_migration q no_faults name (contents name) db = (Some (Violation name), db')"
    by (auto simp: migrate_def split: if_splits option.splits prod.splits)
  then have "q_violated q (m_tables db')" "name \<in> set (m_versions db')"
    by (auto simp: apply_migration_def Let_def split: sum.splits if_splits)
  then show ?thesis by (simp add: migrate_def f migrate_loop_applied)
qed

theorem migrate_spec_witness:
  "\<exists>db'. migrate toy_sqlite None (\<lambda>_. no_faults) (Inr [(''2.sql'', False), (''old'', True), (''1.sql'', False)])
      (\<lambda>n. if n = ''1.sql'' then ''abc'' else ''x'') fresh_db = (None, db') \<and>
    m_versions db' = [''1.sql'', ''2.sql''] \<and> m_tables db' = [3, 1]"
proof -
  let ?c = "\<lambda>n. if n = ''1.sql'' then ''abc'' else ''x''" and ?d = "[(''2.sql'', False), (''old'', True), (''1.sql'', False)]"
  obtain db' where r: "migrate toy_sqlite None (\<lambda>_. no_faults) (Inr ?d) ?c fresh_db = (None, db')"
    by (simp add: migrate_def sample_files apply_migration_def toy_sqlite_def fresh_db_def Let_def)
  from migrate_spec [OF r] r show ?thesis
    by (auto simp: sample_files fresh_db_def toy_sqlite_def eval_nat_numeral dest: sym)
qed

theorem migration_violation_forgotten_witness:
  "\<exists>db'. q_violated toy_sqlite (m_tables db') \<and>
     migrate toy_sqlite None (\<lambda>_. no_faults) (Inr [(''1.sql'', False)]) (\<lambda>_. ''DROP x; y'') db' = (None, db')"
proof -
  have "migration_files [(''1.sql'', False)] = [''1.sql'']" by (simp add: migration_files_def Ext_def)
  then obtain db' where "migrate toy_sqlite None (\<lambda>_. no_faults) (Inr [(''1.sql'', False)]) (\<lambda>_. ''DROP x; y'') fresh_db = (Some (Violation ''1.sql''), db')"
    by (simp add: migrate_def apply_migration_def toy_sqlite_def fresh_db_def Let_def)
  from migration_violation_forgotten [OF this] show ?thesis by blast
qed

section \<open>Properties of the transport\<close>

text \<open>A gateway whose configuration names no topics and the server agree on where acknowledgements go: the adapter
  built from the loaded file subscribes to exactly the topic the server answers its batches on, whichever client id is configured.\<close>

theorem default_topics_match:
  assumes "unmarshal (ExpandEnv env raw) = Inr c0" "mq_DataTopic (cf_MQTT c0) = []" "mq_AckTopic (cf_MQTT c0) = []"
    and "Load unmarshal env [path \<mapsto> raw] path = Inr c"
    and "buildAdapter readFile appendCerts loadKeyPair tok c = Inr (BuiltMQTT a opts)"
  shows "AckTopic (m_cfg a) = ack_topic_of (DataTopic (m_cfg a)) \<and> o_ClientID opts = mq_ClientID (cf_MQTT c) \<and>
    DataTopic (m_cfg a) = ''gateway/'' @ o_ClientID opts @ ''/data''"
proof -
  have c: "c = with_defaults c0" using assms(1,4) by (simp add: Load_def)
  have "a = NewMQTTAdapter (mqtt_adapter_config (cf_MQTT c))" "o_ClientID opts = mq_ClientID (cf_MQTT c)"
    using assms(5) by (auto simp: buildAdapter_def Let_def split: if_splits sum.splits option.splits)
  then show ?thesis
    using assms(2,3) TrimSuffix_append [of "''gateway/'' @ mq_ClientID (cf_MQTT c)" "''/data''"]
    by (simp add: c NewMQTTAdapter_def mqtt_adapter_config_def with_defaults_def mqtt_defaults_def or_text_def ack_topic_of_def Let_def)
qed

theorem default_topics_match_witness:
  "\<exists>a opts. buildAdapter (\<lambda>_. Inl []) (\<lambda>_. None :: unit option) (\<lambda>_ _. Inl [] :: string + unit) (TokDone None) sample_config =
      Inr (BuiltMQTT a opts) \<and> AckTopic (m_cfg a) = ack_topic_of (DataTopic (m_cfg a))"
proof -
  let ?build = "buildAdapter (\<lambda>_. Inl []) (\<lambda>_. None :: unit option) (\<lambda>_ _. Inl [] :: string + unit) (TokDone None)"
  define c0 where "c0 = sample_config\<lparr>cf_MQTT := (cf_MQTT sample_config)\<lparr>mq_DataTopic := [], mq_AckTopic := []\<rparr>\<rparr>"
  have "with_defaults c0 = sample_config"
    by (simp add: c0_def sample_config_def with_defaults_def mqtt_defaults_def queue_defaults_def forwarder_defaults_def
        time_defaults_def or_default_def or_text_def f64_95 Let_def)
  then have l: "Load (\<lambda>_. Inr c0) (\<lambda>_. []) [''c'' \<mapsto> []] ''c'' = Inr sample_config" by (simp add: Load_def)
  obtain a opts where b: "?build sample_config = Inr (BuiltMQTT a opts)"
    by (simp add: buildAdapter_def buildMQTTTLSConfig_def Connect_mqtt_def waitToken_def sample_config_def with_defaults_def
        forwarder_defaults_def mqtt_defaults_def or_text_def Let_def)
  have t: "mq_DataTopic (cf_MQTT c0) = []" "mq_AckTopic (cf_MQTT c0) = []" by (simp_all add: c0_def)
  from default_topics_match [OF refl t l b] b show ?thesis by blast
qed

text \<open>A quality of service of 256 passes the check of \<open>Load\<close> and reaches the broker client as 0.\<close>

lemma qos_truncated: "mq_QoS m = 256 \<Longrightarrow> QoS (mqtt_adapter_config m) = 0"
  by (simp add: mqtt_adapter_config_def)

end
