(* ===== verification/Panels.thy ===== *)
theory Panels
  imports Restore Forwarder TimeSync
begin

text \<open>
  The read-only panels of the Web API: \<open>dashboard.go\<close>, \<open>diagnostics.go\<close>, \<open>storeforward.go\<close> and \<open>getTime\<close> of \<open>router.go\<close>, all in
  \<open>src/gateway/internal/api\<close>. A panel reads the repositories and services of the other components; it changes nothing. The disk
  usage is what \<open>storage.DiskUsagePercent\<close> gave.
\<close>

section \<open>Dashboard\<close>

record dashboardSummaryDTO =
  n_device_count :: int
  n_enabled_device_count :: int
  n_data_point_count :: int

definition getDashboardSummary :: "(nat \<Rightarrow> fault) \<Rightarrow> server \<Rightarrow> dashboardSummaryDTO response" where
  "getDashboardSummary flts sv = (case Count_devices (flts 0) (sv_db sv) of
       Inl e \<Rightarrow> ErrorReply 500 (RepoError e)
     | Inr (n, enabled) \<Rightarrow>
         (case CountAll (flts 1) (sv_db sv) of
            Inl e \<Rightarrow> ErrorReply 500 (RepoError e)
          | Inr dps \<Rightarrow> Reply 200 \<lparr>n_device_count = n, n_enabled_device_count = enabled, n_data_point_count = dps\<rparr>))"

section \<open>Diagnostics\<close>

definition empty_snapshot :: snapshot where
  "empty_snapshot = \<lparr>TXCount = 0, RXCount = 0, TimeoutCount = 0, CRCErrorCount = 0, RetryCount = 0, AvgResponseTimeMs = f64_zero\<rparr>"

definition getDiagnostics :: "diag_store option \<Rightarrow> snapshot" where
  \<comment> \<open>\<open>diagnosticsDTO\<close> has the fields of a snapshot under other names\<close>
  "getDiagnostics diag = (case diag of None \<Rightarrow> empty_snapshot | Some s \<Rightarrow> Snapshot s)"

section \<open>Store and forward\<close>

record storeForwardStatusDTO =
  w_pending_records :: int
  w_sending_records :: int
  w_oldest_pending :: "gotime option"
  w_newest_pending :: "gotime option"
  w_retry_count :: int
  w_storage_used_percent :: "real option"
  w_storage_level :: "storage_level option"
  w_server_connected :: bool
  w_server_last_error :: string
  w_server_last_sent_at :: "gotime option"
  w_retention_days :: int

definition getStoreForwardStatus ::
  "fault \<Rightarrow> string + real \<Rightarrow> int \<Rightarrow> real \<Rightarrow> fwd_status option \<Rightarrow> qdb \<Rightarrow> queue_error + storeForwardStatusDTO" where
  \<comment> \<open>\<open>Inl\<close> is the reply 500; \<open>retentionDays\<close> and \<open>fullPercent\<close> are the configured values\<close>
  "getStoreForwardStatus flt usage retentionDays fullPercent fwd db = (case Stats flt db of
       Inl e \<Rightarrow> Inl e
     | Inr st \<Rightarrow>
         (let dto = \<lparr>w_pending_records = PendingCount st, w_sending_records = SendingCount st, w_oldest_pending = OldestPending st,
                w_newest_pending = NewestPending st, w_retry_count = TotalRetries st, w_storage_used_percent = None, w_storage_level = None,
                w_server_connected = False, w_server_last_error = [], w_server_last_sent_at = None, w_retention_days = retentionDays\<rparr>;
              dto = (case usage of
                  Inr pct \<Rightarrow> dto\<lparr>w_storage_used_percent := Some pct, w_storage_level := Some (ClassifyStorageLevel pct fullPercent)\<rparr>
                | Inl _ \<Rightarrow> dto)
          in Inr (case fwd of
                None \<Rightarrow> dto
              | Some f \<Rightarrow> dto\<lparr>w_server_connected := Connected f, w_server_last_error := S_LastError f, w_server_last_sent_at := LastSuccessAt f\<rparr>)))"

definition getStoreForwardStatistics ::
  "fault \<Rightarrow> string + real \<Rightarrow> int \<Rightarrow> real \<Rightarrow> fwd_status option \<Rightarrow> qdb \<Rightarrow> queue_error + storeForwardStatusDTO" where
  "getStoreForwardStatistics = getStoreForwardStatus"

section \<open>Time\<close>

record timeDTO =
  z_system_time :: gotime
  z_timezone :: string
  z_ntp_server :: string
  z_ntp_status :: bool
  z_last_sync :: "gotime option"
  z_clock_offset_ms :: "f64 option"
  z_rtc_status :: bool
  z_rtc_time :: "gotime option"
  z_time_quality :: time_quality

definition getTime :: "gotime \<Rightarrow> string \<Rightarrow> time_service option \<Rightarrow> timeDTO" where
  "getTime now timezone svc = (case svc of
       None \<Rightarrow> \<lparr>z_system_time = now, z_timezone = timezone, z_ntp_server = [], z_ntp_status = False, z_last_sync = None,
           z_clock_offset_ms = None, z_rtc_status = False, z_rtc_time = None, z_time_quality = QualityUnsynced\<rparr>
     | Some s \<Rightarrow>
         (let st = Status_time now s
          in \<lparr>z_system_time = ts_SystemTime st, z_timezone = ts_Timezone st, z_ntp_server = ts_NTPServer st, z_ntp_status = ts_NTPSynced st,
              z_last_sync = ts_LastSync st,
              z_clock_offset_ms = map_option (\<lambda>d. f64_div (f64_of_int d) (f64_of_int millisecond)) (ts_ClockOffset st),
              z_rtc_status = ts_RTCAvailable st, z_rtc_time = ts_RTCTime st, z_time_quality = ts_TimeQuality st\<rparr>))"

section \<open>Properties\<close>

lemma sum_points_by_device:
  assumes "distinct (map dr_id ds)" "\<forall>r \<in> set ps. pr_device_id r \<in> dr_id ` set ds"
  shows "(\<Sum>d\<leftarrow>ds. length (filter (\<lambda>r. pr_device_id r = dr_id d) ps)) = length ps"
  using assms
proof (induction ds arbitrary: ps)
  case (Cons d ds)
  let ?rest = "filter (\<lambda>r. pr_device_id r \<noteq> dr_id d) ps"
  have "filter (\<lambda>r. pr_device_id r = dr_id e) ps = filter (\<lambda>r. pr_device_id r = dr_id e) ?rest" if "e \<in> set ds" for e
    using Cons.prems(1) that by (auto simp: filter_filter intro!: filter_cong)
  then have "(\<Sum>e\<leftarrow>ds. length (filter (\<lambda>r. pr_device_id r = dr_id e) ps)) =
      (\<Sum>e\<leftarrow>ds. length (filter (\<lambda>r. pr_device_id r = dr_id e) ?rest))"
    by (intro arg_cong [of _ _ sum_list] map_cong) auto
  also have "\<dots> = length ?rest" using Cons.prems by (intro Cons.IH) auto
  finally show ?case using sum_length_filter_compl [of "\<lambda>r. pr_device_id r = dr_id d" ps] by simp
qed simp

lemma enabled_flag: "good_dev r \<Longrightarrow> (dr_enabled r = 1) = d_Enabled (scanDevice r)"
  by (cases r) (auto simp: good_dev_def dev_row_of_def scanDevice_def boolToInt_def split: if_splits)

text \<open>The dashboard counts what the gateway holds. In every state the Web API can reach, its device count, the count of enabled
  devices and the data point count agree with the devices of an export taken at the same moment and the data points listed in them.\<close>

theorem dashboard_matches_export:
  assumes "exact_bind bind" "(api_step bind)\<^sup>*\<^sup>* start_server sv"
    and "getDashboardSummary (\<lambda>_. None) sv = Reply 200 s" "exportConfig (\<lambda>_. None) now c sv = Reply 200 x"
  shows "n_device_count s = int (length (x_devices x)) \<and>
    n_enabled_device_count s = int (length (filter (jd_enabled \<circ> xd_device) (x_devices x))) \<and>
    n_data_point_count s = int (\<Sum>d\<leftarrow>x_devices x. length (xd_data_points d))"
proof -
  let ?db = "sv_db sv"
  have ck: "checked_cfg bind ?db" using api_reachable_inv [OF assms(2,1)] by (simp add: server_inv_def)
  then have inv: "cfg_inv ?db" and good: "list_all good_dev (devices ?db)" by (simp_all add: checked_cfg_def)
  have x: "x_devices x = map (exported_device sv) (sort_key dr_id (devices ?db))" using export_rows [OF assms(4)] by simp
  have s: "n_device_count s = int (length (devices ?db))"
    "n_enabled_device_count s = int (length (filter (\<lambda>r. dr_enabled r = 1) (devices ?db)))"
    "n_data_point_count s = int (length (datapoints ?db))"
    using assms(3) by (auto simp: getDashboardSummary_def Count_devices_def CountAll_def)
  have e: "(jd_enabled \<circ> xd_device) (exported_device sv r) = d_Enabled (scanDevice r)" for r
    by (simp add: exported_device_def toDeviceDTO_def Let_def split: prod.split)
  have "length (filter (jd_enabled \<circ> xd_device) (x_devices x)) = length (filter (\<lambda>r. d_Enabled (scanDevice r)) (devices ?db))"
    unfolding x filter_map length_map e comp_def [of _ "exported_device sv"]
    by (metis (no_types) filter_sort length_sort)
  also have "filter (\<lambda>r. d_Enabled (scanDevice r)) (devices ?db) = filter (\<lambda>r. dr_enabled r = 1) (devices ?db)"
    using good enabled_flag by (intro filter_cong) (auto simp: list_all_iff)
  finally have "n_enabled_device_count s = int (length (filter (jd_enabled \<circ> xd_device) (x_devices x)))" by (simp add: s comp_def)
  moreover have "(\<Sum>d\<leftarrow>x_devices x. length (xd_data_points d)) = length (datapoints ?db)"
    using sum_points_by_device [of "sort_key dr_id (devices ?db)" "datapoints ?db"] cfg_invD(2,8) [OF inv]
    by (simp add: x exported_device_def comp_def distinct_map)
  ultimately show ?thesis using s by (simp add: x)
qed

theorem dashboard_matches_export_witness:
  "\<exists>x. exportConfig (\<lambda>_. None) 0 sample_config sample_server = Reply 200 x \<and>
     int (length (x_devices x)) = 1 \<and> int (\<Sum>d\<leftarrow>x_devices x. length (xd_data_points d)) = 1"
proof -
  obtain x where x: "exportConfig (\<lambda>_. None) 0 sample_config sample_server = Reply 200 x"
    using export_devices_rows [of sample_server 2 "sort_key dr_id (devices (sv_db sample_server))"]
    by (simp add: exportConfig_def List_connections_def List_devices_def)
  have d: "getDashboardSummary (\<lambda>_. None) sample_server =
      Reply 200 \<lparr>n_device_count = 1, n_enabled_device_count = 1, n_data_point_count = 1\<rparr>"
    by (simp add: getDashboardSummary_def Count_devices_def CountAll_def sample_server_db sample_cfg_rows dev_row_of_def
        boolToInt_def sample_dev_def)
  from dashboard_matches_export [OF _ sample_server_reachable d x] sqlite.exact x show ?thesis
    by (simp add: sqlite_bind_def exact_bind_def)
qed

end
