(* ===== verification/Clock.thy ===== *)
theory Clock
  imports TimeSync
begin

text \<open>
  The hardware clock (\<open>src/gateway/internal/time/rtc_linux.go\<close>, \<open>rtc_other.go\<close>): a Linux RTC keeps a broken-down UTC time, so
  \<open>Write\<close> takes the calendar date of an instant and \<open>Read\<close> goes back. The conversions are those of Go's \<open>time\<close> package for UTC, the
  proleptic Gregorian calendar; instants are nanoseconds since 1970 as everywhere in the model.

  The RTC driver of the kernel is a pair of arguments, the two ioctls on a device state.
\<close>

section \<open>The calendar\<close>

definition leap :: "int \<Rightarrow> bool" where
  "leap y \<longleftrightarrow> 4 dvd y \<and> (\<not> 100 dvd y \<or> 400 dvd y)"

definition month_lengths :: "int \<Rightarrow> int list" where
  "month_lengths y = [31, if leap y then 29 else 28, 31, 30, 31, 30, 31, 31, 30, 31, 30, 31]"

text \<open>The days before the first day of a year, counted from the first day of year 1.\<close>

definition days_before :: "int \<Rightarrow> int" where
  "days_before y = (let n = y - 1 in 365 * n + n div 4 - n div 100 + n div 400)"

lemma div_next:
  assumes "0 < k"
  shows "(n :: int) div k = (n - 1) div k + (if k dvd n then 1 else 0)"
proof -
  have n: "n = k * (n div k) + n mod k" by simp
  show ?thesis
  proof (cases "k dvd n")
    case True
    then have "n - 1 = k * (n div k - 1) + (k - 1)" by (simp add: algebra_simps)
    then have "(n - 1) div k = n div k - 1" by (rule int_div_pos_eq) (use assms in simp_all)
    with True show ?thesis by simp
  next
    case False
    then have "n mod k \<noteq> 0" by (simp add: dvd_eq_mod_eq_0)
    with assms have r: "0 \<le> n mod k - 1" "n mod k - 1 < k"
      using pos_mod_sign [OF assms, of n] pos_mod_bound [OF assms, of n] by linarith+
    from n have "n - 1 = k * (n div k) + (n mod k - 1)" by linarith
    then have "(n - 1) div k = n div k" by (rule int_div_pos_eq) (fact r)+
    with False show ?thesis by simp
  qed
qed

lemma leap_divs:
  "(if 4 dvd y then 1 else 0) - (if 100 dvd y then 1 else 0) + (if 400 dvd y then 1 else 0) = (if leap y then 1 else (0 :: int))"
proof -
  have "100 dvd y \<Longrightarrow> 4 dvd y" by (rule dvd_trans [of "4 :: int" 100]) simp_all
  moreover have "400 dvd y \<Longrightarrow> 100 dvd y" by (rule dvd_trans [of "100 :: int" 400]) simp_all
  ultimately show ?thesis unfolding leap_def by presburger
qed

lemma days_before_next: "days_before (y + 1) = days_before y + (if leap y then 366 else 365)"
proof -
  define A B C where abc: "A = (y - 1) div 4" "B = (y - 1) div 100" "C = (y - 1) div 400"
  have "y div 4 = A + (if 4 dvd y then 1 else 0)" "y div 100 = B + (if 100 dvd y then 1 else 0)" "y div 400 = C + (if 400 dvd y then 1 else 0)"
    unfolding abc by (rule div_next; simp)+
  then have "days_before (y + 1) = 365 * y + A - B + C +
      ((if 4 dvd y then 1 else 0) - (if 100 dvd y then 1 else 0) + (if 400 dvd y then 1 else 0))"
    unfolding days_before_def Let_def add_diff_cancel_right' by (simp only: algebra_simps)
  moreover have "days_before y = 365 * (y - 1) + A - B + C" unfolding days_before_def Let_def abc ..
  ultimately show ?thesis unfolding leap_divs by simp
qed

lemma sum_month_lengths: "sum_list (month_lengths y) = days_before (y + 1) - days_before y"
  by (simp add: days_before_next month_lengths_def)

lemma days_before_mono: "y < y' \<Longrightarrow> days_before (y + 1) \<le> days_before y'"
proof (induction y' rule: int_gr_induct [of y])
  case (step i)
  then show ?case using days_before_next [of i] by (simp split: if_splits)
qed simp_all

text \<open>The year of a day: the estimate from the mean year is off by at most one.\<close>

definition year_of :: "int \<Rightarrow> int" where
  "year_of d = (let y = (400 * d) div 146097 + 1
     in if d < days_before y then y - 1 else if days_before (y + 1) \<le> d then y + 1 else y)"

lemma days_before_bounds:
  "146097 * (y - 1) - 699 \<le> 400 * days_before y" "400 * days_before y \<le> 146097 * (y - 1) + 396"
proof -
  define n A B C a b c where n_def: "n = y - 1" and defs: "A = n div 4" "B = n div 100" "C = n div 400" "a = n mod 4" "b = n mod 100" "c = n mod 400"
  have q: "n = 4 * A + a" "n = 100 * B + b" "n = 400 * C + c" unfolding defs by simp_all
  have r: "0 \<le> a" "a < 4" "0 \<le> b" "b < 100" "0 \<le> c" "c < 400" unfolding defs by simp_all
  have "days_before y = 365 * n + A - B + C" unfolding days_before_def n_def [symmetric] Let_def defs ..
  with q r show "146097 * (y - 1) - 699 \<le> 400 * days_before y" "400 * days_before y \<le> 146097 * (y - 1) + 396"
    unfolding n_def [symmetric] by linarith+
qed

lemma year_of_bounds: "days_before (year_of d) \<le> d" "d < days_before (year_of d + 1)"
proof -
  define n r where n_def: "n = (400 * d) div 146097" and r_def: "r = (400 * d) mod 146097"
  have m: "400 * d = 146097 * n + r" unfolding n_def r_def by simp
  have r: "0 \<le> r" "r < 146097" unfolding r_def by simp_all
  have "400 * days_before n \<le> 400 * d" unfolding m using days_before_bounds(2) [of n] r by (simp add: algebra_simps)
  then have lo: "days_before n \<le> d" by simp
  have "400 * d < 400 * days_before (n + 3)" unfolding m using days_before_bounds(1) [of "n + 3"] r by (simp add: algebra_simps)
  then have hi: "d < days_before (n + 3)" by simp
  have y: "year_of d = (if d < days_before (n + 1) then n else if days_before (n + 2) \<le> d then n + 2 else n + 1)"
    by (simp add: year_of_def n_def Let_def add.assoc)
  show "days_before (year_of d) \<le> d" "d < days_before (year_of d + 1)" using lo hi unfolding y by (auto simp: add.assoc)
qed

lemma year_of_unique:
  assumes "days_before y \<le> d" "d < days_before (y + 1)"
  shows "year_of d = y"
proof (rule ccontr)
  assume "year_of d \<noteq> y"
  then consider "year_of d < y" | "y < year_of d" by linarith
  then show False
    using days_before_mono [of "year_of d" y] days_before_mono [of y "year_of d"] year_of_bounds [of d] assms by cases linarith+
qed

text \<open>The month and the day within the year, by running through the months.\<close>

fun split_days :: "int list \<Rightarrow> int \<Rightarrow> nat \<times> int" where
  "split_days [] k = (0, k)"
| "split_days (m # ms) k = (if k < m then (0, k) else (case split_days ms (k - m) of (i, j) \<Rightarrow> (Suc i, j)))"

lemma split_days_sound:
  assumes "split_days ms k = (i, j)" "0 \<le> k" "k < sum_list ms"
  shows "i < length ms \<and> 0 \<le> j \<and> j < ms ! i \<and> k = sum_list (take i ms) + j"
  using assms by (induction ms k arbitrary: i j rule: split_days.induct) (fastforce split: if_splits prod.splits)+

lemma split_days_complete:
  assumes "i < length ms" "0 \<le> j" "j < ms ! i" "\<forall>m \<in> set ms. 0 \<le> m"
  shows "split_days ms (sum_list (take i ms) + j) = (i, j)"
  using assms
proof (induction ms arbitrary: i)
  case (Cons m ms)
  show ?case
  proof (cases i)
    case (Suc i')
    have "0 \<le> sum_list (take i' ms)" using Cons.prems(4) by (auto intro!: sum_list_nonneg dest: in_set_takeD)
    with Suc Cons show ?thesis by simp
  qed (use Cons.prems in simp)
qed simp

section \<open>Instants and dates\<close>

record civil =
  cv_Year :: int
  cv_Month :: int
  cv_Day :: int
  cv_Hour :: int
  cv_Minute :: int
  cv_Second :: int

definition UTC :: "gotime \<Rightarrow> civil" where
  \<comment> \<open>\<open>t.UTC()\<close> with its accessors\<close>
  "UTC t = (let secs = t div second; day = secs div 86400 + 719162; rest = secs mod 86400;
      y = year_of day; (i, j) = split_days (month_lengths y) (day - days_before y)
    in \<lparr>cv_Year = y, cv_Month = int i + 1, cv_Day = j + 1, cv_Hour = rest div 3600, cv_Minute = rest mod 3600 div 60, cv_Second = rest mod 60\<rparr>)"

definition Date :: "int \<Rightarrow> int \<Rightarrow> int \<Rightarrow> int \<Rightarrow> int \<Rightarrow> int \<Rightarrow> gotime" where
  \<comment> \<open>\<open>time.Date(\<dots>, 0, time.UTC)\<close>, which normalises months and lets the smaller units run over\<close>
  "Date y mon d h mi s = (let y' = y + (mon - 1) div 12; i = nat ((mon - 1) mod 12)
    in ((days_before y' + sum_list (take i (month_lengths y')) + d - 1 - 719162) * 86400 + h * 3600 + mi * 60 + s) * second)"

lemma UTC_eq:
  assumes "secs = t div second" "day = secs div 86400 + 719162" "rest = secs mod 86400" "y = year_of day"
    "split_days (month_lengths y) (day - days_before y) = (i, j)"
  shows "UTC t = \<lparr>cv_Year = y, cv_Month = int i + 1, cv_Day = j + 1, cv_Hour = rest div 3600, cv_Minute = rest mod 3600 div 60,
    cv_Second = rest mod 60\<rparr>"
  unfolding UTC_def Let_def assms(1-4) [symmetric] assms(5) by simp

lemma month_lengths_facts: "length (month_lengths y) = 12" "\<forall>m \<in> set (month_lengths y). 0 \<le> m"
  by (simp_all add: month_lengths_def)

lemma clock_split: "(x :: int) div 3600 * 3600 + x mod 3600 div 60 * 60 + x mod 60 = x"
proof -
  have "x mod 60 = x mod 3600 mod 60" by (simp add: mod_mod_cancel)
  then show ?thesis using div_mult_mod_eq [of x 3600] div_mult_mod_eq [of "x mod 3600" 60] by linarith
qed

lemma Date_UTC:
  "(case UTC t of c \<Rightarrow> Date (cv_Year c) (cv_Month c) (cv_Day c) (cv_Hour c) (cv_Minute c) (cv_Second c)) = t div second * second"
proof -
  define secs day rest y where defs: "secs = t div second" "day = secs div 86400 + 719162" "rest = secs mod 86400" "y = year_of day"
  obtain i j where ij: "split_days (month_lengths y) (day - days_before y) = (i, j)" by fastforce
  have "0 \<le> day - days_before y" "day - days_before y < sum_list (month_lengths y)"
    using year_of_bounds [of day] by (simp_all add: defs(4) sum_month_lengths)
  from split_days_sound [OF ij this] have d: "i < 12" "day = days_before y + sum_list (take i (month_lengths y)) + j"
    by (simp_all add: month_lengths_facts)
  note u = UTC_eq [OF defs ij]
  have "secs = (day - 719162) * 86400 + rest" unfolding defs by simp
  moreover have "Date y (int i + 1) (j + 1) (rest div 3600) (rest mod 3600 div 60) (rest mod 60) =
      ((day - 719162) * 86400 + (rest div 3600 * 3600 + rest mod 3600 div 60 * 60 + rest mod 60)) * second"
    unfolding Date_def Let_def using d by (simp add: algebra_simps)
  ultimately show ?thesis unfolding u clock_split by (simp add: defs(1))
qed

section \<open>The device\<close>

record rtc_time =
  rt_Sec :: int
  rt_Min :: int
  rt_Hour :: int
  rt_Mday :: int
  rt_Mon :: int
  rt_Year :: int

datatype rtc_error = ErrRTCUnavailable | RTCReadError string string | RTCWriteError string string

definition int32 :: "int \<Rightarrow> int" where
  "int32 x = (x + 2147483648) mod 4294967296 - 2147483648"

lemma int32_id: "- 2147483648 \<le> x \<Longrightarrow> x < 2147483648 \<Longrightarrow> int32 x = x"
  unfolding int32_def by (subst mod_pos_pos_trivial) simp_all

text \<open>\<open>can_open\<close> is whether the device file opens with the mode asked for, \<open>get\<close> and \<open>set\<close> are the ioctls.\<close>

definition hwRTC_Read :: "string \<Rightarrow> bool \<Rightarrow> ('d \<Rightarrow> string + rtc_time) \<Rightarrow> 'd \<Rightarrow> rtc_error + gotime" where
  "hwRTC_Read device can_open get d =
     (if \<not> can_open then Inl ErrRTCUnavailable
      else (case get d of
              Inl err \<Rightarrow> Inl (RTCReadError device err)
            | Inr rt \<Rightarrow> Inr (Date (rt_Year rt + 1900) (rt_Mon rt + 1) (rt_Mday rt) (rt_Hour rt) (rt_Min rt) (rt_Sec rt))))"

definition hwRTC_Write :: "string \<Rightarrow> bool \<Rightarrow> (rtc_time \<Rightarrow> 'd \<Rightarrow> string option \<times> 'd) \<Rightarrow> gotime \<Rightarrow> 'd \<Rightarrow> rtc_error option \<times> 'd" where
  "hwRTC_Write device can_open set_time t d =
     (if \<not> can_open then (Some ErrRTCUnavailable, d)
      else (let c = UTC t;
                rt = \<lparr>rt_Sec = int32 (cv_Second c), rt_Min = int32 (cv_Minute c), rt_Hour = int32 (cv_Hour c), rt_Mday = int32 (cv_Day c),
                  rt_Mon = int32 (cv_Month c - 1), rt_Year = int32 (cv_Year c - 1900)\<rparr>
            in case set_time rt d of
                 (Some err, d') \<Rightarrow> (Some (RTCWriteError device err), d')
               | (None, d') \<Rightarrow> (None, d')))"

definition unsupportedRTC_Read :: "rtc_error + gotime" where "unsupportedRTC_Read = Inl ErrRTCUnavailable"
definition unsupportedRTC_Write :: "gotime \<Rightarrow> rtc_error option" where "unsupportedRTC_Write t = Some ErrRTCUnavailable"

section \<open>Dates are dates\<close>

definition valid_civil :: "civil \<Rightarrow> bool" where
  "valid_civil c \<longleftrightarrow> 1 \<le> cv_Month c \<and> cv_Month c \<le> 12 \<and> 1 \<le> cv_Day c \<and>
     cv_Day c \<le> month_lengths (cv_Year c) ! nat (cv_Month c - 1) \<and>
     0 \<le> cv_Hour c \<and> cv_Hour c < 24 \<and> 0 \<le> cv_Minute c \<and> cv_Minute c < 60 \<and> 0 \<le> cv_Second c \<and> cv_Second c < 60"

lemma month_length_bound: "i < 12 \<Longrightarrow> month_lengths y ! i \<le> 31"
proof -
  assume "i < 12"
  moreover have "\<forall>m \<in> set (month_lengths y). m \<le> 31" by (simp add: month_lengths_def)
  ultimately show ?thesis using month_lengths_facts(1) [of y] by (simp add: all_set_conv_all_nth)
qed

lemma day_time_bounds:
  assumes "0 \<le> (x :: int)" "x < 86400"
  shows "0 \<le> x div 3600" "x div 3600 < 24" "0 \<le> x mod 3600 div 60" "x mod 3600 div 60 < 60"
proof -
  show "0 \<le> x div 3600" using assms(1) by (simp add: pos_imp_zdiv_nonneg_iff)
  have "x div 3600 \<le> 86399 div 3600" by (rule zdiv_mono1) (use assms(2) in simp_all)
  then show "x div 3600 < 24" by simp
  have "0 \<le> x mod 3600" "x mod 3600 \<le> 3599" using pos_mod_bound [of 3600 x] by simp_all
  then show "0 \<le> x mod 3600 div 60" by (simp add: pos_imp_zdiv_nonneg_iff)
  have "x mod 3600 div 60 \<le> 3599 div 60" by (rule zdiv_mono1) (use \<open>x mod 3600 \<le> 3599\<close> in simp_all)
  then show "x mod 3600 div 60 < 60" by simp
qed

lemma UTC_valid: "valid_civil (UTC t)"
proof -
  define secs day rest y where defs: "secs = t div second" "day = secs div 86400 + 719162" "rest = secs mod 86400" "y = year_of day"
  obtain i j where ij: "split_days (month_lengths y) (day - days_before y) = (i, j)" by fastforce
  have "0 \<le> day - days_before y" "day - days_before y < sum_list (month_lengths y)"
    using year_of_bounds [of day] by (simp_all add: defs(4) sum_month_lengths)
  from split_days_sound [OF ij this] have d: "i < 12" "0 \<le> j" "j < month_lengths y ! i" by (simp_all add: month_lengths_facts)
  have r: "0 \<le> rest" "rest < 86400" by (simp_all add: defs(3))
  note u = UTC_eq [OF defs ij]
  from d day_time_bounds [OF r] show ?thesis unfolding u valid_civil_def by simp
qed

lemma day_time_unique:
  assumes "0 \<le> h" "h < 24" "0 \<le> m" "m < 60" "0 \<le> s" "s < (60 :: int)"
  defines "x \<equiv> h * 3600 + m * 60 + s"
  shows "0 \<le> x" "x < 86400" "x div 3600 = h" "x mod 3600 div 60 = m" "x mod 60 = s"
proof -
  show "0 \<le> x" "x < 86400" unfolding x_def using assms(1-6) by simp_all
  have "x = 3600 * h + (m * 60 + s)" by (simp add: x_def)
  moreover have b: "0 \<le> m * 60 + s" "m * 60 + s < 3600" using assms(1-6) by simp_all
  ultimately show "x div 3600 = h" by (rule int_div_pos_eq)
  have "x mod 3600 = m * 60 + s" by (rule int_mod_pos_eq [of _ 3600 h]) (use b in \<open>simp_all add: x_def\<close>)
  then show "x mod 3600 div 60 = m" using assms(5,6) by (intro int_div_pos_eq [of _ 60 m s]) simp_all
  have "x = 60 * (h * 60 + m) + s" by (simp add: x_def algebra_simps)
  then show "x mod 60 = s" by (rule int_mod_pos_eq) (fact assms)+
qed

lemma UTC_Date:
  assumes "valid_civil c"
  shows "UTC (Date (cv_Year c) (cv_Month c) (cv_Day c) (cv_Hour c) (cv_Minute c) (cv_Second c)) = c"
proof -
  define y i j x where defs: "y = cv_Year c" "i = nat (cv_Month c - 1)" "j = cv_Day c - 1" "x = cv_Hour c * 3600 + cv_Minute c * 60 + cv_Second c"
  have v: "i < 12" "0 \<le> j" "j < month_lengths y ! i" "cv_Month c = int i + 1" using assms by (auto simp: valid_civil_def defs)
  note x = day_time_unique [of "cv_Hour c" "cv_Minute c" "cv_Second c", folded defs(4)]
  have x': "0 \<le> x" "x < 86400" "x div 3600 = cv_Hour c" "x mod 3600 div 60 = cv_Minute c" "x mod 60 = cv_Second c"
    by (rule x; use assms in \<open>simp add: valid_civil_def\<close>)+
  define k where "k = sum_list (take i (month_lengths y)) + j"
  have split: "split_days (month_lengths y) k = (i, j)"
    unfolding k_def by (rule split_days_complete) (use v in \<open>simp_all add: month_lengths_facts\<close>)
  have k: "0 \<le> k" "k < days_before (y + 1) - days_before y"
  proof -
    have nn: "0 \<le> sum_list (take i (month_lengths y))" "0 \<le> sum_list (drop (Suc i) (month_lengths y))"
      using month_lengths_facts(2) [of y] by (auto intro!: sum_list_nonneg dest: in_set_takeD in_set_dropD)
    have "month_lengths y = take i (month_lengths y) @ month_lengths y ! i # drop (Suc i) (month_lengths y)"
      using v(1) by (simp add: id_take_nth_drop [symmetric] month_lengths_facts)
    then have "sum_list (month_lengths y) = sum_list (take i (month_lengths y)) + (month_lengths y ! i + sum_list (drop (Suc i) (month_lengths y)))"
      by (metis sum_list.Cons sum_list_append)
    with nn v(2,3) show "0 \<le> k" "k < days_before (y + 1) - days_before y" by (simp_all add: k_def sum_month_lengths [symmetric])
  qed
  define n where "n = days_before y + k"
  have yn: "year_of n = y" unfolding n_def by (rule year_of_unique) (use k in simp_all)
  have date: "Date y (cv_Month c) (cv_Day c) (cv_Hour c) (cv_Minute c) (cv_Second c) = ((n - 719162) * 86400 + x) * second"
  proof -
    have m: "(cv_Month c - 1) div 12 = 0" "nat ((cv_Month c - 1) mod 12) = i" using v(1) by (simp_all add: v(4))
    have "days_before y + sum_list (take i (month_lengths y)) + cv_Day c - 1 = n" by (simp add: n_def k_def defs(3))
    then show ?thesis unfolding Date_def Let_def m defs(4) by (simp add: add.assoc)
  qed
  have "((n - 719162) * 86400 + x) * second div second = (n - 719162) * 86400 + x" by (simp add: second_def)
  moreover have "((n - 719162) * 86400 + x) div 86400 = n - 719162" "((n - 719162) * 86400 + x) mod 86400 = x"
    by (rule int_div_pos_eq [of _ 86400 _ x] int_mod_pos_eq [of _ 86400 "n - 719162"], simp only: mult.commute, fact x', fact x')+
  ultimately have "UTC (((n - 719162) * 86400 + x) * second) = \<lparr>cv_Year = y, cv_Month = int i + 1, cv_Day = j + 1,
      cv_Hour = x div 3600, cv_Minute = x mod 3600 div 60, cv_Second = x mod 60\<rparr>"
    using yn split by (intro UTC_eq [of "(n - 719162) * 86400 + x" _ n]) (simp_all add: n_def)
  also have "\<dots> = c" unfolding x'(3-5) v(4) [symmetric] defs(1,3) by simp
  finally show ?thesis unfolding date defs(1) [symmetric] .
qed

text \<open>\<open>isPlausible\<close> is stated on instants; it is the year that is checked.\<close>

lemma le_div_iff: "0 < b \<Longrightarrow> a \<le> t div b \<longleftrightarrow> a * b \<le> (t :: int)"
proof
  assume b: "0 < b"
  show "a * b \<le> t" if "a \<le> t div b"
    using mult_right_mono [OF that, of b] pos_mod_sign [OF b, of t] div_mult_mod_eq [of t b] b by linarith
  show "a \<le> t div b" if "a * b \<le> t" using zdiv_mono1 [OF that b] b by simp
qed

lemma le_div: "k \<le> t div second div 86400 + 719162 \<longleftrightarrow> (k - 719162) * 86400 * second \<le> t"
proof -
  have "k \<le> t div second div 86400 + 719162 \<longleftrightarrow> k - 719162 \<le> t div second div 86400" by (rule diff_le_eq [symmetric])
  also have "\<dots> \<longleftrightarrow> (k - 719162) * 86400 \<le> t div second" by (rule le_div_iff) simp
  also have "\<dots> \<longleftrightarrow> (k - 719162) * 86400 * second \<le> t" by (rule le_div_iff) (simp add: second_def)
  finally show ?thesis .
qed

lemma isPlausible_year: "isPlausible t \<longleftrightarrow> 2020 \<le> cv_Year (UTC t) \<and> cv_Year (UTC t) \<le> 2100"
proof -
  define d where "d = t div second div 86400 + 719162"
  have y: "cv_Year (UTC t) = year_of d" by (simp add: UTC_def Let_def d_def split: prod.split)
  have db: "days_before 2020 = 737424" "days_before 2101 = 767009" by (simp_all add: days_before_def)
  have "2020 \<le> year_of d \<longleftrightarrow> 737424 \<le> d"
    using year_of_bounds [of d] days_before_mono [of "year_of d" 2020] days_before_mono [of 2019 "year_of d"] db by force
  moreover have "year_of d \<le> 2100 \<longleftrightarrow> d < 767009"
    using year_of_bounds [of d] days_before_mono [of "year_of d" 2101] days_before_mono [of 2100 "year_of d"] db by force
  moreover have "737424 \<le> d \<longleftrightarrow> 1577836800 * second \<le> t" "767009 \<le> d \<longleftrightarrow> 4133980800 * second \<le> t"
    unfolding d_def le_div by simp_all
  ultimately show ?thesis unfolding isPlausible_def y by linarith
qed

section \<open>The clock keeps the time\<close>

definition rtc_reading :: "rtc_error + gotime \<Rightarrow> gotime option" where
  \<comment> \<open>what \<open>checkRTC\<close> makes of the result of \<open>Read\<close>\<close>
  "rtc_reading r = (case r of Inl e \<Rightarrow> None | Inr t \<Rightarrow> Some t)"

lemma hwRTC_roundtrip:
  assumes kept: "\<And>rt d d'. set_time rt d = (None, d') \<Longrightarrow> get d' = Inr rt"
    and done_ok: "hwRTC_Write device can_open set_time t d = (None, d')"
    and year: "- 2147481748 \<le> cv_Year (UTC t)" "cv_Year (UTC t) < 2147485548"
  shows "hwRTC_Read device True get d' = Inr (t div second * second)"
proof -
  define c where "c = UTC t"
  have v: "valid_civil c" unfolding c_def by (rule UTC_valid)
  have "month_lengths (cv_Year c) ! nat (cv_Month c - 1) \<le> 31" by (rule month_length_bound) (use v in \<open>auto simp: valid_civil_def\<close>)
  with v year have ids: "int32 (cv_Second c) = cv_Second c" "int32 (cv_Minute c) = cv_Minute c" "int32 (cv_Hour c) = cv_Hour c"
    "int32 (cv_Day c) = cv_Day c" "int32 (cv_Month c - 1) = cv_Month c - 1" "int32 (cv_Year c - 1900) = cv_Year c - 1900"
    unfolding c_def [symmetric] by (auto simp: valid_civil_def intro!: int32_id)
  let ?rt = "\<lparr>rt_Sec = cv_Second c, rt_Min = cv_Minute c, rt_Hour = cv_Hour c, rt_Mday = cv_Day c, rt_Mon = cv_Month c - 1, rt_Year = cv_Year c - 1900\<rparr>"
  have "set_time ?rt d = (None, d')"
    using done_ok ids unfolding hwRTC_Write_def Let_def c_def [symmetric] by (auto split: if_splits prod.splits option.splits)
  from kept [OF this] have "hwRTC_Read device True get d' =
      Inr (Date (cv_Year c) (cv_Month c) (cv_Day c) (cv_Hour c) (cv_Minute c) (cv_Second c))"
    by (simp add: hwRTC_Read_def)
  with Date_UTC [of t] show ?thesis by (simp add: c_def)
qed

text \<open>C30: with a clock chip that keeps what it is set to, a successful NTP synchronisation leaves the corrected time in it, to the
  second. After a reboot without an answer of the NTP server the service reports the quality RTC and shows exactly that time.\<close>

theorem rtc_carries_time_over_reboot:
  assumes kept: "\<forall>rt d d'. set_time rt d = (None, d') \<longrightarrow> get d' = Inr rt"
    and synced: "syncOnce rtc ex now local s = (s', Some w)" "isPlausible w"
    and written: "hwRTC_Write device True set_time w d = (None, d')"
    and no_answer: "queryNTP ex' = Inl e"
  shows "\<exists>offset. queryNTP ex = Inr offset \<and> w = now + offset \<and>
    (let st = sv_tstatus (fst (syncOnce (rtc_reading (hwRTC_Read device True get d')) ex' now' local' (New_time cfg tz)))
     in ts_TimeQuality st = QualityRTC \<and> ts_RTCTime st = Some (w div second * second))"
proof -
  have "2020 \<le> cv_Year (UTC w)" "cv_Year (UTC w) \<le> 2100" using synced(2) by (simp_all add: isPlausible_year)
  with kept have "hwRTC_Read device True get d' = Inr (w div second * second)"
    by (intro hwRTC_roundtrip [OF _ written]) simp_all
  with no_answer synced(1) show ?thesis
    by (auto simp: syncOnce_def checkRTC_def degrade_def rtc_reading_def Let_def split: if_splits sum.splits)
qed

definition on_time_reply :: "byte list" where
  \<comment> \<open>both time stamps are 14 November 2023, 22:13:20\<close>
  "on_time_reply = [0x1C, 2] @ replicate 30 0 @ [0xE8, 0xFE, 0x6F, 0x80, 0, 0, 0, 0] @ [0xE8, 0xFE, 0x6F, 0x80, 0, 0, 0, 0]"

lemma on_time: "queryNTP (ExReply (1700000000 * second) on_time_reply (1700000000 * second)) = Inr 0"
  by (simp add: queryNTP_def on_time_reply_def ntpTimestampToTime_def be32_def Sub_def wrap64_def ntpEpoch_def second_def
      minDuration_def maxDuration_def nth_append)

definition lan_time :: time_cfg where
  "lan_time = \<lparr>t_NTPServer = ''10.0.0.1'', t_SyncInterval = 0, t_QueryTimeout = 0, t_RTCDevice = []\<rparr>"

theorem rtc_carries_time_over_reboot_witness:
  "\<exists>d. hwRTC_Write ''/dev/rtc0'' True (\<lambda>rt d. (None, rt)) (1700000000 * second + 5) \<lparr>rt_Sec = 0, rt_Min = 0, rt_Hour = 0, rt_Mday = 1, rt_Mon = 0, rt_Year = 70\<rparr> = (None, d) \<and>
     ts_RTCTime (sv_tstatus (fst (syncOnce (rtc_reading (hwRTC_Read ''/dev/rtc0'' True Inr d)) (ExFail (NtpRead ''timeout'')) 0 0 (New_time lan_time [])))) =
       Some (1700000000 * second)"
proof -
  let ?w = "1700000000 * second + 5"
  let ?d0 = "\<lparr>rt_Sec = 0, rt_Min = 0, rt_Hour = 0, rt_Mday = 1, rt_Mon = 0, rt_Year = 70\<rparr>"
  obtain d where d: "hwRTC_Write ''/dev/rtc0'' True (\<lambda>rt d. (None, rt)) ?w ?d0 = (None, d)" by (simp add: hwRTC_Write_def Let_def)
  obtain s' where s: "syncOnce None (ExReply (1700000000 * second) on_time_reply (1700000000 * second)) ?w 0 (New_time lan_time []) = (s', Some ?w)"
    by (simp add: syncOnce_def on_time checkRTC_def New_time_def lan_time_def Let_def)
  have p: "isPlausible ?w" by (simp add: isPlausible_def second_def)
  have e: "queryNTP (ExFail (NtpRead ''timeout'')) = Inl (NtpRead ''timeout'')" by (simp add: queryNTP_def)
  have "?w div second * second = 1700000000 * second" by (simp add: second_def)
  with rtc_carries_time_over_reboot [OF _ s p d e, of Inr 0 0 lan_time "[]"] d show ?thesis by (auto simp: Let_def)
qed

end
