(* ===== verification/Schema.thy ===== *)
theory Schema
  imports ConfigStore
begin

text \<open>
  The database schema over its versions. The migration \<open>src/gateway/migrations/0004_connection_split.sql\<close> rewrites an existing configuration:
  it splits every device of the old flat table into a connection and a device that refers to it, by inserting one connection per
  device under a name made of the device's name and id, and joining on that name. \<open>0005_scan_polling.sql\<close> then drops the polling intervals
  and gives connections their delay. The result is the configuration database of the running gateway.

  The demo seed (\<open>src/gateway/cmd/gateway/devseed.go\<close>) writes rows by column name; the columns a table has are those of the last migration.
\<close>

section \<open>The configuration before the split\<close>

record legacy_device =
  ld_id :: int
  ld_name :: string
  ld_protocol :: string
  ld_interface :: "string option"
  ld_ip_address :: "string option"
  ld_slave_id :: "int option"
  ld_port :: "int option"
  ld_polling_interval_ms :: int
  ld_timeout_ms :: int
  ld_retry :: int
  ld_enabled :: int
  ld_baud_rate :: int
  ld_data_bits :: int
  ld_parity :: string
  ld_stop_bits :: int

record legacy_point = dp_row +
  lp_polling_interval_ms :: int

record legacy_db =
  l_devices :: "legacy_device list"
  l_points :: "legacy_point list"
  l_dp_seq :: int

definition legacy_inv :: "legacy_db \<Rightarrow> bool" where
  \<comment> \<open>the keys and the constraints of the old schema\<close>
  "legacy_inv db \<longleftrightarrow> distinct (map ld_id (l_devices db)) \<and> distinct (map pr_id (l_points db)) \<and>
     (\<forall>d \<in> set (l_devices db). ld_protocol d \<in> {''RTU'', ''TCP''}) \<and>
     (\<forall>p \<in> set (l_points db). pr_id p \<le> l_dp_seq db \<and> pr_device_id p \<in> ld_id ` set (l_devices db) \<and>
        pr_priority p \<in> {''CRITICAL'', ''HIGH'', ''NORMAL'', ''LOW''})"

section \<open>The migrations\<close>

definition auto_name :: "legacy_device \<Rightarrow> string" where
  "auto_name d = ld_name d @ '' (auto-migrated #'' @ show_int (ld_id d) @ '')''"

definition split_connection :: "int \<Rightarrow> legacy_device \<Rightarrow> conn_row" where
  \<comment> \<open>\<open>enabled\<close> and, from 0005, \<open>next_device_delay_ms\<close> take their defaults\<close>
  "split_connection i d = \<lparr>cr_id = i, cr_name = auto_name d, cr_protocol = ld_protocol d, cr_interface = ld_interface d,
     cr_ip_address = ld_ip_address d, cr_port = ld_port d, cr_timeout_ms = ld_timeout_ms d, cr_retry = ld_retry d, cr_enabled = 1,
     cr_next_device_delay_ms = 250, cr_baud_rate = ld_baud_rate d, cr_data_bits = ld_data_bits d, cr_parity = ld_parity d,
     cr_stop_bits = ld_stop_bits d\<rparr>"

definition split_device :: "legacy_device \<Rightarrow> conn_row \<Rightarrow> dev_row" where
  "split_device d c = \<lparr>dr_id = ld_id d, dr_name = ld_name d, dr_connection_id = cr_id c, dr_slave_id = ld_slave_id d, dr_enabled = ld_enabled d\<rparr>"

text \<open>The statements of 0004 in order. Neither SELECT orders its rows: \<open>scan1\<close> and \<open>scan2\<close> are the orders SQLite picks.\<close>

definition insert_connections :: "(legacy_device list \<Rightarrow> legacy_device list) \<Rightarrow> legacy_device list \<Rightarrow> conn_row list" where
  "insert_connections scan1 ds = map (\<lambda>(n, d). split_connection (int n + 1) d) (enumerate 0 (scan1 ds))"

definition join_devices :: "(legacy_device list \<Rightarrow> legacy_device list) \<Rightarrow> conn_row list \<Rightarrow> legacy_device list \<Rightarrow> dev_row list" where
  "join_devices scan2 cs ds = concat (map (\<lambda>d. map (split_device d) (filter (\<lambda>c. cr_name c = auto_name d) cs)) (scan2 ds))"

definition upgrade ::
  "(legacy_device list \<Rightarrow> legacy_device list) \<Rightarrow> (legacy_device list \<Rightarrow> legacy_device list) \<Rightarrow> legacy_db \<Rightarrow> cfgdb" where
  "upgrade scan1 scan2 db =
     (let cs = insert_connections scan1 (l_devices db)
      in \<lparr>connections = cs, conn_seq = int (length cs), devices = join_devices scan2 cs (l_devices db),
          datapoints = map dp_row.truncate (l_points db), dp_seq = l_dp_seq db\<rparr>)"

section \<open>The generated names are unique\<close>

fun read_nat :: "nat \<Rightarrow> string \<Rightarrow> nat" where
  "read_nat v [] = v"
| "read_nat v (c # cs) = read_nat (10 * v + (of_char c - 48)) cs"

lemma read_nat_append: "read_nat v (s @ t) = read_nat (read_nat v s) t"
  by (induction s arbitrary: v) simp_all

lemma read_show: "read_nat 0 (show_nat n) = n"
proof (induction n rule: less_induct)
  case (less n)
  show ?case
  proof (cases "n < 10")
    case True
    then show ?thesis by (simp add: show_nat.simps [of n])
  next
    case False
    then have "read_nat 0 (show_nat (n div 10)) = n div 10" by (intro less.IH) simp
    moreover have "48 + n mod 10 < 256" by (rule le_less_trans [of _ 57]) simp_all
    ultimately show ?thesis using False by (simp add: show_nat.simps [of n] read_nat_append)
  qed
qed

lemma show_nat_digits: "\<forall>c \<in> set (show_nat n). 48 \<le> (of_char c :: nat) \<and> (of_char c :: nat) < 58"
proof (induction n rule: less_induct)
  case (less n)
  have digit: "48 \<le> (of_char (char_of (48 + k) :: char) :: nat) \<and> (of_char (char_of (48 + k) :: char) :: nat) < 58" if "k < 10" for k :: nat
    using that by simp
  show ?case
  proof (cases "n < 10")
    case True
    then show ?thesis using digit [of n] by (simp add: show_nat.simps [of n])
  next
    case False
    then have "n div 10 < n" by simp
    with False less.IH [of "n div 10"] digit [of "n mod 10"] show ?thesis by (simp add: show_nat.simps [of n])
  qed
qed

lemma show_int_chars: "CHR ''#'' \<notin> set (show_int i)" "CHR ''-'' \<notin> set (show_nat n)"
  using show_nat_digits by (auto simp: show_int_def) fastforce+

lemma show_nat_eq: "show_nat m = show_nat n \<longleftrightarrow> m = n"
  by (metis read_show)

lemma show_nat_nonempty: "show_nat n \<noteq> []"
  by (simp add: show_nat.simps [of n])

lemma show_int_eq: "show_int i = show_int j \<longleftrightarrow> i = j"
proof
  assume eq: "show_int i = show_int j"
  have hd: "show_nat n = CHR ''-'' # s \<Longrightarrow> False" for n s using show_int_chars(2) [of n] by simp
  from eq show "i = j"
    by (auto simp: show_int_def show_nat_eq split: if_splits dest: hd [OF sym] hd)
qed simp

lemma auto_name_id:
  assumes "auto_name d = auto_name d'"
  shows "ld_id d = ld_id d'"
proof -
  have tail: "takeWhile (\<lambda>c. c \<noteq> CHR ''#'') (rev (auto_name d)) = CHR '')'' # rev (show_int (ld_id d))" for d
  proof -
    have "rev (auto_name d) = (CHR '')'' # rev (show_int (ld_id d))) @ CHR ''#'' # rev (ld_name d @ '' (auto-migrated '')"
      by (simp add: auto_name_def)
    moreover have "takeWhile (\<lambda>c. c \<noteq> CHR ''#'') (rev (show_int (ld_id d)) @ CHR ''#'' # rev (ld_name d @ '' (auto-migrated '')) = rev (show_int (ld_id d))"
      using show_int_chars(1) [of "ld_id d"] by (subst takeWhile_append2) auto
    ultimately show ?thesis by simp
  qed
  from assms tail [of d] tail [of d'] have "show_int (ld_id d) = show_int (ld_id d')" by simp
  then show ?thesis by (simp add: show_int_eq)
qed

section \<open>The upgrade keeps the configuration\<close>

lemma split_connection_simps [simp]: "cr_id (split_connection i d) = i" "cr_name (split_connection i d) = auto_name d"
  "cr_protocol (split_connection i d) = ld_protocol d"
  by (simp_all add: split_connection_def)

lemma filter_none: "d \<notin> set xs \<Longrightarrow> ld_id d \<notin> ld_id ` set xs \<Longrightarrow>
    filter (\<lambda>c. cr_name c = auto_name d) (map (\<lambda>(n, d). split_connection (int n + 1) d) (enumerate k xs)) = []"
  by (induction xs arbitrary: k) (auto dest: auto_name_id)

lemma filter_one:
  assumes "distinct (map ld_id xs)" "d \<in> set xs"
  shows "\<exists>i. filter (\<lambda>c. cr_name c = auto_name d) (map (\<lambda>(n, d). split_connection (int n + 1) d) (enumerate k xs)) = [split_connection i d]"
  using assms
proof (induction xs arbitrary: k)
  case (Cons x xs)
  show ?case
  proof (cases "d = x")
    case True
    with Cons.prems(1) have "d \<notin> set xs" "ld_id d \<notin> ld_id ` set xs" by auto
    with True filter_none show ?thesis by auto
  next
    case False
    with Cons.prems have d: "d \<in> set xs" "ld_id x \<noteq> ld_id d" by auto
    then have "auto_name x \<noteq> auto_name d" by (auto dest: auto_name_id)
    with Cons.IH [of "Suc k"] Cons.prems(1) d show ?thesis by simp
  qed
qed simp

locale table_scans =
  fixes scan1 scan2 :: "legacy_device list \<Rightarrow> legacy_device list"
  assumes perm: "mset (scan1 ds) = mset ds" "mset (scan2 ds) = mset ds"
begin

lemma set_scans [simp]: "set (scan1 ds) = set ds" "set (scan2 ds) = set ds" "length (scan1 ds) = length ds" "length (scan2 ds) = length ds"
  using perm [of ds] by (metis set_mset_mset size_mset)+

lemma distinct_scans: "distinct (map ld_id ds) \<Longrightarrow> distinct (map ld_id (scan1 ds)) \<and> distinct (map ld_id (scan2 ds))"
proof -
  have "mset (map ld_id (scan1 ds)) = mset (map ld_id ds)" "mset (map ld_id (scan2 ds)) = mset (map ld_id ds)"
    by (simp_all only: mset_map perm)
  then show "distinct (map ld_id ds) \<Longrightarrow> distinct (map ld_id (scan1 ds)) \<and> distinct (map ld_id (scan2 ds))"
    by (metis mset_eq_imp_distinct_iff)
qed

definition conn_of :: "legacy_device list \<Rightarrow> legacy_device \<Rightarrow> conn_row" where
  "conn_of ds d = hd (filter (\<lambda>c. cr_name c = auto_name d) (insert_connections scan1 ds))"

lemma conn_of:
  assumes "distinct (map ld_id ds)" "d \<in> set ds"
  shows "filter (\<lambda>c. cr_name c = auto_name d) (insert_connections scan1 ds) = [conn_of ds d]"
    "\<exists>i. conn_of ds d = split_connection i d" "conn_of ds d \<in> set (insert_connections scan1 ds)"
proof -
  have "distinct (map ld_id (scan1 ds))" "d \<in> set (scan1 ds)" using distinct_scans assms by auto
  from filter_one [OF this] obtain i where i: "filter (\<lambda>c. cr_name c = auto_name d) (insert_connections scan1 ds) = [split_connection i d]"
    unfolding insert_connections_def by blast
  then show 1: "filter (\<lambda>c. cr_name c = auto_name d) (insert_connections scan1 ds) = [conn_of ds d]"
    "\<exists>i. conn_of ds d = split_connection i d" by (auto simp: conn_of_def)
  have "conn_of ds d \<in> set (filter (\<lambda>c. cr_name c = auto_name d) (insert_connections scan1 ds))" unfolding 1(1) by simp
  then show "conn_of ds d \<in> set (insert_connections scan1 ds)" by simp
qed

lemma connections_facts:
  "map cr_id (insert_connections scan1 ds) = map (\<lambda>n. int n + 1) [0..<length ds]"
  "\<forall>c \<in> set (insert_connections scan1 ds). \<exists>d \<in> set ds. \<exists>i. c = split_connection i d"
  "length (insert_connections scan1 ds) = length ds"
proof -
  have "map cr_id (insert_connections scan1 ds) = map (\<lambda>n. int n + 1) (map fst (enumerate 0 (scan1 ds)))"
    unfolding insert_connections_def map_map by (rule map_cong) auto
  then show "map cr_id (insert_connections scan1 ds) = map (\<lambda>n. int n + 1) [0..<length ds]" by simp
  show "\<forall>c \<in> set (insert_connections scan1 ds). \<exists>d \<in> set ds. \<exists>i. c = split_connection i d"
    by (auto simp: insert_connections_def in_set_enumerate_eq) (metis nth_mem set_scans(1,3))
  show "length (insert_connections scan1 ds) = length ds" by (simp add: insert_connections_def)
qed

lemma join_map:
  assumes "distinct (map ld_id ds)"
  shows "join_devices scan2 (insert_connections scan1 ds) ds = map (\<lambda>d. split_device d (conn_of ds d)) (scan2 ds)"
proof -
  have eq: "map (\<lambda>d. map (split_device d) (filter (\<lambda>c. cr_name c = auto_name d) (insert_connections scan1 ds))) (scan2 ds) =
      map (\<lambda>d. [split_device d (conn_of ds d)]) (scan2 ds)"
    using conn_of(1) [OF assms] by (intro map_cong) simp_all
  show ?thesis unfolding join_devices_def eq by (rule concat_map_singleton)
qed

lemma own_connection:
  assumes "distinct (map ld_id ds)" "d \<in> set ds" "d' \<in> set ds" "cr_id (conn_of ds d) = cr_id (conn_of ds d')"
  shows "d = d'"
proof -
  have "distinct (map cr_id (insert_connections scan1 ds))" by (simp add: connections_facts distinct_map inj_on_def)
  with assms(4) conn_of(3) [OF assms(1)] assms(2,3) have "conn_of ds d = conn_of ds d'" by (metis distinct_map_same)
  then have "auto_name d = auto_name d'" using conn_of(2) [OF assms(1,2)] conn_of(2) [OF assms(1,3)] by (metis split_connection_simps(2))
  with assms(1-3) show ?thesis by (metis auto_name_id distinct_map_same)
qed

lemma upgrade_keeps:
  assumes "legacy_inv db"
  shows "cfg_inv (upgrade scan1 scan2 db)"
    "distinct (map dr_connection_id (devices (upgrade scan1 scan2 db)))"
    "length (devices (upgrade scan1 scan2 db)) = length (l_devices db)"
    "\<forall>d \<in> set (l_devices db). \<exists>i. split_connection i d \<in> set (connections (upgrade scan1 scan2 db)) \<and>
       split_device d (split_connection i d) \<in> set (devices (upgrade scan1 scan2 db))"
proof -
  let ?ds = "l_devices db"
  have ds: "distinct (map ld_id ?ds)" using assms by (simp add: legacy_inv_def)
  have dev: "devices (upgrade scan1 scan2 db) = map (\<lambda>d. split_device d (conn_of ?ds d)) (scan2 ?ds)"
    by (simp add: upgrade_def Let_def join_map [OF ds])
  have conn: "connections (upgrade scan1 scan2 db) = insert_connections scan1 ?ds"
    "conn_seq (upgrade scan1 scan2 db) = int (length ?ds)" by (simp_all add: upgrade_def Let_def connections_facts)
  have seq: "\<forall>c \<in> set (insert_connections scan1 ?ds). cr_id c \<le> int (length ?ds)"
  proof
    fix c assume "c \<in> set (insert_connections scan1 ?ds)"
    then have "cr_id c \<in> set (map cr_id (insert_connections scan1 ?ds))" by simp
    then show "cr_id c \<le> int (length ?ds)" unfolding connections_facts by auto
  qed
  have prot: "cr_protocol c \<in> {''RTU'', ''TCP''}" if "c \<in> set (insert_connections scan1 ?ds)" for c
    using bspec [OF connections_facts(2) that] assms by (auto simp: legacy_inv_def)
  show "cfg_inv (upgrade scan1 scan2 db)"
    unfolding cfg_inv_def dev conn
    using assms seq prot conn_of(3) [OF ds] distinct_scans [OF ds]
    by (auto simp: connections_facts distinct_map inj_on_def legacy_inv_def upgrade_def Let_def split_device_def comp_def
        dp_row.defs split_connection_def image_image)
  show "length (devices (upgrade scan1 scan2 db)) = length ?ds" by (simp add: dev)
  show "distinct (map dr_connection_id (devices (upgrade scan1 scan2 db)))"
    using distinct_scans [OF ds] own_connection [OF ds]
    by (auto simp: dev distinct_map split_device_def inj_on_def comp_def)
  show "\<forall>d \<in> set ?ds. \<exists>i. split_connection i d \<in> set (connections (upgrade scan1 scan2 db)) \<and>
       split_device d (split_connection i d) \<in> set (devices (upgrade scan1 scan2 db))"
  proof
    fix d assume d: "d \<in> set ?ds"
    obtain i where "conn_of ?ds d = split_connection i d" using conn_of(2) [OF ds d] by blast
    with conn_of(3) [OF ds d] d show "\<exists>i. split_connection i d \<in> set (connections (upgrade scan1 scan2 db)) \<and>
       split_device d (split_connection i d) \<in> set (devices (upgrade scan1 scan2 db))"
      by (intro exI [of _ i]) (force simp: conn dev)
  qed
qed

end

definition rowid_scan :: "legacy_device list \<Rightarrow> legacy_device list" where
  "rowid_scan = sort_key ld_id"

interpretation rowid: table_scans rowid_scan rowid_scan
  by unfold_locales (simp_all add: rowid_scan_def)


definition twin :: "int \<Rightarrow> string \<Rightarrow> legacy_device" where
  "twin i n = \<lparr>ld_id = i, ld_name = n, ld_protocol = ''RTU'', ld_interface = Some ''/dev/ttyUSB0'', ld_ip_address = None, ld_slave_id = Some i,
     ld_port = None, ld_polling_interval_ms = 1000, ld_timeout_ms = 1000, ld_retry = 3, ld_enabled = 1, ld_baud_rate = 9600,
     ld_data_bits = 8, ld_parity = ''N'', ld_stop_bits = 1\<rparr>"


section \<open>The demo seed\<close>

text \<open>The columns of the two tables after the first migration and after the last.\<close>

definition device_columns_0001 :: "string list" where
  "device_columns_0001 = [''id'', ''name'', ''protocol'', ''interface'', ''ip_address'', ''slave_id'', ''port'', ''polling_interval_ms'',
     ''timeout_ms'', ''retry'', ''enabled'', ''created_at'', ''updated_at'']"

definition device_columns_0004 :: "string list" where
  "device_columns_0004 = [''id'', ''name'', ''connection_id'', ''slave_id'', ''polling_interval_ms'', ''enabled'', ''created_at'', ''updated_at'']"

definition datapoint_columns_0001 :: "string list" where
  "datapoint_columns_0001 = [''id'', ''device_id'', ''tag_name'', ''function_code'', ''register_address'', ''data_type'', ''byte_order'',
     ''word_order'', ''scale'', ''offset'', ''unit'', ''polling_interval_ms'', ''priority'', ''enabled'', ''created_at'', ''updated_at'']"

definition device_columns_0005 :: "string list" where
  "device_columns_0005 = removeAll ''polling_interval_ms'' device_columns_0004"

definition datapoint_columns_0005 :: "string list" where
  "datapoint_columns_0005 = removeAll ''polling_interval_ms'' datapoint_columns_0001"

datatype sql_value = SqlText string | SqlInt int | SqlReal f64

record sql_table =
  tb_columns :: "string list"
  tb_rows :: "(string \<times> sql_value) list list"

definition sql_insert :: "fault \<Rightarrow> string list \<Rightarrow> sql_value list \<Rightarrow> sql_table \<Rightarrow> (string + int) \<times> sql_table" where
  \<comment> \<open>a statement that names a column the table does not have is rejected; the key of the row is the result\<close>
  "sql_insert flt names vals t =
     (case fault_at (AtExec 0) flt of Some m \<Rightarrow> (Inl m, t)
      | None \<Rightarrow>
          (case find (\<lambda>n. n \<notin> set (tb_columns t)) names of
             Some n \<Rightarrow> (Inl (''no such column: '' @ n), t)
           | None \<Rightarrow> (Inr (int (length (tb_rows t)) + 1), t\<lparr>tb_rows := tb_rows t @ [zip names vals]\<rparr>)))"

record seed_point =
  sp_tag :: string
  sp_fc :: int
  sp_address :: int
  sp_dataType :: string
  sp_byteOrder :: string
  sp_scale :: f64
  sp_unit :: string
  sp_pollingMs :: int

definition tenth :: f64 where "tenth = f64_div f64_one (f64_of_int 10)"

definition seed_points :: "seed_point list" where
  "seed_points =
    [\<lparr>sp_tag = ''Voltage_L1'', sp_fc = 3, sp_address = 100, sp_dataType = ''INT16'', sp_byteOrder = [], sp_scale = tenth, sp_unit = ''V'', sp_pollingMs = 2000\<rparr>,
     \<lparr>sp_tag = ''Active_Power'', sp_fc = 3, sp_address = 102, sp_dataType = ''FLOAT32'', sp_byteOrder = ''ABCD'', sp_scale = f64_one, sp_unit = ''W'', sp_pollingMs = 2000\<rparr>,
     \<lparr>sp_tag = ''Current_L1'', sp_fc = 3, sp_address = 104, sp_dataType = ''UINT16'', sp_byteOrder = [], sp_scale = tenth, sp_unit = ''A'', sp_pollingMs = 2000\<rparr>]"

definition seed_point_insert :: "int \<Rightarrow> seed_point \<times> fault \<Rightarrow> sql_table \<Rightarrow> sql_table" where
  \<comment> \<open>an error is logged and the next point is tried\<close>
  "seed_point_insert deviceID = (\<lambda>(p, flt) t. snd (sql_insert flt
     [''device_id'', ''tag_name'', ''function_code'', ''register_address'', ''data_type'', ''byte_order'', ''scale'', ''unit'', ''polling_interval_ms'', ''enabled'']
     [SqlInt deviceID, SqlText (sp_tag p), SqlInt (sp_fc p), SqlInt (sp_address p), SqlText (sp_dataType p), SqlText (sp_byteOrder p),
      SqlReal (sp_scale p), SqlText (sp_unit p), SqlInt (sp_pollingMs p), SqlInt 1] t))"

definition seed_device_columns :: "string list" where
  "seed_device_columns = [''name'', ''protocol'', ''ip_address'', ''slave_id'', ''port'', ''polling_interval_ms'', ''timeout_ms'', ''retry'', ''enabled'']"

definition seed_device_values :: "sql_value list" where
  "seed_device_values = [SqlText ''PM001'', SqlText ''TCP'', SqlText ''modbus-sim'', SqlInt 1, SqlInt 502, SqlInt 2000, SqlInt 1000, SqlInt 3, SqlInt 1]"

definition seedDemoDevice :: "fault \<Rightarrow> fault \<Rightarrow> (nat \<Rightarrow> fault) \<Rightarrow> sql_table \<times> sql_table \<Rightarrow> sql_table \<times> sql_table" where
  "seedDemoDevice fcount fdev fpoint = (\<lambda>(device, datapoint).
     (case fault_at (AtQuery 0) fcount of
        Some m \<Rightarrow> (device, datapoint)
      | None \<Rightarrow>
          if tb_rows device \<noteq> [] then (device, datapoint)
          else (case sql_insert fdev seed_device_columns seed_device_values device of
                  (Inl err, device') \<Rightarrow> (device', datapoint)
                | (Inr deviceID, device') \<Rightarrow>
                    (case fault_at (AtLastId) fdev of
                       Some m \<Rightarrow> (device', datapoint)
                     | None \<Rightarrow>
                         (device', fold (seed_point_insert deviceID) (zip seed_points (map fpoint [0..<length seed_points])) datapoint)))))"

lemma sql_insert_missing: "n \<in> set names \<Longrightarrow> n \<notin> set (tb_columns t) \<Longrightarrow> \<exists>e. sql_insert flt names vals t = (Inl e, t)"
  by (auto simp: sql_insert_def find_None_iff split: option.split)

lemma sql_insert_ok:
  "set names \<subseteq> set (tb_columns t) \<Longrightarrow> sql_insert None names vals t = (Inr (int (length (tb_rows t)) + 1), t\<lparr>tb_rows := tb_rows t @ [zip names vals]\<rparr>)"
  by (auto simp: sql_insert_def find_None_iff find_Some_iff dest: nth_mem split: option.split)

text \<open>On the schema the gateway creates, the demo seed does nothing: its first INSERT names columns that migration 0004 has moved to
  the connection table, so it fails whatever the database does. On the schema it was written for, an empty table gets its demo device
  with three data points.\<close>

theorem seed_does_nothing:
  assumes "tb_columns device = device_columns_0005"
  shows "seedDemoDevice fcount fdev fpoint (device, datapoint) = (device, datapoint)"
proof -
  have "''protocol'' \<notin> set device_columns_0005" by (simp add: device_columns_0005_def device_columns_0004_def)
  with assms have "''protocol'' \<notin> set (tb_columns device)" by simp
  moreover have "''protocol'' \<in> set seed_device_columns" by (simp add: seed_device_columns_def)
  ultimately obtain e where "sql_insert fdev seed_device_columns seed_device_values device = (Inl e, device)"
    using sql_insert_missing by blast
  then show ?thesis by (simp add: seedDemoDevice_def split: option.split)
qed

theorem seed_does_nothing_witness:
  "seedDemoDevice None None (\<lambda>_. None) (\<lparr>tb_columns = device_columns_0005, tb_rows = []\<rparr>, \<lparr>tb_columns = datapoint_columns_0005, tb_rows = []\<rparr>) =
     (\<lparr>tb_columns = device_columns_0005, tb_rows = []\<rparr>, \<lparr>tb_columns = datapoint_columns_0005, tb_rows = []\<rparr>)"
  using seed_does_nothing [of "\<lparr>tb_columns = device_columns_0005, tb_rows = []\<rparr>" None None "\<lambda>_. None"] by simp

lemma seed_point_columns:
  "tb_columns t = datapoint_columns_0001 \<Longrightarrow> tb_columns (seed_point_insert i (p, None) t) = datapoint_columns_0001 \<and>
     length (tb_rows (seed_point_insert i (p, None) t)) = Suc (length (tb_rows t))"
  unfolding seed_point_insert_def prod.case by (subst (1 2) sql_insert_ok) (simp_all add: datapoint_columns_0001_def)

lemma seed_on_first_schema:
  assumes "seedDemoDevice None None (\<lambda>_. None) (\<lparr>tb_columns = device_columns_0001, tb_rows = []\<rparr>, \<lparr>tb_columns = datapoint_columns_0001, tb_rows = []\<rparr>) =
    (device, datapoint)"
  shows "length (tb_rows device) = 1 \<and> length (tb_rows datapoint) = 3"
proof -
  have all: "tb_columns (fold (seed_point_insert i) (map (\<lambda>p. (p, None)) ps) t) = datapoint_columns_0001 \<and>
      length (tb_rows (fold (seed_point_insert i) (map (\<lambda>p. (p, None)) ps) t)) = length (tb_rows t) + length ps"
    if "tb_columns t = datapoint_columns_0001" for i ps t
    using that by (induction ps arbitrary: t) (simp_all add: seed_point_columns)
  have z: "zip seed_points (map (\<lambda>_. None) [0..<length seed_points]) = map (\<lambda>p. (p, None :: fault)) seed_points"
    by (simp add: seed_points_def upt_rec)
  have cols: "set seed_device_columns \<subseteq>
      set (tb_columns \<lparr>tb_columns = device_columns_0001, tb_rows = []\<rparr>)" by (simp add: device_columns_0001_def seed_device_columns_def)
  have "length seed_points = 3" by (simp add: seed_points_def)
  with assms all [of "\<lparr>tb_columns = datapoint_columns_0001, tb_rows = []\<rparr>" 1 seed_points] show ?thesis
    unfolding seedDemoDevice_def prod.case sql_insert_ok [OF cols] z by auto
qed

end
