(* ===== verification/Host.thy ===== *)
theory Host
  imports Panels Startup
begin

text \<open>
  The host below the gateway: its resource panel (\<open>src/gateway/internal/system/system.go\<close>), its serial ports (\<open>serial.go\<close>), the disk usage the
  storage policy looks at (\<open>src/gateway/internal/storage/diskusage.go\<close>), how the database is opened (\<open>storage.go\<close>), and the two handlers that
  show the panels (\<open>api/router.go\<close>).
  What the operating system reports comes from third-party probes and is an argument; each can fail on its own.
\<close>

section \<open>Paths\<close>

text \<open>\<open>filepath.Dir\<close> on a Unix system: everything up to the last slash, cleaned.\<close>

fun split_path :: "string \<Rightarrow> string list" where
  "split_path [] = [[]]"
| "split_path (c # cs) = (case split_path cs of e # es \<Rightarrow> if c = CHR ''/'' then [] # e # es else (c # e) # es | [] \<Rightarrow> [])"

definition clean_step :: "bool \<Rightarrow> string list \<Rightarrow> string \<Rightarrow> string list" where
  \<comment> \<open>the elements kept so far, the last first\<close>
  "clean_step rooted acc e =
     (if e = [] \<or> e = ''.'' then acc
      else if e = ''..'' then (case acc of x # xs \<Rightarrow> if x = ''..'' then e # acc else xs | [] \<Rightarrow> if rooted then [] else [e])
      else e # acc)"

fun join_path :: "string list \<Rightarrow> string" where
  "join_path [] = []"
| "join_path [e] = e"
| "join_path (e # es) = e @ CHR ''/'' # join_path es"

definition Clean :: "string \<Rightarrow> string" where
  "Clean p = (let rooted = (p \<noteq> [] \<and> hd p = CHR ''/''); es = rev (foldl (clean_step rooted) [] (split_path p))
     in if rooted then CHR ''/'' # join_path es else if es = [] then ''.'' else join_path es)"

definition Dir :: "string \<Rightarrow> string" where
  "Dir p = Clean (rev (dropWhile (\<lambda>c. c \<noteq> CHR ''/'') (rev p)))"

section \<open>Disk usage\<close>

definition DiskUsagePercent :: "(string \<Rightarrow> string + f64) \<Rightarrow> string \<Rightarrow> string + f64" where
  \<comment> \<open>\<open>usage\<close> is \<open>disk.Usage\<close>, reduced to the percentage\<close>
  "DiskUsagePercent usage dbPath = usage (Dir dbPath)"

section \<open>Opening the database\<close>

definition dsn :: "string \<Rightarrow> string" where
  "dsn path = ''file:'' @ path @ ''?_pragma=journal_mode(WAL)&_pragma=busy_timeout(5000)&_pragma=foreign_keys(ON)&_txlock=immediate''"

datatype open_error = CreateDirectory string | OpenSqlite string | NotMigrated migrate_error

definition Open_storage ::
  "(string \<Rightarrow> string option) \<Rightarrow> (string \<Rightarrow> string + 'd schema_db) \<Rightarrow> 'd sqlite_rules \<Rightarrow> string option \<Rightarrow> (string \<Rightarrow> migrate_faults) \<Rightarrow>
   string + (string \<times> bool) list \<Rightarrow> (string \<Rightarrow> string) \<Rightarrow> string \<Rightarrow> open_error + 'd schema_db" where
  \<comment> \<open>how the directory is created and what the driver opens under a DSN; the other arguments are those of \<open>migrate\<close>\<close>
  "Open_storage mkdirAll sqlOpen q create flt dir contents path =
     (case (if Dir path \<noteq> ''.'' then mkdirAll (Dir path) else None) of
        Some e \<Rightarrow> Inl (CreateDirectory e)
      | None \<Rightarrow>
          (case sqlOpen (dsn path) of
             Inl e \<Rightarrow> Inl (OpenSqlite e)
           | Inr db \<Rightarrow>
               (case migrate q create flt dir contents db of
                  (Some e, db') \<Rightarrow> Inl (NotMigrated e)
                | (None, db') \<Rightarrow> Inr db')))"

section \<open>The resource panel\<close>

record mem_stat =
  vm_UsedPercent :: f64
  vm_Total :: int
  vm_Used :: int

record host_probes =
  hp_uptime :: f64
  hp_goVersion :: string
  hp_goroutines :: int
  hp_numCPU :: int
  hp_cpu :: "string + f64 list"
  hp_mem :: "string + mem_stat"
  hp_disk :: "string \<Rightarrow> string + mem_stat"
  hp_stat :: "string \<Rightarrow> int option" \<comment> \<open>the size of a file, if it can be read\<close>
  hp_net :: "string + (int \<times> int) list"

record info =
  in_Status :: string
  in_UptimeSec :: f64
  in_GoVersion :: string
  in_Goroutines :: int
  in_NumCPU :: int
  in_CPUPercent :: "f64 option"
  in_MemUsedPct :: "f64 option"
  in_MemTotalMB :: "f64 option"
  in_MemUsedMB :: "f64 option"
  in_DiskUsedPct :: "f64 option"
  in_DiskTotalGB :: "f64 option"
  in_DiskUsedGB :: "f64 option"
  in_NetBytesSent :: "int option"
  in_NetBytesRecv :: "int option"
  in_DBSizeBytes :: "int option"

definition scaled :: "int \<Rightarrow> int \<Rightarrow> f64" where
  "scaled n unit = f64_div (f64_of_int n) (f64_of_int unit)"

definition cpu_part :: "host_probes \<Rightarrow> info \<Rightarrow> info" where
  "cpu_part h i = (case hp_cpu h of Inr (p # _) \<Rightarrow> i\<lparr>in_CPUPercent := Some p\<rparr> | _ \<Rightarrow> i)"

definition mem_part :: "host_probes \<Rightarrow> info \<Rightarrow> info" where
  "mem_part h i = (case hp_mem h of
       Inr vm \<Rightarrow> i\<lparr>in_MemUsedPct := Some (vm_UsedPercent vm), in_MemTotalMB := Some (scaled (vm_Total vm) (1024 * 1024)),
         in_MemUsedMB := Some (scaled (vm_Used vm) (1024 * 1024))\<rparr>
     | Inl _ \<Rightarrow> i)"

fun size_loop :: "(string \<Rightarrow> int option) \<Rightarrow> string \<Rightarrow> string list \<Rightarrow> int \<Rightarrow> bool \<Rightarrow> int \<times> bool" where
  "size_loop stat path [] dbSize found = (dbSize, found)"
| "size_loop stat path (sfx # ss) dbSize found =
     (case stat (path @ sfx) of
        Some n \<Rightarrow> size_loop stat path ss (wrap64 (dbSize + n)) True
      | None \<Rightarrow> size_loop stat path ss dbSize found)"

definition disk_part :: "string \<Rightarrow> host_probes \<Rightarrow> info \<Rightarrow> info" where
  "disk_part diskPath h i =
     (if diskPath = [] then i
      else
      (let i = (case hp_disk h diskPath of
                  Inr du \<Rightarrow> i\<lparr>in_DiskUsedPct := Some (vm_UsedPercent du), in_DiskTotalGB := Some (scaled (vm_Total du) (1024 * 1024 * 1024)),
                    in_DiskUsedGB := Some (scaled (vm_Used du) (1024 * 1024 * 1024))\<rparr>
                | Inl _ \<Rightarrow> i)
       in case size_loop (hp_stat h) diskPath [[], ''-wal'', ''-shm''] 0 False of
            (dbSize, found) \<Rightarrow> if found then i\<lparr>in_DBSizeBytes := Some dbSize\<rparr> else i))"

definition net_part :: "host_probes \<Rightarrow> info \<Rightarrow> info" where
  "net_part h i = (case hp_net h of Inr ((sent, recv) # _) \<Rightarrow> i\<lparr>in_NetBytesSent := Some sent, in_NetBytesRecv := Some recv\<rparr> | _ \<Rightarrow> i)"

definition Current_system :: "host_probes \<Rightarrow> string \<Rightarrow> info" where
  "Current_system h diskPath = net_part h (disk_part diskPath h (mem_part h (cpu_part h
     \<lparr>in_Status = ''ok'', in_UptimeSec = hp_uptime h, in_GoVersion = hp_goVersion h, in_Goroutines = hp_goroutines h, in_NumCPU = hp_numCPU h,
      in_CPUPercent = None, in_MemUsedPct = None, in_MemTotalMB = None, in_MemUsedMB = None, in_DiskUsedPct = None, in_DiskTotalGB = None,
      in_DiskUsedGB = None, in_NetBytesSent = None, in_NetBytesRecv = None, in_DBSizeBytes = None\<rparr>)))"

definition getSystem :: "host_probes \<Rightarrow> config \<Rightarrow> info response" where
  "getSystem h c = Reply 200 (Current_system h (cf_DatabasePath c))"

definition ListSerialPorts :: "string + string list option \<Rightarrow> string + string list" where
  \<comment> \<open>the third-party list may be nil\<close>
  "ListSerialPorts ports = (case ports of Inl e \<Rightarrow> Inl e | Inr None \<Rightarrow> Inr [] | Inr (Some ps) \<Rightarrow> Inr ps)"

definition getSerialPorts :: "string + string list option \<Rightarrow> (string + string list) \<times> int" where
  "getSerialPorts ports = (case ListSerialPorts ports of Inl e \<Rightarrow> (Inl e, 500) | Inr ps \<Rightarrow> (Inr ps, 200))"

section \<open>Properties\<close>

text \<open>The directory of the database, as configured.\<close>

lemma Dir_examples: "Dir ''data/gateway.db'' = ''data''" "Dir ''gateway.db'' = ''.''" "Dir ''/var/lib/gw/gw.db'' = ''/var/lib/gw''"
    "Dir ''./data//x/../gw.db'' = ''data''" "Dir ''/gw.db'' = ''/''"
  by (simp_all add: Dir_def Clean_def clean_step_def Let_def)

text \<open>A database that is opened has every migration of the directory.\<close>

lemma migrate_loop_records:
  "migrate_loop q flt contents names db = (None, db') \<Longrightarrow> set names \<union> set (m_versions db) \<subseteq> set (m_versions db')"
  by (induction names arbitrary: db) (fastforce split: option.splits if_splits prod.splits dest: apply_migration_done)+

lemma Open_migrated:
  assumes "Open_storage mkdirAll sqlOpen q create flt (Inr entries) contents path = Inr db"
  shows "set (migration_files entries) \<subseteq> set (m_versions db)"
proof -
  obtain db0 where "migrate_loop q flt contents (migration_files entries) db0 = (None, db)"
    using assms by (auto simp: Open_storage_def migrate_def split: option.splits sum.splits prod.splits if_splits)
  then show ?thesis using migrate_loop_records by fastforce
qed

lemma size_loop_found: "snd (size_loop stat path ss n f) \<longleftrightarrow> f \<or> (\<exists>s \<in> set ss. stat (path @ s) \<noteq> None)"
  by (induction ss arbitrary: n f) (auto split: option.split)

lemma size_loop_sum:
  assumes "\<forall>s. \<forall>n. stat s = Some n \<longrightarrow> 0 \<le> n" "0 \<le> m"
    "m + sum_list (map (\<lambda>s. case stat (path @ s) of None \<Rightarrow> 0 | Some n \<Rightarrow> n) ss) < 9223372036854775808"
  shows "fst (size_loop stat path ss m f) = m + sum_list (map (\<lambda>s. case stat (path @ s) of None \<Rightarrow> 0 | Some n \<Rightarrow> n) ss)"
  using assms(2,3)
proof (induction ss arbitrary: m f)
  case (Cons s ss)
  have nn: "0 \<le> sum_list (map (\<lambda>s. case stat (path @ s) of None \<Rightarrow> 0 | Some n \<Rightarrow> n) ss)"
    using assms(1) by (intro sum_list_nonneg) (auto split: option.splits)
  show ?case
  proof (cases "stat (path @ s)")
    case (Some n)
    with assms(1) have "0 \<le> n" by blast
    with Some nn Cons.prems have w: "wrap64 (m + n) = m + n" by (intro wrap64_id) simp_all
    with Some Cons.IH [of "m + n" True] Cons.prems \<open>0 \<le> n\<close> show ?thesis by (simp add: add.assoc)
  qed (use Cons in simp)
qed simp

lemmas parts = cpu_part_def mem_part_def disk_part_def net_part_def

text \<open>The panel degrades tile by tile. Whatever fails, the rest is shown: the CPU load is there exactly if its probe gave a value,
  each of the memory tiles exactly if the memory probe succeeded, each of the disk tiles exactly if the database path is set and
  its probe succeeded, the traffic exactly if a counter was found, and the database size exactly if one of the three files exists, as
  the sum of those that do.\<close>

theorem Current_degrades:
  assumes "\<forall>s. \<forall>n. hp_stat h s = Some n \<longrightarrow> 0 \<le> n"
    "sum_list (map (\<lambda>s. case hp_stat h (path @ s) of None \<Rightarrow> 0 | Some n \<Rightarrow> n) [[], ''-wal'', ''-shm'']) < 9223372036854775808"
  shows "in_Status (Current_system h path) = ''ok'' \<and>
    (in_CPUPercent (Current_system h path) \<noteq> None \<longleftrightarrow> (\<exists>p ps. hp_cpu h = Inr (p # ps))) \<and>
    (in_MemUsedPct (Current_system h path) \<noteq> None \<longleftrightarrow> (\<exists>vm. hp_mem h = Inr vm)) \<and>
    (in_MemTotalMB (Current_system h path) \<noteq> None \<longleftrightarrow> (\<exists>vm. hp_mem h = Inr vm)) \<and>
    (in_MemUsedMB (Current_system h path) \<noteq> None \<longleftrightarrow> (\<exists>vm. hp_mem h = Inr vm)) \<and>
    (in_DiskUsedPct (Current_system h path) \<noteq> None \<longleftrightarrow> path \<noteq> [] \<and> (\<exists>du. hp_disk h path = Inr du)) \<and>
    (in_NetBytesSent (Current_system h path) \<noteq> None \<longleftrightarrow> (\<exists>c cs. hp_net h = Inr (c # cs))) \<and>
    in_DBSizeBytes (Current_system h path) =
      (if path \<noteq> [] \<and> (\<exists>s \<in> set [[], ''-wal'', ''-shm'']. hp_stat h (path @ s) \<noteq> None)
       then Some (sum_list (map (\<lambda>s. case hp_stat h (path @ s) of None \<Rightarrow> 0 | Some n \<Rightarrow> n) [[], ''-wal'', ''-shm''])) else None)"
proof -
  obtain n f where sl: "size_loop (hp_stat h) path [[], ''-wal'', ''-shm''] 0 False = (n, f)" by fastforce
  have f: "f \<longleftrightarrow> (\<exists>s \<in> set [[], ''-wal'', ''-shm'']. hp_stat h (path @ s) \<noteq> None)"
    using size_loop_found [of "hp_stat h" path "[[], ''-wal'', ''-shm'']" 0 False] sl by simp
  have n: "n = sum_list (map (\<lambda>s. case hp_stat h (path @ s) of None \<Rightarrow> 0 | Some n \<Rightarrow> n) [[], ''-wal'', ''-shm''])"
    using size_loop_sum [OF assms(1), of 0 path "[[], ''-wal'', ''-shm'']" False] assms(2) sl by simp
  show ?thesis
    unfolding Current_system_def parts f [symmetric] n [symmetric] sl
    by (auto split: sum.splits list.splits)
qed

definition bare_host :: host_probes where
  \<comment> \<open>a container: only the files can be read\<close>
  "bare_host = \<lparr>hp_uptime = f64_one, hp_goVersion = ''go1.25'', hp_goroutines = 9, hp_numCPU = 4, hp_cpu = Inl ''unsupported'', hp_mem = Inl ''denied'',
     hp_disk = (\<lambda>_. Inl ''denied''), hp_stat = (\<lambda>p. if p = ''gw.db'' then Some 4096 else if p = ''gw.db-wal'' then Some 512 else None), hp_net = Inr []\<rparr>"

theorem Current_degrades_witness:
  "in_DBSizeBytes (Current_system bare_host ''gw.db'') = Some 4608 \<and> in_CPUPercent (Current_system bare_host ''gw.db'') = None"
  using Current_degrades [of bare_host "''gw.db''"] by (simp add: bare_host_def)

end
