(* ===== verification/Router.thy ===== *)
theory Router
  imports ApiState Settings Netconfig
begin

text \<open>
  The routing table of the Web API (\<open>NewRouter\<close> in \<open>src/gateway/internal/api/router.go\<close>) over the handlers of the other theories, and what a request
  can change. The router itself is \<open>chi\<close>, third-party code: \<open>lookup_route\<close> stands for it. All the development relies on is that it answers with a
  registered route of the request's method, or none.
\<close>

section \<open>The table\<close>

datatype endpoint =
    E_getSystem | E_getSerialPorts | E_getTime
  | E_listConnections | E_createConnection | E_updateConnection | E_deleteConnection
  | E_listDevices | E_createDevice | E_updateDevice | E_deleteDevice
  | E_listDataPoints | E_createDataPoint | E_updateDataPoint | E_deleteDataPoint
  | E_testDeviceConnection | E_testDataPointRead
  | E_getStoreForwardStatus | E_getStoreForwardStatistics
  | E_getDiagnostics | E_getDashboardSummary | E_getLogs
  | E_exportConfig | E_importConfig | E_getSettings | E_saveSettings
  | E_getNetworkStatus | E_applyNetwork | E_applyNetworkDHCP | E_confirmNetwork

definition routes :: "(string \<times> string \<times> endpoint) list" where
  "routes = [
     (''GET'', ''/api/system'', E_getSystem),
     (''GET'', ''/api/system/serial-ports'', E_getSerialPorts),
     (''GET'', ''/api/time'', E_getTime),
     (''GET'', ''/api/connections'', E_listConnections),
     (''POST'', ''/api/connections'', E_createConnection),
     (''PUT'', ''/api/connections/{id}'', E_updateConnection),
     (''DELETE'', ''/api/connections/{id}'', E_deleteConnection),
     (''GET'', ''/api/devices'', E_listDevices),
     (''POST'', ''/api/devices'', E_createDevice),
     (''PUT'', ''/api/devices/{id}'', E_updateDevice),
     (''DELETE'', ''/api/devices/{id}'', E_deleteDevice),
     (''GET'', ''/api/devices/{id}/datapoints'', E_listDataPoints),
     (''POST'', ''/api/devices/{id}/datapoints'', E_createDataPoint),
     (''PUT'', ''/api/datapoints/{id}'', E_updateDataPoint),
     (''DELETE'', ''/api/datapoints/{id}'', E_deleteDataPoint),
     (''POST'', ''/api/devices/{id}/test'', E_testDeviceConnection),
     (''POST'', ''/api/datapoints/{id}/test'', E_testDataPointRead),
     (''GET'', ''/api/store-forward/status'', E_getStoreForwardStatus),
     (''GET'', ''/api/store-forward/statistics'', E_getStoreForwardStatistics),
     (''GET'', ''/api/diagnostics'', E_getDiagnostics),
     (''GET'', ''/api/dashboard/summary'', E_getDashboardSummary),
     (''GET'', ''/api/logs'', E_getLogs),
     (''GET'', ''/api/config/export'', E_exportConfig),
     (''POST'', ''/api/config/import'', E_importConfig),
     (''GET'', ''/api/config/settings'', E_getSettings),
     (''PUT'', ''/api/config/settings'', E_saveSettings),
     (''GET'', ''/api/system/network'', E_getNetworkStatus),
     (''POST'', ''/api/system/network'', E_applyNetwork),
     (''POST'', ''/api/system/network/dhcp'', E_applyNetworkDHCP),
     (''POST'', ''/api/system/network/confirm'', E_confirmNetwork)]"

section \<open>What a request changes\<close>

text \<open>The state the handlers share, and what they find: the path parameter, the body as each of them decodes it, and the failures.\<close>

record 'h web =
  w_server :: server
  w_config :: config
  w_files :: files
  w_net :: "'h net_sys option"

record web_input =
  wi_id :: string
  wi_connection :: "string + connectionDTO"
  wi_device :: "string + deviceDTO"
  wi_point :: "string + dataPointDTO"
  wi_import :: "string + configExportDTO"
  wi_settings :: "string + settingsDTO"
  wi_static :: "string + static_config"
  wi_dhcp :: "string + string"
  wi_env :: api_env
  wi_flts :: "nat \<Rightarrow> fault"
  wi_write_error :: "(string \<times> string option) option"

text \<open>\<open>bind\<close>, \<open>marshal\<close>, \<open>configPath\<close> and the controller are fixed for a process. A handler that only reads, or that talks to a device with a client
  of its own, leaves the state as it is.\<close>

definition effect ::
  "(f64 \<Rightarrow> f64 option) \<Rightarrow> (config \<Rightarrow> string + string) \<Rightarrow> string \<Rightarrow> 'h controller \<Rightarrow> endpoint \<Rightarrow> web_input \<Rightarrow> 'h web \<Rightarrow> 'h web" where
  "effect bind marshal configPath ct e i w =
     (let sv = w_server w; env = wi_env i
      in case e of
           E_createConnection \<Rightarrow> w\<lparr>w_server := snd (createConnection env (wi_connection i) sv)\<rparr>
         | E_updateConnection \<Rightarrow> w\<lparr>w_server := snd (updateConnection env (wi_id i) (wi_connection i) sv)\<rparr>
         | E_deleteConnection \<Rightarrow> w\<lparr>w_server := snd (deleteConnection env (wi_id i) sv)\<rparr>
         | E_createDevice \<Rightarrow> w\<lparr>w_server := snd (createDevice env (wi_device i) sv)\<rparr>
         | E_updateDevice \<Rightarrow> w\<lparr>w_server := snd (updateDevice env (wi_id i) (wi_device i) sv)\<rparr>
         | E_deleteDevice \<Rightarrow> w\<lparr>w_server := snd (deleteDevice env (wi_id i) sv)\<rparr>
         | E_createDataPoint \<Rightarrow> w\<lparr>w_server := snd (createDataPoint bind env (wi_id i) (wi_point i) sv)\<rparr>
         | E_updateDataPoint \<Rightarrow> w\<lparr>w_server := snd (updateDataPoint bind env (wi_id i) (wi_point i) sv)\<rparr>
         | E_deleteDataPoint \<Rightarrow> w\<lparr>w_server := snd (deleteDataPoint env (wi_id i) sv)\<rparr>
         | E_importConfig \<Rightarrow> w\<lparr>w_server := snd (importConfig bind (wi_flts i) env (wi_import i) sv)\<rparr>
         | E_saveSettings \<Rightarrow>
             (case saveSettings marshal (wi_write_error i) configPath (wi_settings i) (w_config w) (w_files w) of
                (_, c, fs) \<Rightarrow> w\<lparr>w_config := c, w_files := fs\<rparr>)
         | E_getNetworkStatus \<Rightarrow> w\<lparr>w_net := snd (getNetworkStatus ct (w_net w))\<rparr>
         | E_applyNetwork \<Rightarrow> w\<lparr>w_net := snd (applyNetwork ct (wi_static i) (w_net w))\<rparr>
         | E_applyNetworkDHCP \<Rightarrow> w\<lparr>w_net := snd (applyNetworkDHCP ct (wi_dhcp i) (w_net w))\<rparr>
         | E_confirmNetwork \<Rightarrow> w\<lparr>w_net := snd (confirmNetwork (w_net w))\<rparr>
         | _ \<Rightarrow> w)"

type_synonym router = "(string \<times> string \<times> endpoint) list \<Rightarrow> string \<Rightarrow> string \<Rightarrow> (endpoint \<times> string) option"

definition serve_request ::
  "router \<Rightarrow> (f64 \<Rightarrow> f64 option) \<Rightarrow> (config \<Rightarrow> string + string) \<Rightarrow> string \<Rightarrow> 'h controller \<Rightarrow> string \<Rightarrow> string \<Rightarrow> web_input \<Rightarrow> 'h web \<Rightarrow> 'h web" where
  \<comment> \<open>a request without a route gets 404 or 405\<close>
  "serve_request lookup_route bind marshal configPath ct meth path i w =
     (case lookup_route routes meth path of
        None \<Rightarrow> w
      | Some (e, param) \<Rightarrow> effect bind marshal configPath ct e (i\<lparr>wi_id := param\<rparr>) w)"

definition routes_by_method :: "router \<Rightarrow> bool" where
  "routes_by_method lookup_route \<longleftrightarrow> (\<forall>meth path e param. lookup_route routes meth path = Some (e, param) \<longrightarrow> (\<exists>pat. (meth, pat, e) \<in> set routes))"

section \<open>Properties\<close>

text \<open>No route hides another, and every handler has exactly one.\<close>

lemma routes_unambiguous: "distinct (map (\<lambda>(m, p, e). (m, p)) routes)" "distinct (map (\<lambda>(m, p, e). e) routes)"
  by (simp_all add: routes_def)

lemma get_endpoints:
  assumes "(''GET'', pat, e) \<in> set routes"
  shows "effect bind marshal configPath ct e i w = w \<or> e = E_getNetworkStatus"
  using assms unfolding routes_def by (auto simp: effect_def Let_def)

text \<open>The host state after a read of the network configuration; nothing else changes.\<close>

lemma getNetworkStatus_state:
  "map_option (\<lambda>y. y\<lparr>y_host := h\<rparr>) (snd (getNetworkStatus ct svc)) = map_option (\<lambda>y. y\<lparr>y_host := h\<rparr>) svc"
  by (auto simp: getNetworkStatus_def split: option.split prod.split sum.split)

lemma effect_api_step: "w_server (effect bind marshal configPath ct e i w) = w_server w \<or>
    api_step bind (w_server w) (w_server (effect bind marshal configPath ct e i w))"
  by (cases e) (auto simp: effect_def Let_def intro: api_step.intros split: prod.split)


definition exact_router :: router where
  \<comment> \<open>the paths without parameters\<close>
  "exact_router rs meth path = map_option (\<lambda>(m, p, e). (e, [])) (find (\<lambda>(m, p, e). m = meth \<and> p = path) rs)"

lemma exact_router_by_method: "routes_by_method exact_router"
  by (auto simp: routes_by_method_def exact_router_def find_Some_iff) (metis nth_mem)


end
