(* ===== verification/Gateway.thy ===== *)
theory Gateway
  imports ApiState Delivery Pipeline Startup TimeSync
begin

text \<open>
  The whole gateway, as \<open>src/gateway/cmd/gateway/main.go\<close> puts it together: the Web API on the configuration tables, the acquisition
  manager with its poller goroutines, the callbacks into the queue, the sweepers, the forwarder and the server behind it, with crashes
  and restarts at any point.

  Each goroutine is a source of steps. A poller goroutine runs a pass of its scan loop (\<open>scan_pass\<close>) and hands the events of the pass
  to the callbacks one by one, so anything may happen between two readings of a pass. A handler of the Web API is one
  step. The two databases of the model, configuration and queue, are tables of one file; both survive a crash, the pollers, the
  status store and the forwarder's batch do not. A cancelled poller notices it at the next pass at the latest.
\<close>

section \<open>Configuration of the components\<close>

definition override :: "(string \<Rightarrow> string) \<Rightarrow> string \<Rightarrow> string \<Rightarrow> string" where
  \<comment> \<open>\<open>if v := os.Getenv(name); v != ""\<close>\<close>
  "override env name old = (if env name \<noteq> [] then env name else old)"

definition env_overrides :: "(string \<Rightarrow> string) \<Rightarrow> config \<Rightarrow> config" where
  "env_overrides env c = c\<lparr>
     cf_Forwarder := (cf_Forwarder c)\<lparr>fc_ServerURL := override env ''FORWARDER_SERVER_URL'' (fc_ServerURL (cf_Forwarder c)),
        fc_Transport := override env ''FORWARDER_TRANSPORT'' (fc_Transport (cf_Forwarder c))\<rparr>,
     cf_MQTT := (cf_MQTT c)\<lparr>mq_BrokerURL := override env ''MQTT_BROKER_URL'' (mq_BrokerURL (cf_MQTT c))\<rparr>,
     cf_Time := (cf_Time c)\<lparr>tc_NTPServer := override env ''NTP_SERVER'' (tc_NTPServer (cf_Time c))\<rparr>\<rparr>"

definition hour :: duration where "hour = 3600 * second"
definition minute :: duration where "minute = 60 * second"

definition retention_period :: "config \<Rightarrow> duration" where
  "retention_period c = wrap64 (wrap64 (qc_RetentionDays (cf_Queue c) * 24) * hour)"

definition retention_interval :: "config \<Rightarrow> duration" where
  "retention_interval c = wrap64 (qc_SweepInterval (cf_Queue c) * minute)"

definition storage_interval :: "config \<Rightarrow> duration" where
  "storage_interval c = wrap64 (qc_StorageSweepInterval (cf_Queue c) * second)"

definition time_service_config :: "config \<Rightarrow> time_cfg" where
  "time_service_config c = \<lparr>t_NTPServer = tc_NTPServer (cf_Time c), t_SyncInterval = wrap64 (tc_SyncIntervalSec (cf_Time c) * second),
     t_QueryTimeout = wrap64 (tc_QueryTimeoutMs (cf_Time c) * millisecond), t_RTCDevice = tc_RTCDevice (cf_Time c)\<rparr>"

definition forwarder_run_config :: "config \<Rightarrow> fwd_config" where
  "forwarder_run_config c = New_forwarder \<lparr>BatchSize = fc_BatchSize (cf_Forwarder c),
     PollInterval = wrap64 (fc_PollIntervalMs (cf_Forwarder c) * millisecond)\<rparr>"

section \<open>The sweepers\<close>

text \<open>Each sweeper is a loop over the ticks that arrive before the context ends; a tick comes with its clock and the failures it meets.
  A ticker of no positive interval panics, which ends the process.\<close>

datatype sweeper_end = Panicked | Cancelled

definition RunRetentionSweeper :: "duration \<Rightarrow> duration \<Rightarrow> gotime \<times> fault \<Rightarrow> (gotime \<times> fault) list \<Rightarrow> qdb \<Rightarrow> sweeper_end \<times> qdb" where
  "RunRetentionSweeper retention interval start ticks db =
     (let sweep = (\<lambda>(now, flt) db. snd (retention_sweep flt now retention db));
          db1 = sweep start db
      in if interval \<le> 0 then (Panicked, db1) else (Cancelled, fold sweep ticks db1))"

definition RunStoragePressureSweeper ::
  "real \<Rightarrow> int \<Rightarrow> duration \<Rightarrow> row_order \<times> fault \<times> (string + real) \<Rightarrow> (row_order \<times> fault \<times> (string + real)) list \<Rightarrow> qdb \<Rightarrow>
   sweeper_end \<times> qdb" where
  "RunStoragePressureSweeper fullPercent evictBatchSize interval start ticks db =
     (let check = (\<lambda>(ob, flt, usage) db. snd (storage_check ob flt usage fullPercent evictBatchSize db));
          db1 = check start db
      in if interval \<le> 0 then (Panicked, db1) else (Cancelled, fold check ticks db1))"

text \<open>The periods are products of \<open>int64\<close>. The largest retention that still fits is 106751 days; the next ones are negative.\<close>

lemma retention_period_exact:
  assumes "0 \<le> qc_RetentionDays (cf_Queue c)" "qc_RetentionDays (cf_Queue c) \<le> 106751"
  shows "retention_period c = qc_RetentionDays (cf_Queue c) * 24 * hour"
proof -
  let ?d = "qc_RetentionDays (cf_Queue c)"
  have "wrap64 (?d * 24) = ?d * 24" using assms by (intro wrap64_id) simp_all
  moreover have "wrap64 (?d * 24 * hour) = ?d * 24 * hour" using assms by (intro wrap64_id) (simp_all add: hour_def second_def)
  ultimately show ?thesis by (simp add: retention_period_def)
qed

lemma wrap64_period: "wrap64 (x + 18446744073709551616) = wrap64 x"
proof -
  have "(x + 18446744073709551616 + 2 ^ 63) mod 2 ^ 64 = (x + 2 ^ 63 + 2 ^ 64) mod (2 ^ 64 :: int)" by (simp add: add.commute add.left_commute)
  also have "\<dots> = (x + 2 ^ 63) mod 2 ^ 64" by (rule mod_add_self2)
  finally show ?thesis by (simp add: wrap64_def)
qed

lemma retention_period_negative:
  assumes "106751 < qc_RetentionDays (cf_Queue c)" "qc_RetentionDays (cf_Queue c) \<le> 213503"
  shows "retention_period c \<le> - millisecond"
proof -
  let ?d = "qc_RetentionDays (cf_Queue c)"
  let ?x = "?d * 86400000000000 - 18446744073709551616"
  have "wrap64 (?d * 24) = ?d * 24" using assms by (intro wrap64_id) simp_all
  then have "retention_period c = wrap64 (?x + 18446744073709551616)"
    by (simp add: retention_period_def hour_def second_def mult.commute)
  also have "\<dots> = wrap64 ?x"
    by (rule wrap64_period)
  also have "\<dots> = ?x" using assms by (intro wrap64_id) simp_all
  finally show ?thesis using assms by (simp add: millisecond_def)
qed

text \<open>C31: a retention of up to 106751 days is the period the sweeper uses. Any larger setting, up to 213503 days, overflows to a
  negative period: the settings page stores it, and from the next start on every sweep deletes every row that was sent, however
  recently.\<close>

theorem retention_overflow:
  assumes "0 < qc_RetentionDays (cf_Queue c)" "qc_RetentionDays (cf_Queue c) \<le> 213503"
    "retention_sweep None now (retention_period c) db = (res, db')"
  shows "if qc_RetentionDays (cf_Queue c) \<le> 106751 then retention_period c = qc_RetentionDays (cf_Queue c) * 24 * hour
    else \<forall>r t. r \<in> set (data_queue db) \<longrightarrow> q_status r = SENT \<longrightarrow> q_sent_at r = Some t \<longrightarrow> t \<le> millis now \<longrightarrow> r \<notin> set (data_queue db')"
proof (cases "qc_RetentionDays (cf_Queue c) \<le> 106751")
  case True
  with assms(1) retention_period_exact [of c] show ?thesis by simp
next
  case False
  have "now + millisecond \<le> now - retention_period c" using retention_period_negative [of c] False assms(2) by simp
  then have "(now + millisecond) div millisecond \<le> millis (now - retention_period c)"
    unfolding millis_def by (rule zdiv_mono1) (simp add: millisecond_def)
  then have late: "millis now < millis (now - retention_period c)" by (simp add: millis_def millisecond_def)
  have "data_queue db' = filter (\<lambda>r. \<not> (q_status r = SENT \<and>
      (case q_sent_at r of None \<Rightarrow> False | Some t \<Rightarrow> t < millis (now - retention_period c)))) (data_queue db)"
    using assms(3) by (auto simp: retention_sweep_def DeleteSentOlderThan_def Let_def)
  with False late show ?thesis by auto
qed

definition long_retention :: config where
  "long_retention = sample_config\<lparr>cf_Queue := (cf_Queue sample_config)\<lparr>qc_RetentionDays := 200000\<rparr>\<rparr>"

theorem retention_overflow_witness:
  "\<exists>db res db'. retention_sweep None (9 * second) (retention_period long_retention) db = (res, db') \<and>
    data_queue db \<noteq> [] \<and> data_queue db' = []"
proof -
  let ?r = "(new_row Some 1 sample_entry)\<lparr>q_status := SENT, q_sent_at := Some 9000\<rparr>"
  let ?db = "empty_qdb\<lparr>data_queue := [?r]\<rparr>"
  obtain res db' where s: "retention_sweep None (9 * second) (retention_period long_retention) ?db = (res, db')" by fastforce
  have "?r \<notin> set (data_queue db')"
    using retention_overflow [OF _ _ s] by (simp add: long_retention_def millis_def second_def millisecond_def)
  moreover have "set (data_queue db') \<subseteq> {?r}" using s by (auto simp: retention_sweep_def DeleteSentOlderThan_def Let_def split: if_splits)
  ultimately have "data_queue db' = []" by (cases "data_queue db'") auto
  with s show ?thesis by (intro exI [of _ ?db]) auto
qed

text \<open>The defaults keep the tickers from panicking, unless the file sets an interval so large that its product overflows; the
  environment changes neither.\<close>

lemma sweepers_keep_running:
  assumes "c = env_overrides env (with_defaults c0)" "qc_SweepInterval (cf_Queue c0) \<le> 153722867"
    "qc_StorageSweepInterval (cf_Queue c0) \<le> 9223372036"
  shows "fst (RunRetentionSweeper r (retention_interval c) start ticks db) = Cancelled"
    "fst (RunStoragePressureSweeper full n (storage_interval c) start' ticks' db) = Cancelled"
proof -
  have q: "0 < qc_SweepInterval (cf_Queue c)" "qc_SweepInterval (cf_Queue c) \<le> 153722867"
    "0 < qc_StorageSweepInterval (cf_Queue c)" "qc_StorageSweepInterval (cf_Queue c) \<le> 9223372036"
    using assms by (simp_all add: env_overrides_def with_defaults_def queue_defaults_def or_default_def Let_def)
  have "0 < retention_interval c" "0 < storage_interval c"
    unfolding retention_interval_def storage_interval_def
    using q by (subst wrap64_id; simp add: minute_def second_def)+
  then show "fst (RunRetentionSweeper r (retention_interval c) start ticks db) = Cancelled"
    "fst (RunStoragePressureSweeper full n (storage_interval c) start' ticks' db) = Cancelled"
    by (simp_all add: RunRetentionSweeper_def RunStoragePressureSweeper_def Let_def)
qed

section \<open>Poller goroutines\<close>

text \<open>\<open>dial\<close> makes a fresh client with its state, not yet connected. In the program it is \<open>new_client\<close> on the goburrow library, which
  supplies a handler for each kind of link.\<close>

record 'c modbus_lib =
  lib_tcp :: "string \<Rightarrow> duration \<Rightarrow> 'c goburrow \<times> 'c"
  lib_rtu :: "string \<Rightarrow> int \<Rightarrow> int \<Rightarrow> string \<Rightarrow> int \<Rightarrow> duration \<Rightarrow> 'c goburrow \<times> 'c"

definition NewTCPClient :: "'c modbus_lib \<Rightarrow> string \<Rightarrow> duration \<Rightarrow> 'c client \<times> 'c" where
  "NewTCPClient lib address timeout = (case lib_tcp lib address timeout of (handler, st) \<Rightarrow> (tcpClient handler, st))"

definition NewRTUClient :: "'c modbus_lib \<Rightarrow> string \<Rightarrow> int \<Rightarrow> int \<Rightarrow> string \<Rightarrow> int \<Rightarrow> duration \<Rightarrow> 'c client \<times> 'c" where
  "NewRTUClient lib device baudRate dataBits parity stopBits timeout =
     (case lib_rtu lib device baudRate dataBits parity stopBits timeout of (handler, st) \<Rightarrow> (rtuClient handler, st))"

definition new_client :: "'c modbus_lib \<Rightarrow> client_config \<Rightarrow> 'c client \<times> 'c" where
  "new_client lib cfg = (case cfg of
       TCPConfig address timeout \<Rightarrow> NewTCPClient lib address timeout
     | RTUConfig device baudRate dataBits parity stopBits timeout \<Rightarrow> NewRTUClient lib device baudRate dataBits parity stopBits timeout)"

record 'c poller =
  p_conn :: connection
  p_devices :: "device_points list"
  p_client :: "'c client"
  p_scan :: "'c scan_state"
  p_go :: bool
  p_out :: "acq_event list"

datatype 'c goroutine = Returned | Polling "'c poller"

definition runConnection :: "(client_config \<Rightarrow> 'c client \<times> 'c) \<Rightarrow> connection \<Rightarrow> device_points list \<Rightarrow> 'c goroutine" where
  "runConnection dial conn ds = (case BuildClient conn of
       Inl e \<Rightarrow> Returned
     | Inr cfg \<Rightarrow>
         (case dial cfg of (cl, st) \<Rightarrow>
            Polling \<lparr>p_conn = conn, p_devices = ds, p_client = cl,
              p_scan = \<lparr>s_connected = False, s_diag = None, s_client = st\<rparr>, p_go = True, p_out = []\<rparr>))"

type_synonym 'c pollers = "int \<times> nat \<Rightarrow> 'c goroutine option"

definition spawn :: "(client_config \<Rightarrow> 'c client \<times> 'c) \<Rightarrow> manager option \<Rightarrow> 'c pollers \<Rightarrow> 'c pollers" where
  \<comment> \<open>the goroutines a reload has added to the running ones\<close>
  "spawn dial m ps = (\<lambda>(i, n). case ps (i, n) of
       Some p \<Rightarrow> Some p
     | None \<Rightarrow>
         (case m of
            None \<Rightarrow> None
          | Some m \<Rightarrow>
              (case map_of (m_running m) i of
                 Some rc \<Rightarrow> if rc_gen rc = n then Some (runConnection dial (rc_conn rc) (rc_devices rc)) else None
               | None \<Rightarrow> None)))"

section \<open>The process\<close>

record ('c, 's) gateway =
  gw_id :: string
  gw_api :: server
  gw_pollers :: "'c pollers"
  gw_diag :: "diag_store option"
  gw_forwards :: bool
  gw_sys :: "'s sys"

definition stop_process :: "('c, 's) gateway \<Rightarrow> ('c, 's) gateway" where
  \<comment> \<open>the process is gone, the database and the server remain\<close>
  "stop_process g = g\<lparr>gw_api := (gw_api g)\<lparr>sv_manager := None, sv_status := Map.empty\<rparr>, gw_pollers := Map.empty, gw_diag := None,
     gw_forwards := False\<rparr>"

definition start_acquisition ::
  "(client_config \<Rightarrow> 'c client \<times> 'c) \<Rightarrow> fault \<Rightarrow> api_env \<Rightarrow> string \<Rightarrow> string \<Rightarrow> ('c, 's) gateway \<Rightarrow> ('c, 's) gateway" where
  \<comment> \<open>\<open>main\<close> from the database up to the first reload; a failing \<open>EnsureGateway\<close> ends the process\<close>
  "start_acquisition dial flt env gid name g0 =
     (let g = stop_process g0
      in case EnsureGateway flt gid name (sys_db (gw_sys g)) of
           (Some e, db) \<Rightarrow> g\<lparr>gw_sys := (gw_sys g)\<lparr>sys_db := db\<rparr>\<rparr>
         | (None, db) \<Rightarrow>
             (let sv = reload env ((gw_api g)\<lparr>sv_manager := Some NewManager\<rparr>)
              in g\<lparr>gw_id := gid, gw_api := sv, gw_pollers := spawn dial (sv_manager sv) Map.empty, gw_diag := Some new_diag,
                   gw_sys := (gw_sys g)\<lparr>sys_db := db\<rparr>\<rparr>))"

definition start_forwarder :: "fault \<Rightarrow> ('c, 's) gateway \<Rightarrow> ('c, 's) gateway" where
  \<comment> \<open>the adapter is built: \<open>fwd.Run\<close> recovers the batch of the previous process\<close>
  "start_forwarder flt g = g\<lparr>gw_forwards := True,
     gw_sys := (gw_sys g)\<lparr>sys_db := snd (RecoverSendingToPending flt (sys_db (gw_sys g))), sys_phase := Idle\<rparr>\<rparr>"

text \<open>The callbacks of \<open>main\<close>. The ghost map of the system records what went into the queue.\<close>

definition record_insert :: "(queue_error + entry) \<times> qdb \<Rightarrow> 's sys \<Rightarrow> 's sys" where
  "record_insert res y = (case res of
       (Inl _, db) \<Rightarrow> y\<lparr>sys_db := db\<rparr>
     | (Inr e, db) \<Rightarrow> y\<lparr>sys_db := db, sys_inserted := (sys_inserted y)((GatewayID e, SequenceID e) \<mapsto> wire_of_row (last (data_queue db)))\<rparr>)"

definition deliver :: "(f64 \<Rightarrow> f64 option) \<Rightarrow> fault \<Rightarrow> acq_event \<Rightarrow> ('c, 's) gateway \<Rightarrow> ('c, 's) gateway" where
  "deliver bind flt e g = (case e of
       Emit r \<Rightarrow>
         g\<lparr>gw_api := (gw_api g)\<lparr>sv_status := fst (on_reading bind flt (gw_id g) r (sv_status (gw_api g), sys_db (gw_sys g)))\<rparr>,
           gw_sys := record_insert (Insert bind flt (reading_entry (gw_id g) r) (sys_db (gw_sys g))) (gw_sys g)\<rparr>
     | PollCycle i ms n k t \<Rightarrow>
         g\<lparr>gw_api := (gw_api g)\<lparr>sv_status := fst (on_poll_cycle i ms n k (sv_status (gw_api g), sys_db (gw_sys g)))\<rparr>\<rparr>
     | _ \<Rightarrow> g)"

lemma deliver_db: "sys_db (gw_sys (deliver bind flt (Emit r) g)) =
    snd (on_reading bind flt (gw_id g) r (sv_status (gw_api g), sys_db (gw_sys g)))"
  by (simp add: deliver_def record_insert_def Process_def split: prod.split sum.split)

section \<open>Steps\<close>

text \<open>The steps of \<open>dispatchOnce\<close> and of the two sweepers, out of those of the store-and-forward system.\<close>

inductive dispatch_step :: "('e, 's) send_fn \<Rightarrow> ('e \<Rightarrow> 's \<Rightarrow> bool) \<Rightarrow> 's sys \<Rightarrow> 's sys \<Rightarrow> bool" for send ok where
  ds_fetch: "sys_phase y = Idle \<Longrightarrow> sql_order ob \<Longrightarrow> FetchBatch ob flt now limit (sys_db y) = (Inr batch, db) \<Longrightarrow>
    dispatch_step send ok y (y\<lparr>sys_db := db, sys_phase := (if batch = [] then Idle else Fetched batch)\<rparr>)"
| ds_send: "sys_phase y = Fetched batch \<Longrightarrow> ok env (sys_net y) \<Longrightarrow> send env (sys_net y) batch = (res, net) \<Longrightarrow>
    dispatch_step send ok y (y\<lparr>sys_net := net, sys_phase := Answered batch res\<rparr>)"
| ds_failed: "sys_phase y = Answered batch (Some err) \<Longrightarrow> MarkFailed flt clock (map ID batch) err (sys_db y) = (res, db) \<Longrightarrow>
    dispatch_step send ok y (y\<lparr>sys_db := db, sys_phase := Idle\<rparr>)"
| ds_sent: "sys_phase y = Answered batch None \<Longrightarrow> MarkSent flt now (map ID batch) (sys_db y) = (res, db) \<Longrightarrow>
    dispatch_step send ok y (y\<lparr>sys_db := db, sys_phase := Idle\<rparr>)"

inductive sweep_step :: "'s sys \<Rightarrow> 's sys \<Rightarrow> bool" where
  sw_retention: "retention_sweep flt now keep (sys_db y) = (res, db) \<Longrightarrow> sweep_step y (y\<lparr>sys_db := db\<rparr>)"
| sw_storage: "sql_order ob \<Longrightarrow> storage_check ob flt usage full n (sys_db y) = (res, db) \<Longrightarrow>
    sweep_step y (y\<lparr>sys_db := db, sys_evicted := sys_evicted y \<union>
      (row_key ` set (data_queue (sys_db y)) - row_key ` set (data_queue db))\<rparr>)"

lemma dispatch_is_sys:
  assumes "dispatch_step send ok y y'"
  shows "sys_step send ok y y'"
  using assms
proof cases
  case (ds_fetch ob flt now limit batch db)
  show ?thesis unfolding ds_fetch(1) by (rule sys_fetch [OF ds_fetch(2-4)])
qed (auto intro: sys_send sys_mark_failed sys_mark_sent)

lemma sweep_is_sys: "sweep_step y y' \<Longrightarrow> sys_step send ok y y'"
  by (induction rule: sweep_step.induct) (auto intro: sys_step.intros)

text \<open>A run of a sweeper is a sequence of sweeps.\<close>

lemma sweeps_run:
  fixes y :: "'s sys"
  assumes "\<And>t y. t \<in> set ts \<Longrightarrow> \<exists>y' :: 's sys. sweep_step y y' \<and> sys_db y' = f t (sys_db y)"
  shows "\<exists>y'. sweep_step\<^sup>*\<^sup>* y y' \<and> sys_db y' = fold f ts (sys_db y)"
  using assms
proof (induction ts arbitrary: y)
  case (Cons t ts)
  obtain y1 where y1: "sweep_step y y1" "sys_db y1 = f t (sys_db y)" using Cons.prems [of t y] by auto
  moreover obtain y' where "sweep_step\<^sup>*\<^sup>* y1 y'" "sys_db y' = fold f ts (sys_db y1)" using Cons.IH [of y1] Cons.prems by auto
  ultimately show ?case by (auto intro: converse_rtranclp_into_rtranclp)
qed auto

lemma RunRetentionSweeper_steps:
  "\<exists>y'. sweep_step\<^sup>*\<^sup>* y y' \<and> sys_db y' = snd (RunRetentionSweeper retention interval start ticks (sys_db y))"
proof -
  let ?f = "\<lambda>(now, flt) db. snd (retention_sweep flt now retention db)"
  have "\<exists>y'. sweep_step y y' \<and> sys_db y' = ?f t (sys_db y)" for t y
    by (cases t) (fastforce intro: sw_retention simp: prod_eq_iff)
  from sweeps_run [of "start # (if interval \<le> 0 then [] else ticks)" ?f y, OF this] show ?thesis
    by (cases "interval \<le> 0") (simp_all add: RunRetentionSweeper_def Let_def)
qed

lemma RunStoragePressureSweeper_steps:
  assumes "\<forall>t \<in> set (start # ticks). sql_order (fst t)"
  shows "\<exists>y'. sweep_step\<^sup>*\<^sup>* y y' \<and> sys_db y' = snd (RunStoragePressureSweeper full n interval start ticks (sys_db y))"
proof -
  let ?f = "\<lambda>(ob, flt, usage) db. snd (storage_check ob flt usage full n db)"
  let ?ts = "start # (if interval \<le> 0 then [] else ticks)"
  have "\<exists>y'. sweep_step y y' \<and> sys_db y' = ?f t (sys_db y)" if "t \<in> set ?ts" for t y
  proof -
    obtain ob flt usage where t: "t = (ob, flt, usage)" by (cases t)
    with that assms have "sql_order ob" by (auto split: if_splits)
    from sw_storage [OF this, of flt usage full n y] show ?thesis by (fastforce simp: t prod_eq_iff)
  qed
  from sweeps_run [of ?ts ?f y, OF this] show ?thesis
    by (cases "interval \<le> 0") (simp_all add: RunStoragePressureSweeper_def Let_def)
qed

definition live :: "server \<Rightarrow> int \<times> nat \<Rightarrow> bool" where
  \<comment> \<open>the context of the goroutine is not cancelled\<close>
  "live sv k = (case sv_manager sv of None \<Rightarrow> False | Some m \<Rightarrow> k \<in> set (m_live m))"

inductive gw_step ::
  "(f64 \<Rightarrow> f64 option) \<Rightarrow> bool \<Rightarrow> (client_config \<Rightarrow> 'c client \<times> 'c) \<Rightarrow> ('e, 's) send_fn \<Rightarrow> ('e \<Rightarrow> 's \<Rightarrow> bool) \<Rightarrow>
   ('c, 's) gateway \<Rightarrow> ('c, 's) gateway \<Rightarrow> bool" for bind fused dial send ok where
  gw_crash: "gw_step bind fused dial send ok g (stop_process g)"
| gw_start: "gw_step bind fused dial send ok g (start_acquisition dial flt env gid name g)"
| gw_forward: "sv_manager (gw_api g) \<noteq> None \<Longrightarrow> \<not> gw_forwards g \<Longrightarrow> gw_step bind fused dial send ok g (start_forwarder flt g)"
| gw_request: "gw_forwards g \<Longrightarrow> api_step bind (gw_api g) sv \<Longrightarrow> sv_status sv = sv_status (gw_api g) \<Longrightarrow>
    gw_step bind fused dial send ok g (g\<lparr>gw_api := sv, gw_pollers := spawn dial (sv_manager sv) (gw_pollers g)\<rparr>)"
| gw_pass: "gw_pollers g k = Some (Polling p) \<Longrightarrow> p_go p \<Longrightarrow> p_out p = [] \<Longrightarrow> sorting env \<Longrightarrow>
    (live (gw_api g) k \<or> v_cancelled env 0) \<Longrightarrow>
    scan_pass fused (p_client p) (p_conn p) (p_devices p) env ((p_scan p)\<lparr>s_diag := gw_diag g\<rparr>) = (go, evs, s') \<Longrightarrow>
    gw_step bind fused dial send ok g (g\<lparr>gw_diag := s_diag s',
      gw_pollers := (gw_pollers g)(k \<mapsto> Polling (p\<lparr>p_scan := s', p_go := go, p_out := evs\<rparr>))\<rparr>)"
| gw_event: "gw_pollers g k = Some (Polling p) \<Longrightarrow> p_out p = e # es \<Longrightarrow>
    gw_step bind fused dial send ok g
      (deliver bind flt e (g\<lparr>gw_pollers := (gw_pollers g)(k \<mapsto> Polling (p\<lparr>p_out := es\<rparr>))\<rparr>))"
| gw_dispatch: "gw_forwards g \<Longrightarrow> dispatch_step send ok (gw_sys g) y \<Longrightarrow> gw_step bind fused dial send ok g (g\<lparr>gw_sys := y\<rparr>)"
| gw_sweep: "sv_manager (gw_api g) \<noteq> None \<Longrightarrow> sweep_step (gw_sys g) y \<Longrightarrow> gw_step bind fused dial send ok g (g\<lparr>gw_sys := y\<rparr>)"

definition new_gateway :: "'s \<Rightarrow> ('c, 's) gateway" where
  \<comment> \<open>an installed gateway before its first start\<close>
  "new_gateway net = \<lparr>gw_id = [], gw_api = \<lparr>sv_db = empty_cfg, sv_manager = None, sv_status = Map.empty\<rparr>, gw_pollers = Map.empty,
     gw_diag = None, gw_forwards = False, gw_sys = init_sys net\<rparr>"

section \<open>Store and forward is a part of it\<close>

lemma sys_step_reach: "sys_reachable send ok net y \<Longrightarrow> sys_step send ok y y' \<Longrightarrow> sys_reachable send ok net y'"
  by (rule sys_next)

lemma record_insert_step: "sys_step send ok y (record_insert (Insert bind flt e (sys_db y)) y)"
  by (auto simp: record_insert_def split: prod.split sum.split intro: sys_insert_ok sys_insert_err)

lemma gw_step_sys:
  assumes "gw_step bind fused dial send ok g g'"
  shows "gw_sys g' = gw_sys g \<or> sys_step send ok (gw_sys g) (gw_sys g')"
  using assms
proof cases
  case (gw_start flt env gid name)
  obtain res db where e: "EnsureGateway flt gid name (sys_db (gw_sys g)) = (res, db)" by fastforce
  then have "gw_sys g' = (gw_sys g)\<lparr>sys_db := db\<rparr>"
    unfolding gw_start by (simp add: start_acquisition_def stop_process_def Let_def split: option.split)
  with sys_ensure [OF e] show ?thesis by metis
next
  case (gw_forward flt)
  then show ?thesis
    by (auto simp: start_forwarder_def intro!: sys_restart [of flt _ "fst (RecoverSendingToPending flt (sys_db (gw_sys g)))"])
next
  case (gw_event k p e es flt)
  then show ?thesis
    by (cases e) (auto simp: deliver_def intro: record_insert_step)
qed (auto simp: stop_process_def intro: dispatch_is_sys sweep_is_sys)

lemma gw_sys_reachable:
  assumes "(gw_step bind fused dial send ok)\<^sup>*\<^sup>* (new_gateway net) g"
  shows "sys_reachable send ok net (gw_sys g)"
  using assms
proof (induction rule: rtranclp_induct)
  case base
  show ?case by (simp add: new_gateway_def sys_init)
next
  case (step g g')
  with gw_step_sys [OF step(2)] show ?case by (auto intro: sys_next)
qed

section \<open>What is polled comes from the configuration\<close>

text \<open>A handler leaves the manager alone or ends with a reload on the tables it leaves.\<close>

lemma reload_only:
  "sv_db (reload env sv) = sv_db sv" "sv_status (reload env sv) = sv_status sv"
  by (simp_all add: reload_def split: option.split)

definition reloads :: "server \<Rightarrow> server \<Rightarrow> bool" where
  "reloads sv sv' \<longleftrightarrow> sv_manager sv' = sv_manager sv \<or>
     (\<exists>m fd fc fls. sv_manager sv = Some m \<and> sv_manager sv' = Some (snd (Reload fd fc fls (sv_db sv') m)))"

lemma reloads_same: "reloads sv sv" "reloads sv (sv\<lparr>sv_db := db\<rparr>)" "reloads sv (sv\<lparr>sv_status := st\<rparr>)"
  by (simp_all add: reloads_def)

lemma reloads_reload: "reloads sv (reload env sv)" "reloads sv (reload env (sv\<lparr>sv_db := db\<rparr>))"
  by (auto simp: reloads_def reload_def split: option.split)

lemma api_step_reloads: "api_step bind sv sv' \<Longrightarrow> reloads sv sv'"
proof (induction rule: api_step.induct)
  case (api_create_connection sv env bc)
  show ?case by (auto simp: createConnection_def Let_def intro: reloads_same reloads_reload split: sum.split option.split prod.split)
next
  case (api_update_connection sv env p bc)
  show ?case by (auto simp: updateConnection_def Let_def intro: reloads_same reloads_reload split: sum.split option.split prod.split)
next
  case (api_delete_connection sv env p)
  show ?case by (auto simp: deleteConnection_def Let_def intro: reloads_same reloads_reload split: sum.split option.split prod.split)
next
  case (api_create_device sv env bd)
  show ?case by (auto simp: createDevice_def Let_def intro: reloads_same reloads_reload split: sum.split option.split prod.split)
next
  case (api_update_device sv env p bd)
  show ?case by (auto simp: updateDevice_def Let_def intro: reloads_same reloads_reload split: sum.split option.split prod.split)
next
  case (api_delete_device sv env p)
  show ?case by (auto simp: deleteDevice_def Let_def intro: reloads_same reloads_reload split: sum.split option.split prod.split)
next
  case (api_create_point sv env p bp)
  show ?case by (auto simp: createDataPoint_def Let_def intro: reloads_same reloads_reload split: sum.split option.split prod.split)
next
  case (api_update_point sv env p bp)
  show ?case by (auto simp: updateDataPoint_def Let_def intro: reloads_same reloads_reload split: sum.split option.split prod.split)
next
  case (api_delete_point sv env p)
  show ?case by (auto simp: deleteDataPoint_def Let_def intro: reloads_same reloads_reload split: sum.split option.split prod.split)
next
  case (api_import sv flts env body)
  show ?case by (auto simp: importConfig_def Let_def intro: reloads_same reloads_reload split: sum.split option.split prod.split)
next
  case (api_status sv st)
  show ?case by (rule reloads_same)
qed

text \<open>A connection registered after a reload was registered before, or is what the tables say now.\<close>

lemma reloads_running:
  assumes "server_inv bind sv" "server_inv bind sv'" "reloads sv sv'" "sv_manager sv' = Some m'"
  obtains m where "sv_manager sv = Some m" "m_gen m \<le> m_gen m'"
    "\<And>i rc. map_of (m_running m') i = Some rc \<Longrightarrow> rc_gen rc \<le> m_gen m' \<and>
       (map_of (m_running m) i = Some rc \<or> m_gen m < rc_gen rc \<and> polled (sv_db sv') i = Some (rc_conn rc, rc_devices rc))"
proof -
  have le: "rc_gen rc \<le> m_gen m'" if "map_of (m_running m') i = Some rc" for i rc
    using assms(2,4) map_of_SomeD [OF that] by (fastforce simp: server_inv_def mgr_inv_def)
  show thesis
  proof (cases "sv_manager sv' = sv_manager sv")
    case True
    with that [of m'] assms(4) le show thesis by auto
  next
    case False
    with assms(3,4) obtain m fd fc fls where m: "sv_manager sv = Some m" "m' = snd (Reload fd fc fls (sv_db sv') m)"
      by (auto simp: reloads_def)
    then obtain err where r: "Reload fd fc fls (sv_db sv') m = (err, m')" by (metis prod.collapse)
    have inv: "mgr_inv m" "cfg_inv (sv_db sv')" using assms(1,2) m(1) by (auto simp: server_inv_def checked_cfg_def)
    show thesis
    proof (cases err)
      case None
      from Reload_map [OF inv r [unfolded None]] m(1) le show thesis
        by (intro that [of m]) (auto split: option.splits if_splits)
    next
      case (Some e)
      with r have "m' = m" by (auto simp: Reload_def Let_def split: sum.splits option.splits)
      with m(1) le show thesis by (intro that [of m]) auto
    qed
  qed
qed

text \<open>At some moment of the run the tables asked for a connection to be polled with these devices.\<close>

definition asked_for :: "('g \<Rightarrow> 'g \<Rightarrow> bool) \<Rightarrow> 'g \<Rightarrow> ('g \<Rightarrow> cfgdb) \<Rightarrow> 'g \<Rightarrow> connection \<Rightarrow> device_points list \<Rightarrow> bool" where
  "asked_for step g0 tables g conn ds \<longleftrightarrow> (\<exists>g1 i. step\<^sup>*\<^sup>* g0 g1 \<and> step\<^sup>*\<^sup>* g1 g \<and> polled (tables g1) i = Some (conn, ds))"

lemma asked_for_step: "asked_for step g0 tables g conn ds \<Longrightarrow> step g g' \<Longrightarrow> asked_for step g0 tables g' conn ds"
  unfolding asked_for_def by (meson rtranclp.rtrancl_into_rtrancl)

lemma asked_for_now: "step\<^sup>*\<^sup>* g0 g \<Longrightarrow> polled (tables g) i = Some (conn, ds) \<Longrightarrow> asked_for step g0 tables g conn ds"
  unfolding asked_for_def by blast

definition faithful_wire :: "device_points list \<Rightarrow> wire_entry \<Rightarrow> bool" where
  \<comment> \<open>an entry names a data point of the list and has a value only if its quality is GOOD\<close>
  "faithful_wire ds w \<longleftrightarrow> (\<exists>d dps p. (d, dps) \<in> set ds \<and> p \<in> set dps \<and> w_DeviceID w = d_ID d \<and> w_DatapointID w = dp_ID p) \<and>
     (w_Value w = None \<or> w_Quality w = ''GOOD'')"

lemma quality_string_good: "quality_string q = ''GOOD'' \<longleftrightarrow> q = Good"
  by (cases q) simp_all

lemma Insert_row:
  assumes "Insert bind flt (reading_entry gid r) db = (Inr e, db')"
  shows "wire_of_row (last (data_queue db')) = toWireEntry (to_dispatch (new_row bind (dq_seq db + 1) ((reading_entry gid r)\<lparr>SequenceID := SequenceID e\<rparr>)))"
  using assms by (auto simp: Insert_def wire_of_row_def Let_def split: option.splits if_splits)

lemma Insert_faithful:
  assumes "honest ds (Emit r)" "Insert bind flt (reading_entry gid r) db = (Inr e, db')"
  shows "faithful_wire ds (wire_of_row (last (data_queue db')))"
proof -
  from assms(1) obtain d dps p where d: "(d, dps) \<in> set ds" "p \<in> set dps" "reading_of d p r" and c: "consistent r"
    by (auto simp: honest_def)
  have "a_Value r = None \<or> a_Quality r = Good" using c by (auto simp: consistent_def)
  with d show ?thesis
    unfolding Insert_row [OF assms(2)] faithful_wire_def reading_of_def
    by (auto simp: toWireEntry_def to_dispatch_def new_row_def reading_entry_def)
qed

definition gw_tables :: "('c, 's) gateway \<Rightarrow> cfgdb" where
  "gw_tables g = sv_db (gw_api g)"

definition runs :: "running_connection \<Rightarrow> 'c goroutine option \<Rightarrow> bool" where
  \<comment> \<open>the goroutine polls what is registered\<close>
  "runs rc p \<longleftrightarrow> (case p of Some (Polling q) \<Rightarrow> p_conn q = rc_conn rc \<and> p_devices q = rc_devices rc | _ \<Rightarrow> False)"

definition managed :: "('c, 's) gateway \<Rightarrow> bool" where
  "managed g \<longleftrightarrow> (case sv_manager (gw_api g) of
       None \<Rightarrow> gw_pollers g = Map.empty
     | Some m \<Rightarrow> (\<forall>i n. m_gen m < n \<longrightarrow> gw_pollers g (i, n) = None) \<and>
         (\<forall>i rc. map_of (m_running m) i = Some rc \<longrightarrow> runs rc (gw_pollers g (i, rc_gen rc))))"

text \<open>What the pollers hold back and what was stored, for a law \<open>good\<close> about events and a law \<open>fit\<close> about stored entries.\<close>

definition dialled :: "(client_config \<Rightarrow> 'c client \<times> 'c) \<Rightarrow> 'c poller \<Rightarrow> bool" where
  "dialled dial p \<longleftrightarrow> (\<exists>cfg. BuildClient (p_conn p) = Inr cfg \<and> p_client p = fst (dial cfg))"

definition pollers_ok ::
  "(client_config \<Rightarrow> 'c client \<times> 'c) \<Rightarrow> (connection \<Rightarrow> device_points list \<Rightarrow> acq_event \<Rightarrow> bool) \<Rightarrow>
   (('c, 's) gateway \<Rightarrow> ('c, 's) gateway \<Rightarrow> bool) \<Rightarrow> ('c, 's) gateway \<Rightarrow> ('c, 's) gateway \<Rightarrow> bool" where
  "pollers_ok dial good step g0 g \<longleftrightarrow> (\<forall>k p. gw_pollers g k = Some (Polling p) \<longrightarrow> dialled dial p \<and>
     asked_for step g0 gw_tables g (p_conn p) (p_devices p) \<and> list_all (good (p_conn p) (p_devices p)) (p_out p))"

definition inserted_ok ::
  "(connection \<Rightarrow> device_points list \<Rightarrow> wire_entry \<Rightarrow> bool) \<Rightarrow>
   (('c, 's) gateway \<Rightarrow> ('c, 's) gateway \<Rightarrow> bool) \<Rightarrow> ('c, 's) gateway \<Rightarrow> ('c, 's) gateway \<Rightarrow> bool" where
  "inserted_ok fit step g0 g \<longleftrightarrow> (\<forall>k w. sys_inserted (gw_sys g) k = Some w \<longrightarrow>
     (\<exists>conn ds. asked_for step g0 gw_tables g conn ds \<and> fit conn ds w))"

subsection \<open>The parts of the invariant\<close>

lemma runConnection_simps:
  "BuildClient (rc_conn rc) = Inr cfg \<Longrightarrow> runs rc (Some (runConnection dial (rc_conn rc) (rc_devices rc)))"
  "runConnection dial c ds = Polling p \<Longrightarrow> p_conn p = c \<and> p_devices p = ds \<and> p_out p = [] \<and> dialled dial p"
  by (auto simp: runConnection_def runs_def dialled_def split: sum.split sum.splits prod.splits)

lemma spawn_new:
  "ps (i, n) = None \<Longrightarrow> spawn dial m ps (i, n) = Some q \<Longrightarrow>
    (\<exists>m' rc. m = Some m' \<and> map_of (m_running m') i = Some rc \<and> rc_gen rc = n \<and> q = runConnection dial (rc_conn rc) (rc_devices rc))"
  by (auto simp: spawn_def split: option.splits if_splits)

lemma spawn_old: "ps k = Some q \<Longrightarrow> spawn dial m ps k = Some q"
  by (cases k) (simp add: spawn_def)

lemma gw_api_deliver [simp]:
  "sv_db (gw_api (deliver bind flt e g)) = sv_db (gw_api g)" "sv_manager (gw_api (deliver bind flt e g)) = sv_manager (gw_api g)"
  "gw_pollers (deliver bind flt e g) = gw_pollers g" "gw_id (deliver bind flt e g) = gw_id g"
  by (cases e; simp add: deliver_def)+

lemma server_inv_cong: "server_inv bind sv \<Longrightarrow> sv_db sv' = sv_db sv \<Longrightarrow> sv_manager sv' = sv_manager sv \<Longrightarrow> server_inv bind sv'"
  by (simp add: server_inv_def)

lemma server_inv_manager:
  "server_inv bind sv \<Longrightarrow> server_inv bind (sv\<lparr>sv_manager := None, sv_status := st\<rparr>)"
  "server_inv bind sv \<Longrightarrow> server_inv bind (sv\<lparr>sv_status := st, sv_manager := Some NewManager\<rparr>)"
  by (simp_all add: server_inv_def mgr_inv_New)

lemma gw_step_server_inv:
  assumes "gw_step bind fused dial send ok g g'" "exact_bind bind" "server_inv bind (gw_api g)"
  shows "server_inv bind (gw_api g')"
  using assms(1)
proof cases
  case (gw_start flt env gid name)
  show ?thesis unfolding gw_start
    using server_inv_manager [OF assms(3)]
    by (auto simp: start_acquisition_def stop_process_def Let_def intro: server_inv_reload split: prod.split option.split)
next
  case (gw_request sv)
  with api_step_inv [OF _ assms(2,3)] show ?thesis by simp
next
  case (gw_event k p e es flt)
  show ?thesis unfolding gw_event by (rule server_inv_cong [OF assms(3)]) simp_all
qed (use assms(3) server_inv_manager in \<open>auto simp: stop_process_def start_forwarder_def\<close>)

lemma managed_spawn:
  assumes "server_inv bind (gw_api g)" "server_inv bind sv" "reloads (gw_api g) sv" "managed g"
    "g' = g\<lparr>gw_api := sv, gw_pollers := spawn dial (sv_manager sv) (gw_pollers g)\<rparr>"
  shows "managed g'"
proof (cases "sv_manager sv")
  case None
  with assms(3) have "sv_manager (gw_api g) = None" by (auto simp: reloads_def)
  with assms(4) None show ?thesis by (auto simp: assms(5) managed_def spawn_def split: option.split)
next
  case (Some m')
  then obtain m where m: "sv_manager (gw_api g) = Some m" "m_gen m \<le> m_gen m'"
    "\<And>i rc. map_of (m_running m') i = Some rc \<Longrightarrow> rc_gen rc \<le> m_gen m' \<and>
       (map_of (m_running m) i = Some rc \<or> m_gen m < rc_gen rc \<and> polled (sv_db sv) i = Some (rc_conn rc, rc_devices rc))"
    by (rule reloads_running [OF assms(1-3)]) blast
  have none: "m_gen m < n \<Longrightarrow> gw_pollers g (i, n) = None" and run: "map_of (m_running m) i = Some rc \<Longrightarrow> runs rc (gw_pollers g (i, rc_gen rc))"
    for i n rc using assms(4) m(1) by (auto simp: managed_def)
  have "spawn dial (Some m') (gw_pollers g) (i, n) = None" if "m_gen m' < n" for i n
  proof (cases "spawn dial (Some m') (gw_pollers g) (i, n)")
    case (Some q)
    with none [of n i] m(2) that spawn_new [of "gw_pollers g" i n] m(3) show ?thesis by fastforce
  qed
  moreover have "runs rc (spawn dial (Some m') (gw_pollers g) (i, rc_gen rc))" if rc: "map_of (m_running m') i = Some rc" for i rc
    using m(3) [OF rc]
  proof (elim conjE disjE)
    assume "map_of (m_running m) i = Some rc"
    from run [OF this] obtain q where q: "gw_pollers g (i, rc_gen rc) = Some q" "runs rc (Some q)"
      by (cases "gw_pollers g (i, rc_gen rc)") (auto simp: runs_def)
    then show ?thesis by (simp add: spawn_old)
  next
    assume new: "m_gen m < rc_gen rc" "polled (sv_db sv) i = Some (rc_conn rc, rc_devices rc)"
    have "checked_cfg bind (sv_db sv)" using assms(2) by (simp add: server_inv_def)
    from polled_builds [OF this new(2)] none [OF new(1), of i] rc show ?thesis
      by (auto simp: spawn_def runConnection_simps)
  qed
  ultimately show ?thesis using Some by (simp add: assms(5) managed_def)
qed

lemma start_acquisition_cases:
  obtains (exit) db where "start_acquisition dial flt env gid name g = (stop_process g)\<lparr>gw_sys := (gw_sys g)\<lparr>sys_db := db\<rparr>\<rparr>"
  | (run) db where "start_acquisition dial flt env gid name g =
      (let g1 = (stop_process g)\<lparr>gw_id := gid, gw_api := (gw_api g)\<lparr>sv_status := Map.empty, sv_manager := Some NewManager\<rparr>, gw_diag := Some new_diag,
             gw_sys := (gw_sys g)\<lparr>sys_db := db\<rparr>\<rparr>;
           sv = reload env (gw_api g1)
       in g1\<lparr>gw_api := sv, gw_pollers := spawn dial (sv_manager sv) (gw_pollers g1)\<rparr>)"
proof (cases "EnsureGateway flt gid name (sys_db (gw_sys g))")
  case (Pair res db)
  show thesis
  proof (cases res)
    case None
    with Pair show thesis by (intro run [of db]) (simp add: start_acquisition_def stop_process_def Let_def)
  next
    case (Some e)
    with Pair show thesis by (intro exit [of db]) (simp add: start_acquisition_def stop_process_def Let_def)
  qed
qed

lemma managed_update:
  assumes "managed g" "gw_pollers g k = Some (Polling p)" "p_conn q = p_conn p" "p_devices q = p_devices p"
    "sv_manager (gw_api g') = sv_manager (gw_api g)" "gw_pollers g' = (gw_pollers g)(k \<mapsto> Polling q)"
  shows "managed g'"
  using assms by (fastforce simp: managed_def runs_def split: option.splits)

lemma managed_stop: "managed (stop_process g)"
  by (simp add: managed_def stop_process_def)

lemma managed_cong: "managed g \<Longrightarrow> sv_manager (gw_api g') = sv_manager (gw_api g) \<Longrightarrow> gw_pollers g' = gw_pollers g \<Longrightarrow> managed g'"
  by (simp add: managed_def split: option.splits)

lemma managed_step:
  assumes "gw_step bind fused dial send ok g g'" "exact_bind bind" "server_inv bind (gw_api g)" "managed g"
  shows "managed g'"
  using assms(1)
proof cases
  case gw_crash
  then show ?thesis by (simp add: managed_stop)
next
  case (gw_start flt env gid name)
  show ?thesis
  proof (rule start_acquisition_cases [of dial flt env gid name g])
    fix db assume "start_acquisition dial flt env gid name g = (stop_process g)\<lparr>gw_sys := (gw_sys g)\<lparr>sys_db := db\<rparr>\<rparr>"
    then show ?thesis unfolding gw_start by (intro managed_cong [OF managed_stop [of g]]) simp_all
  next
    fix db
    let ?g1 = "(stop_process g)\<lparr>gw_id := gid, gw_api := (gw_api g)\<lparr>sv_status := Map.empty, sv_manager := Some NewManager\<rparr>,
        gw_diag := Some new_diag, gw_sys := (gw_sys g)\<lparr>sys_db := db\<rparr>\<rparr>"
    assume r: "start_acquisition dial flt env gid name g = (let g1 = ?g1; sv = reload env (gw_api g1)
        in g1\<lparr>gw_api := sv, gw_pollers := spawn dial (sv_manager sv) (gw_pollers g1)\<rparr>)"
    have i: "server_inv bind (gw_api ?g1)" using server_inv_manager(2) [OF assms(3)] by simp
    have m: "managed ?g1" by (simp add: managed_def stop_process_def NewManager_def)
    show ?thesis unfolding gw_start r Let_def
      by (rule managed_spawn [OF i server_inv_reload [OF i] _ m refl]) (rule reloads_reload)
  qed
next
  case (gw_request sv)
  show ?thesis
    by (rule managed_spawn [OF assms(3) api_step_inv [OF gw_request(3) assms(2,3)] api_step_reloads [OF gw_request(3)] assms(4) gw_request(1)])
next
  case (gw_pass k p env go evs s')
  then show ?thesis by (intro managed_update [OF assms(4) gw_pass(2)]) simp_all
next
  case (gw_event k p e es flt)
  then show ?thesis by (intro managed_update [OF assms(4) gw_event(2)]) simp_all
qed (use assms(4) in \<open>auto intro: managed_cong simp: start_forwarder_def\<close>)

text \<open>The goroutines of the next state are those of this one, possibly further on, and those a reload has started.\<close>

lemma pollers_from:
  assumes "gw_step bind fused dial send ok g g'" "exact_bind bind" "server_inv bind (gw_api g)" "managed g"
    "gw_pollers g' k = Some (Polling p)"
  obtains (same) q where "gw_pollers g k = Some (Polling q)" "p_conn p = p_conn q" "p_devices p = p_devices q"
      "p_client p = p_client q"
      "set (p_out p) \<subseteq> set (p_out q) \<or>
        (\<exists>env s go s'. sorting env \<and> scan_pass fused (p_client q) (p_conn q) (p_devices q) env s = (go, p_out p, s'))"
  | (new) i where "polled (gw_tables g') i = Some (p_conn p, p_devices p)" "p_out p = []" "dialled dial p"
proof -
  have spawned: thesis
    if sv: "server_inv bind (gw_api g1)" "server_inv bind sv" "reloads (gw_api g1) sv" "managed g1"
      and g': "gw_api g' = sv" "gw_pollers g' = spawn dial (sv_manager sv) (gw_pollers g1)"
      and sub: "\<And>q. gw_pollers g1 k = Some q \<Longrightarrow> gw_pollers g k = Some q" for g1 sv
  proof (cases "gw_pollers g1 k")
    case (Some q)
    with assms(5) g'(2) sub [OF Some] show thesis by (intro same [of p]) (simp_all add: spawn_old)
  next
    case None
    obtain i n where k: "k = (i, n)" by fastforce
    from spawn_new [of "gw_pollers g1" i n] None assms(5) g'(2) k obtain m' rc where
      m': "sv_manager sv = Some m'" "map_of (m_running m') i = Some rc" "rc_gen rc = n" "Polling p = runConnection dial (rc_conn rc) (rc_devices rc)"
      by metis
    obtain m where m: "sv_manager (gw_api g1) = Some m" "map_of (m_running m) i = Some rc \<or> polled (sv_db sv) i = Some (rc_conn rc, rc_devices rc)"
      using m'(2) by (rule_tac reloads_running [OF sv(1-3) m'(1)]) blast
    have "map_of (m_running m) i \<noteq> Some rc"
    proof
      assume "map_of (m_running m) i = Some rc"
      with sv(4) m(1) have "runs rc (gw_pollers g1 (i, rc_gen rc))" by (simp add: managed_def)
      with None k m'(3) show False by (simp add: runs_def)
    qed
    with m(2) runConnection_simps(2) [OF m'(4) [symmetric]] g'(1) show thesis by (intro new [of i]) (simp_all add: gw_tables_def)
  qed
  from assms(1) show thesis
  proof cases
    case (gw_start flt env gid name)
    show thesis
    proof (rule start_acquisition_cases [of dial flt env gid name g])
      fix db assume "start_acquisition dial flt env gid name g = (stop_process g)\<lparr>gw_sys := (gw_sys g)\<lparr>sys_db := db\<rparr>\<rparr>"
      then show thesis using assms(5) gw_start by (simp add: stop_process_def)
    next
      fix db
      let ?g1 = "(stop_process g)\<lparr>gw_id := gid, gw_api := (gw_api g)\<lparr>sv_status := Map.empty, sv_manager := Some NewManager\<rparr>,
          gw_diag := Some new_diag, gw_sys := (gw_sys g)\<lparr>sys_db := db\<rparr>\<rparr>"
      assume r: "start_acquisition dial flt env gid name g = (let g1 = ?g1; sv = reload env (gw_api g1)
          in g1\<lparr>gw_api := sv, gw_pollers := spawn dial (sv_manager sv) (gw_pollers g1)\<rparr>)"
      have i: "server_inv bind (gw_api ?g1)" using server_inv_manager(2) [OF assms(3)] by simp
      have m: "managed ?g1" by (simp add: managed_def stop_process_def NewManager_def)
      show thesis
        by (rule spawned [OF i server_inv_reload [OF i] reloads_reload(1) m]) (simp_all add: gw_start r Let_def stop_process_def)
    qed
  next
    case (gw_request sv)
    show thesis
      by (rule spawned [OF assms(3) api_step_inv [OF gw_request(3) assms(2,3)] api_step_reloads [OF gw_request(3)] assms(4)])
        (simp_all add: gw_request)
  next
    case (gw_pass k' q env go evs s')
    with assms(5) show thesis by (cases "k' = k") (auto intro: same)
  next
    case (gw_event k' q e es flt)
    with assms(5) show thesis by (cases "k' = k") (auto intro: same)
  qed (use assms(5) in \<open>auto intro: same simp: stop_process_def start_forwarder_def\<close>)
qed

lemma gw_reachable_managed:
  assumes "(gw_step bind fused dial send ok)\<^sup>*\<^sup>* (new_gateway net) g" "exact_bind bind"
  shows "server_inv bind (gw_api g) \<and> managed g"
  using assms(1)
proof (induction rule: rtranclp_induct)
  case base
  show ?case by (simp add: new_gateway_def server_inv_def checked_empty managed_def)
next
  case (step g g')
  then show ?case using gw_step_server_inv [OF step(2) assms(2)] managed_step [OF step(2) assms(2)] by blast
qed

subsection \<open>Laws about events carry over to what is stored\<close>

text \<open>A law that every event of a scan pass satisfies, with the client the connection was dialled with, and that survives the insertion of
  a reading, holds of every entry the gateway ever stored.\<close>

locale emission_law =
  fixes bind :: "f64 \<Rightarrow> f64 option" and fused :: bool and dial :: "client_config \<Rightarrow> 'c client \<times> 'c"
    and good :: "connection \<Rightarrow> device_points list \<Rightarrow> acq_event \<Rightarrow> bool" and fit :: "connection \<Rightarrow> device_points list \<Rightarrow> wire_entry \<Rightarrow> bool"
  assumes pass: "\<lbrakk>BuildClient conn = Inr cfg; sorting env; scan_pass fused (fst (dial cfg)) conn ds env s = (go, evs, s')\<rbrakk> \<Longrightarrow>
      list_all (good conn ds) evs"
    and stored: "\<lbrakk>good conn ds (Emit r); Insert bind flt (reading_entry gid r) db = (Inr e, db')\<rbrakk> \<Longrightarrow>
      fit conn ds (wire_of_row (last (data_queue db')))"
begin

lemma pollers_ok_step:
  assumes "gw_step bind fused dial send ok g g'" "exact_bind bind" "server_inv bind (gw_api g)" "managed g"
    "(gw_step bind fused dial send ok)\<^sup>*\<^sup>* g0 g" "pollers_ok dial good (gw_step bind fused dial send ok) g0 g"
  shows "pollers_ok dial good (gw_step bind fused dial send ok) g0 g'"
  unfolding pollers_ok_def
proof (intro allI impI)
  note still = asked_for_step [where step = "gw_step bind fused dial send ok", OF _ assms(1)]
  fix k p assume p: "gw_pollers g' k = Some (Polling p)"
  from assms(1-4) p show "dialled dial p \<and> asked_for (gw_step bind fused dial send ok) g0 gw_tables g' (p_conn p) (p_devices p) \<and>
      list_all (good (p_conn p) (p_devices p)) (p_out p)"
  proof (cases rule: pollers_from)
    case (same q)
    with assms(6) have q: "asked_for (gw_step bind fused dial send ok) g0 gw_tables g (p_conn p) (p_devices p)"
      "list_all (good (p_conn q) (p_devices q)) (p_out q)" "dialled dial q" by (simp_all add: pollers_ok_def del: split_paired_All)
    from same(2,4) q(3) have d: "dialled dial p" by (simp add: dialled_def)
    have "list_all (good (p_conn q) (p_devices q)) (p_out p)"
      using same(5)
    proof
      assume "set (p_out p) \<subseteq> set (p_out q)"
      with q(2) show ?thesis by (auto simp: list_all_iff)
    next
      assume "\<exists>env s go s'. sorting env \<and> scan_pass fused (p_client q) (p_conn q) (p_devices q) env s = (go, p_out p, s')"
      with pass q(3) show ?thesis unfolding dialled_def by metis
    qed
    with q(1) d same(2,3) still show ?thesis by simp
  next
    case (new i)
    from assms(5,1) have "(gw_step bind fused dial send ok)\<^sup>*\<^sup>* g0 g'" by (rule rtranclp.rtrancl_into_rtrancl)
    with new show ?thesis by (simp add: asked_for_now)
  qed
qed

lemma inserted_ok_step:
  assumes "gw_step bind fused dial send ok g g'"
    "pollers_ok dial good (gw_step bind fused dial send ok) g0 g" "inserted_ok fit (gw_step bind fused dial send ok) g0 g"
  shows "inserted_ok fit (gw_step bind fused dial send ok) g0 g'"
proof -
  note still = asked_for_step [where step = "gw_step bind fused dial send ok", OF _ assms(1)]
  let ?ok = "\<lambda>g w. \<exists>conn ds. asked_for (gw_step bind fused dial send ok) g0 gw_tables g conn ds \<and> fit conn ds w"
  have keep: "?ok g' w" if "sys_inserted (gw_sys g) k = Some w" for k w
    using assms(3) that still unfolding inserted_ok_def by blast
  have same: ?thesis if "sys_inserted (gw_sys g') = sys_inserted (gw_sys g)"
    using keep that unfolding inserted_ok_def by simp
  from assms(1) show ?thesis
  proof cases
    case (gw_start flt env gid name)
    then show ?thesis
      by (intro same) (simp add: start_acquisition_def stop_process_def Let_def split: prod.split option.split)
  next
    case (gw_event k p e es flt)
    show ?thesis
    proof (cases "\<exists>r e' db'. e = Emit r \<and> Insert bind flt (reading_entry (gw_id g) r) (sys_db (gw_sys g)) = (Inr e', db')")
      case True
      then obtain r e' db' where i: "e = Emit r" "Insert bind flt (reading_entry (gw_id g) r) (sys_db (gw_sys g)) = (Inr e', db')" by blast
      have "good (p_conn p) (p_devices p) (Emit r)" "asked_for (gw_step bind fused dial send ok) g0 gw_tables g (p_conn p) (p_devices p)"
        using assms(2) [unfolded pollers_ok_def, rule_format, OF gw_event(2)] gw_event(3) i(1) by simp_all
      with stored [OF _ i(2)] still have "?ok g' (wire_of_row (last (data_queue db')))" by blast
      then show ?thesis
        using keep i by (auto simp: inserted_ok_def gw_event(1) deliver_def record_insert_def)
    next
      case False
      then show ?thesis
        by (intro same) (cases e, auto simp: gw_event(1) deliver_def record_insert_def split: prod.split sum.split)
    qed
  next
    case (gw_dispatch y)
    from gw_dispatch(3) have "sys_inserted y = sys_inserted (gw_sys g)" by cases simp_all
    with gw_dispatch(1) show ?thesis by (intro same) simp
  next
    case (gw_sweep y)
    from gw_sweep(3) have "sys_inserted y = sys_inserted (gw_sys g)" by cases simp_all
    with gw_sweep(1) show ?thesis by (intro same) simp
  qed (rule same, simp add: stop_process_def start_forwarder_def)+
qed

lemma reachable_laws:
  assumes "(gw_step bind fused dial send ok)\<^sup>*\<^sup>* (new_gateway net) g" "exact_bind bind"
  shows "pollers_ok dial good (gw_step bind fused dial send ok) (new_gateway net) g \<and>
    inserted_ok fit (gw_step bind fused dial send ok) (new_gateway net) g"
  using assms(1)
proof (induction rule: rtranclp_induct)
  case base
  show ?case by (simp add: new_gateway_def pollers_ok_def inserted_ok_def init_sys_def)
next
  case (step g g')
  with gw_reachable_managed [OF step(1) assms(2)] show ?case
    using pollers_ok_step [OF step(2) assms(2) _ _ step(1)] inserted_ok_step [OF step(2)] by blast
qed

lemma everything_stored_fits:
  assumes "(gw_step bind fused dial send ok)\<^sup>*\<^sup>* (new_gateway net) g" "exact_bind bind" "sys_inserted (gw_sys g) k = Some w"
  shows "\<exists>conn ds. asked_for (gw_step bind fused dial send ok) (new_gateway net) gw_tables g conn ds \<and> fit conn ds w"
  using reachable_laws [OF assms(1,2)] assms(3) unfolding inserted_ok_def by blast

end

interpretation honesty: emission_law bind fused dial "\<lambda>_. honest" "\<lambda>_. faithful_wire" for bind fused dial
  by unfold_locales (blast intro: scan_pass_honest Insert_faithful)+

section \<open>A run of the gateway\<close>

text \<open>Started, configured over the Web API, restarted; then one scan pass reads the data point and its reading is stored.\<close>

definition zero_dial :: "client_config \<Rightarrow> unit client \<times> unit" where
  "zero_dial cfg = (zero_client, ())"

lemma gw_requests:
  assumes "gw_forwards g" "list_all (\<lambda>f. \<forall>sv. api_step bind sv (f sv) \<and> sv_status (f sv) = sv_status sv) fs"
  obtains g' where "(gw_step bind fused dial send ok)\<^sup>*\<^sup>* g g'" "gw_api g' = fold (\<lambda>f. f) fs (gw_api g)" "gw_sys g' = gw_sys g"
proof -
  have "\<exists>g'. (gw_step bind fused dial send ok)\<^sup>*\<^sup>* g g' \<and> gw_api g' = fold (\<lambda>f. f) fs (gw_api g) \<and> gw_sys g' = gw_sys g"
    using assms
  proof (induction fs arbitrary: g)
    case Nil
    then show ?case by auto
  next
    case (Cons f fs)
    let ?sv = "f (gw_api g)"
    let ?g = "g\<lparr>gw_api := ?sv, gw_pollers := spawn dial (sv_manager ?sv) (gw_pollers g)\<rparr>"
    have "gw_step bind fused dial send ok g ?g" using Cons.prems by (intro gw_request) simp_all
    moreover from Cons.IH [of ?g] Cons.prems obtain g' where
      "(gw_step bind fused dial send ok)\<^sup>*\<^sup>* ?g g'" "gw_api g' = fold (\<lambda>f. f) fs ?sv" "gw_sys g' = gw_sys g" by auto
    ultimately show ?case by (auto intro: converse_rtranclp_into_rtranclp)
  qed
  then show thesis using that by blast
qed

lemma sample_requests_ok: "list_all (\<lambda>f. \<forall>sv. api_step sqlite_bind sv (f sv) \<and> sv_status (f sv) = sv_status sv) sample_requests"
  by (auto simp: sample_requests_def intro: api_step.intros)
    (auto simp: createConnection_def createDevice_def createDataPoint_def Let_def reload_only split: sum.split option.split prod.split)

lemma configured_gateway:
  obtains g where "(gw_step sqlite_bind fused dial send ok)\<^sup>*\<^sup>* (new_gateway net) g" "sv_db (gw_api g) = sample_cfg_db"
    "sys_db (gw_sys g) = snd (EnsureGateway None ''GW001'' ''Dev'' empty_qdb)" "sys_net (gw_sys g) = net"
proof -
  let ?step = "gw_step sqlite_bind fused dial send ok"
  let ?g1 = "start_acquisition dial None plain_api ''GW001'' ''Dev'' (new_gateway net)"
  let ?g2 = "start_forwarder None ?g1"
  obtain db where e: "EnsureGateway None ''GW001'' ''Dev'' empty_qdb = (None, db)" by (simp add: EnsureGateway_def)
  have g1: "sv_db (gw_api ?g1) = empty_cfg" "sv_manager (gw_api ?g1) \<noteq> None" "\<not> gw_forwards ?g1" "sys_db (gw_sys ?g1) = db"
    "sys_net (gw_sys ?g1) = net"
    using e by (auto simp: start_acquisition_def new_gateway_def stop_process_def init_sys_def Let_def reload_def)
  have "?step (new_gateway net) ?g1" by (rule gw_start)
  moreover have "?step ?g1 ?g2" using g1 by (intro gw_forward)
  ultimately have r: "?step\<^sup>*\<^sup>* (new_gateway net) ?g2" by (meson rtranclp.rtrancl_into_rtrancl rtranclp.rtrancl_refl)
  have g2: "gw_forwards ?g2" "gw_api ?g2 = gw_api ?g1" "sys_db (gw_sys ?g2) = db" "sys_net (gw_sys ?g2) = net"
    using e g1(4,5) by (auto simp: start_forwarder_def RecoverSendingToPending_def EnsureGateway_def empty_qdb_def)
  obtain g where g: "?step\<^sup>*\<^sup>* ?g2 g" "gw_api g = fold (\<lambda>f. f) sample_requests (gw_api ?g2)" "gw_sys g = gw_sys ?g2"
    by (rule gw_requests [OF g2(1) sample_requests_ok]) blast
  show thesis
    by (rule that [OF rtranclp_trans [OF r g(1)]]) (simp_all add: g g2 g1(1) sample_requests_db e)
qed

definition run_conn :: connection where "run_conn = sample_conn\<lparr>c_ID := 1\<rparr>"
definition run_dev :: device where "run_dev = sample_dev\<lparr>d_ID := 1\<rparr>"
definition run_dp :: datapoint where "run_dp = sample_dp\<lparr>dp_ID := 1, dp_Priority := dp_priorityOrDefault (dp_Priority sample_dp)\<rparr>"

lemmas run_sample = run_conn_def run_dev_def run_dp_def sample_conn_def sample_dev_def sample_dp_def

lemma polled_sample: "polled sample_cfg_db 1 = Some (run_conn, [(run_dev, [run_dp])])"
  by (simp add: run_sample polled_def row_by_def group_of_def enabled_points_def sample_cfg_rows conn_row_of_def dev_row_of_def
      dp_row_of_def boolToInt_def scanConnection_def scanDevice_def scanDataPoint_def null_int_def Let_def)

lemma zero_scaled: "is_zero x \<Longrightarrow> is_finite y \<Longrightarrow> is_zero z \<Longrightarrow> is_finite (ApplyScale False x y z)"
  by (cases x; cases y; cases z) (auto simp: ApplyScale_def f64_round_def f64_add_fin_def Let_def)

lemma run_reading: "\<exists>v. a_Value (decodeAndEmit False run_dev run_dp [0, 0] (dp_RegisterAddress run_dp) 1) = Some v \<and> is_finite v"
proof -
  have "is_finite (ApplyScale False (f64_of_int 0) f64_one f64_zero)"
    by (rule zero_scaled) (simp_all add: f64_of_int_def f64_round_def f64_one_def f64_zero_def)
  then show ?thesis
    by (simp add: run_sample decodeAndEmit_def ByteWidth_def Decode_def reorder_def be_def Let_def dp_priorityOrDefault_def)
qed

lemma sample_pass:
  "scan_pass False zero_client run_conn [(run_dev, [run_dp])] plain_env \<lparr>s_connected = False, s_diag = Some new_diag, s_client = ()\<rparr> =
     (True, [Emit (decodeAndEmit False run_dev run_dp [0, 0] (dp_RegisterAddress run_dp) 1),
             PollCycle 1 0 1 1 1, Waited (250 * millisecond), Waited cycleYieldDelay],
      \<lparr>s_connected = True, s_diag = Some (RecordResult Good 0 1 new_diag), s_client = ()\<rparr>)"
  by (simp add: scan_pass_def zero_client_def plain_env_def readDevice_def planBlockReads_def plan_group_def
      read_blocks_Cons block_result_def block_readings_def result_quality_def QualityFromError_def RegisterCount_def
      ByteWidth_def flush_def wait_for_def Let_def run_sample cycleYieldDelay_def
      reconnectFloorDelay_def millisecond_def numeral_2_eq_2)

lemma started_pollers:
  assumes "\<And>cfg. BuildClient run_conn = Inr cfg \<Longrightarrow> dial cfg = (cl, st0)" "sv_db (gw_api g) = sample_cfg_db"
    "EnsureGateway None ''GW001'' ''Dev'' (sys_db (gw_sys g)) = (None, db)"
  obtains g' m where "start_acquisition dial None plain_api ''GW001'' ''Dev'' g = g'" "gw_id g' = ''GW001''" "\<not> gw_forwards g'"
    "sv_manager (gw_api g') = Some m" "(1, 1) \<in> set (m_live m)" "gw_diag g' = Some new_diag" "gw_sys g' = (gw_sys g)\<lparr>sys_db := db\<rparr>"
    "map_of (m_running m) 1 = Some \<lparr>rc_gen = 1, rc_conn = run_conn, rc_devices = [(run_dev, [run_dp])]\<rparr>"
    "gw_pollers g' (1, 1) = Some (Polling \<lparr>p_conn = run_conn, p_devices = [(run_dev, [run_dp])], p_client = cl,
       p_scan = \<lparr>s_connected = False, s_diag = None, s_client = st0\<rparr>, p_go = True, p_out = []\<rparr>)"
proof -
  obtain m where r: "Reload None None (\<lambda>_. None) sample_cfg_db NewManager = (None, m)" by (rule reload_sample)
  have map: "map_of (m_running m) 1 = Some \<lparr>rc_gen = 1, rc_conn = run_conn, rc_devices = [(run_dev, [run_dp])]\<rparr>"
    using Reload_map(3) [OF mgr_inv_New cfg_inv_sample r, of 1] polled_sample by (simp add: NewManager_def)
  have eq: "set (m_live m) = (\<lambda>p. (fst p, rc_gen (snd p))) ` set (m_running m)"
    using Reload_map(1) [OF mgr_inv_New cfg_inv_sample r] by (simp add: mgr_inv_def)
  have live: "(1, 1) \<in> set (m_live m)"
    unfolding eq by (rule image_eqI [OF _ map_of_SomeD [OF map]]) simp
  obtain cfg where "BuildClient run_conn = Inr cfg"
    by (simp add: BuildClient_def run_sample)
  then have run: "runConnection dial run_conn [(run_dev, [run_dp])] = Polling \<lparr>p_conn = run_conn, p_devices = [(run_dev, [run_dp])],
      p_client = cl, p_scan = \<lparr>s_connected = False, s_diag = None, s_client = st0\<rparr>, p_go = True, p_out = []\<rparr>"
    by (simp add: runConnection_def assms(1))
  show thesis
    by (rule that [OF refl, where m = m])
      (simp_all add: start_acquisition_def stop_process_def assms(2,3) Let_def reload_def plain_api_def r live [simplified] spawn_def map run)
qed

lemma run_with_dial:
  assumes dial: "\<And>cfg. BuildClient run_conn = Inr cfg \<Longrightarrow> dial cfg = (cl, st0)"
    and pass: "scan_pass False cl run_conn [(run_dev, [run_dp])] plain_env \<lparr>s_connected = False, s_diag = Some new_diag, s_client = st0\<rparr> =
      (True, Emit (decodeAndEmit False run_dev run_dp [0, 0] (dp_RegisterAddress run_dp) 1) # evs, s')"
  obtains g w where "(gw_step sqlite_bind False dial send ok)\<^sup>*\<^sup>* (new_gateway net) g"
    "sys_inserted (gw_sys g) (''GW001'', 1) = Some w" "w_DatapointID w = 1"
    "\<exists>m rc. sv_manager (gw_api g) = Some m \<and> map_of (m_running m) 1 = Some rc \<and> rc_gen rc = 1"
    "\<not> gw_forwards g" "sys_net (gw_sys g) = net"
    "\<exists>r. data_queue (sys_db (gw_sys g)) = [r] \<and> q_status r = PENDING \<and> q_next_attempt_at r = 0 \<and> pred_option is_finite (q_value r)"
proof -
  let ?step = "gw_step sqlite_bind False dial send ok"
  let ?r = "decodeAndEmit False run_dev run_dp [0, 0] (dp_RegisterAddress run_dp) 1"
  obtain g0 where g0: "?step\<^sup>*\<^sup>* (new_gateway net) g0" "sv_db (gw_api g0) = sample_cfg_db"
    "sys_db (gw_sys g0) = snd (EnsureGateway None ''GW001'' ''Dev'' empty_qdb)" "sys_net (gw_sys g0) = net" by (rule configured_gateway)
  obtain db where db: "EnsureGateway None ''GW001'' ''Dev'' (sys_db (gw_sys g0)) = (None, db)"
      "gateways db ''GW001'' = Some \<lparr>g_name = ''Dev'', g_last_sequence = 0\<rparr>" "data_queue db = []"
    by (auto simp: g0(3) EnsureGateway_def empty_qdb_def)
  obtain g1 m where g1: "start_acquisition dial None plain_api ''GW001'' ''Dev'' g0 = g1" "gw_id g1 = ''GW001''" "\<not> gw_forwards g1"
    "sv_manager (gw_api g1) = Some m" "(1, 1) \<in> set (m_live m)" "gw_diag g1 = Some new_diag" "gw_sys g1 = (gw_sys g0)\<lparr>sys_db := db\<rparr>"
    "map_of (m_running m) 1 = Some \<lparr>rc_gen = 1, rc_conn = run_conn, rc_devices = [(run_dev, [run_dp])]\<rparr>"
    "gw_pollers g1 (1, 1) = Some (Polling \<lparr>p_conn = run_conn, p_devices = [(run_dev, [run_dp])], p_client = cl,
       p_scan = \<lparr>s_connected = False, s_diag = None, s_client = st0\<rparr>, p_go = True, p_out = []\<rparr>)" (is "_ = Some (Polling ?p)")
    by (rule started_pollers [OF dial g0(2) db(1)])
  have pass: "scan_pass False cl run_conn [(run_dev, [run_dp])] plain_env ((p_scan ?p)\<lparr>s_diag := gw_diag g1\<rparr>) =
      (True, Emit ?r # evs, s')" using assms(2) g1(6) by simp
  let ?g2 = "g1\<lparr>gw_diag := s_diag s', gw_pollers := (gw_pollers g1)((1, 1) \<mapsto> Polling (?p\<lparr>p_scan := s', p_go := True, p_out := Emit ?r # evs\<rparr>))\<rparr>"
  let ?g3 = "deliver sqlite_bind None (Emit ?r) (?g2\<lparr>gw_pollers := (gw_pollers ?g2)((1, 1) \<mapsto>
    Polling (?p\<lparr>p_scan := s', p_go := True, p_out := evs\<rparr>))\<rparr>)"
  have "?step g0 g1" using gw_start [of sqlite_bind False dial send ok g0 None plain_api "''GW001''" "''Dev''"] g1(1) by simp
  moreover have "?step g1 ?g2"
    using g1(4,5) pass by (intro gw_pass [OF g1(9) _ _ sorting_plain]) (simp_all add: live_def)
  moreover have "?step ?g2 ?g3"
    using gw_event [of ?g2 "(1, 1)" "?p\<lparr>p_scan := s', p_go := True, p_out := Emit ?r # evs\<rparr>" "Emit ?r" evs sqlite_bind False dial send ok None]
    by simp
  ultimately have reach: "?step\<^sup>*\<^sup>* (new_gateway net) ?g3"
    using g0(1) by (meson rtranclp.rtrancl_into_rtrancl)
  obtain e' db' where i: "Insert sqlite_bind None (reading_entry ''GW001'' ?r) db = (Inr e', db')" "GatewayID e' = ''GW001''" "SequenceID e' = 1"
      "w_DatapointID (wire_of_row (last (data_queue db'))) = 1"
      "data_queue db' = [new_row sqlite_bind (dq_seq db + 1) ((reading_entry ''GW001'' ?r)\<lparr>SequenceID := 1\<rparr>)]"
    using db(2,3) by (auto simp: Insert_def reading_entry_def Let_def wire_of_row_def toWireEntry_def to_dispatch_def new_row_def
        decodeAndEmit_def run_sample badReading_def split: sum.split)
  have row: "\<exists>r. data_queue db' = [r] \<and> q_status r = PENDING \<and> q_next_attempt_at r = 0 \<and> pred_option is_finite (q_value r)"
    using run_reading unfolding i(5) by (auto simp: new_row_def reading_entry_def sqlite_bind_def)
  show thesis
    by (rule that [OF reach]) (use i(1-4) row g1 g0(4) in \<open>simp_all add: deliver_def record_insert_def\<close>)
qed

lemmas sample_run = run_with_dial [where dial = zero_dial, OF zero_dial_def sample_pass]

section \<open>What the composed gateway guarantees\<close>

text \<open>C2: the whole gateway with the development server over HTTP. However the goroutines interleave, whatever the devices, the users of
  the Web API, the database and the network do, and whenever the process is killed and started again: each reading that was
  ever stored names a device and a data point that the configuration tables asked to poll at some earlier moment of the run, and
  carries a value only if its quality is GOOD; it is still in the queue, or at the server with the same content, or was evicted because the
  disk was full; and the server holds no key twice and nothing that was not stored.\<close>

theorem gateway_end_to_end:
  assumes "exact_bind bind" "(gw_step bind fused dial http_send (\<lambda>_ _. True))\<^sup>*\<^sup>* (new_gateway newStore) g"
  shows "(\<forall>k w. sys_inserted (gw_sys g) k = Some w \<longrightarrow>
      (\<exists>conn ds. asked_for (gw_step bind fused dial http_send (\<lambda>_ _. True)) (new_gateway newStore) gw_tables g conn ds \<and> faithful_wire ds w) \<and>
      ((\<exists>r \<in> set (data_queue (sys_db (gw_sys g))). row_key r = k \<and> wire_of_row r = w \<and> q_status r \<noteq> SENT) \<or>
       w \<in> set (received (sys_net (gw_sys g))) \<or> k \<in> sys_evicted (gw_sys g))) \<and>
    distinct (map wire_key (received (sys_net (gw_sys g)))) \<and>
    (\<forall>w \<in> set (received (sys_net (gw_sys g))). sys_inserted (gw_sys g) (wire_key w) = Some w)"
  using honesty.everything_stored_fits [OF assms(2,1)] http_no_loss [OF gw_sys_reachable [OF assms(2)]] by blast

theorem gateway_end_to_end_witness:
  "\<exists>g w. (gw_step sqlite_bind False zero_dial http_send (\<lambda>_ _. True))\<^sup>*\<^sup>* (new_gateway newStore) g \<and>
     sys_inserted (gw_sys g) (''GW001'', 1) = Some w \<and> w_DatapointID w = 1 \<and> (w_Value w = None \<or> w_Quality w = ''GOOD'')"
proof -
  obtain g w where g: "(gw_step sqlite_bind False zero_dial http_send (\<lambda>_ _. True))\<^sup>*\<^sup>* (new_gateway newStore) g"
    "sys_inserted (gw_sys g) (''GW001'', 1) = Some w" "w_DatapointID w = 1" by (rule sample_run)
  from gateway_end_to_end [OF sqlite.exact g(1)] g(2) have "\<exists>ds. faithful_wire ds w" by blast
  with g show ?thesis unfolding faithful_wire_def by blast
qed



text \<open>The same with the internal server behind an MQTT broker.\<close>

theorem gateway_end_to_end_mqtt:
  assumes "exact_bind bind" "(gw_step bind fused dial mqtt_send mqtt_ok)\<^sup>*\<^sup>* (new_gateway (new_world cfg)) g"
    "r \<in> set (mw_db (sys_net (gw_sys g)))"
  shows "\<exists>conn ds. asked_for (gw_step bind fused dial mqtt_send mqtt_ok) (new_gateway (new_world cfg)) gw_tables g conn ds \<and>
    faithful_wire ds (wire_of_reading r)"
  using honesty.everything_stored_fits [OF assms(2,1)] mqtt_no_loss [OF gw_sys_reachable [OF assms(2)]] assms(3) by blast

end
