(* ===== verification/Measured.thy ===== *)
theory Measured
  imports Processes ModbusSim
begin

text \<open>
  From the registers of the devices to the server: that a stored value is what the device held. The Modbus library (goburrow)
  is a parameter; \<open>goburrow_link\<close> states what it documents of one link, and \<open>truthful_lib\<close> that it does so on every link it opens. The two clients
  (\<open>src/gateway/internal/modbus/tcp.go\<close>, \<open>rtu.go\<close>) pass this on to the poller, the poller to the queue, the queue to the server.
\<close>

section \<open>The library and the clients on top of it\<close>

locale goburrow_link =
  fixes h :: "'c goburrow" and unit_of :: "'c \<Rightarrow> byte" and images :: "byte \<Rightarrow> image set"
  assumes link_images: "m \<in> images u \<Longrightarrow> register_image m"
    and link_unit: "unit_of (gb_SlaveId h u st) = u"
    and link_keeps:
      "unit_of (snd (gb_ReadCoils h a q st)) = unit_of st" "unit_of (snd (gb_ReadDiscreteInputs h a q st)) = unit_of st"
      "unit_of (snd (gb_ReadHoldingRegisters h a q st)) = unit_of st" "unit_of (snd (gb_ReadInputRegisters h a q st)) = unit_of st"
    and link_holding: "\<lbrakk>0 < q; unat a + unat q < 2 ^ 16; fst (gb_ReadHoldingRegisters h a q st) = Inr raw\<rbrakk> \<Longrightarrow>
      \<exists>m \<in> images (unit_of st). raw = register_bytes m 3 (unat a) (unat a + unat q)"
    and link_input: "\<lbrakk>0 < q; unat a + unat q < 2 ^ 16; fst (gb_ReadInputRegisters h a q st) = Inr raw\<rbrakk> \<Longrightarrow>
      \<exists>m \<in> images (unit_of st). raw = register_bytes m 4 (unat a) (unat a + unat q)"
begin

lemma readFunc_unit: "unit_of (snd (readFunc h fc a q st)) = unit_of st"
  by (simp add: readFunc_def link_keeps)

lemma readFunc_truthful:
  assumes "fc \<in> {3, 4}" "0 < q" "unat a + unat q < 2 ^ 16" "fst (readFunc h fc a q st) = Inr raw"
  shows "\<exists>m \<in> images (unit_of st). raw = register_bytes m fc (unat a) (unat a + unat q)"
  using assms link_holding [OF assms(2,3)] link_input [OF assms(2,3)] by (auto simp: readFunc_def)

end

sublocale goburrow_link \<subseteq> tcp: slave_bus "tcpClient h" unit_of images
  by (rule slave_bus.intro) (use link_images link_unit readFunc_unit readFunc_truthful in \<open>simp_all add: tcpClient_def\<close>)

sublocale goburrow_link \<subseteq> rtu: slave_bus "rtuClient h" unit_of images
  by (rule slave_bus.intro) (use link_images link_unit readFunc_unit readFunc_truthful in \<open>simp_all add: rtuClient_def\<close>)

context goburrow_link
begin

lemmas tcp_bus = tcp.slave_bus_axioms
lemmas rtu_bus = rtu.slave_bus_axioms

end

section \<open>What a stored value says\<close>

definition measured_wire :: "bool \<Rightarrow> (byte \<Rightarrow> image set) \<Rightarrow> device_points list \<Rightarrow> wire_entry \<Rightarrow> bool" where
  \<comment> \<open>the entry names a data point of the list; its value is the scaled decoding of the registers of that point, in one of the images
    of that point's slave\<close>
  "measured_wire fused images ds w \<longleftrightarrow> (\<exists>(d, dps) \<in> set ds. \<exists>dp \<in> set dps. w_DeviceID w = d_ID d \<and> w_DatapointID w = dp_ID dp \<and>
     (\<forall>v. w_Value w = Some v \<longrightarrow> dp_FunctionCode dp \<in> {3, 4} \<longrightarrow> (\<forall>p \<in> set dps. reg_end p < 2 ^ 16) \<longrightarrow>
       (\<exists>m \<in> images (of_int (d_SlaveID d)). \<exists>x. Decode (own_registers m dp) (dp_DataType dp) (dp_ByteOrder dp) = Inr x \<and>
          v = ApplyScale fused x (dp_Scale dp) (dp_Offset dp))))"

context register_image
begin

lemma decoded_value:
  assumes "a_Value (decodeAndEmit fused d dp (own_registers mem dp) (dp_RegisterAddress dp) t) = Some v"
  shows "\<exists>x. Decode (own_registers mem dp) (dp_DataType dp) (dp_ByteOrder dp) = Inr x \<and> v = ApplyScale fused x (dp_Scale dp) (dp_Offset dp)"
proof -
  from assms obtain n where n: "ByteWidth (dp_DataType dp) = Inr n"
    by (auto simp: decodeAndEmit_def badReading_def split: sum.splits)
  then have "known dp" by (simp add: known_def)
  then obtain q where q: "RegisterCount (dp_DataType dp) = Inr q" using known_iff by blast
  have "n = length (own_registers mem dp)"
    using RegisterCount_ByteWidth [OF q] regs_eq [OF q] n by (simp add: own_registers_def reg_end_def)
  with assms n show ?thesis by (auto simp: decodeAndEmit_def badReading_def Let_def split: if_splits sum.splits)
qed

end

lemma Insert_measured:
  assumes "exact_bind bind" "\<And>m u. m \<in> images u \<Longrightarrow> register_image m" "measured fused images ds (Emit r)"
    "Insert bind flt (reading_entry gid r) db = (Inr e, db')"
  shows "measured_wire fused images ds (wire_of_row (last (data_queue db')))"
proof -
  let ?w = "wire_of_row (last (data_queue db'))"
  have w: "w_DeviceID ?w = a_DeviceID r" "w_DatapointID ?w = a_DatapointID r"
    unfolding Insert_row [OF assms(4)] by (simp_all add: toWireEntry_def to_dispatch_def new_row_def reading_entry_def)
  have v: "a_Value r = Some v" if "w_Value ?w = Some v" for v
    using that assms(1) unfolding Insert_row [OF assms(4)]
    by (cases "a_Value r") (auto simp: toWireEntry_def to_dispatch_def new_row_def reading_entry_def exact_bind_def)
  from assms(3) obtain d dps dp where d: "(d, dps) \<in> set ds" "dp \<in> set dps" "reading_of d dp r"
    and m: "(\<forall>p \<in> set dps. reg_end p < 2 ^ 16) \<longrightarrow> (\<exists>t. from_slave fused d t (images (of_int (d_SlaveID d))) dp r)"
    unfolding measured_def acq_event.case by blast
  have "\<exists>m \<in> images (of_int (d_SlaveID d)). \<exists>x. Decode (own_registers m dp) (dp_DataType dp) (dp_ByteOrder dp) = Inr x \<and>
      v = ApplyScale fused x (dp_Scale dp) (dp_Offset dp)"
    if p: "w_Value ?w = Some v" "dp_FunctionCode dp \<in> {3, 4}" "\<forall>p \<in> set dps. reg_end p < 2 ^ 16" for v
  proof -
    obtain t i where "i \<in> images (of_int (d_SlaveID d))" "r = decodeAndEmit fused d dp (own_registers i dp) (dp_RegisterAddress dp) t"
      using m p(3) v [OF p(1)] p(2) unfolding from_slave_def by blast
    with register_image.decoded_value [OF assms(2)] v [OF p(1)] show ?thesis by blast
  qed
  then show ?thesis
    unfolding measured_wire_def using d w by (intro bexI [of _ "(d, dps)"]) (auto simp: reading_of_def)
qed

section \<open>A library whose links are all truthful\<close>

locale truthful_lib =
  fixes bind :: "f64 \<Rightarrow> f64 option" and lib :: "'c modbus_lib" and unit_of :: "'c \<Rightarrow> byte" and images :: "client_config \<Rightarrow> byte \<Rightarrow> image set"
  assumes exact: "exact_bind bind"
    and tcp_link: "goburrow_link (fst (lib_tcp lib address timeout)) unit_of (images (TCPConfig address timeout))"
    and rtu_link: "goburrow_link (fst (lib_rtu lib device baud bits parity stop timeout)) unit_of
      (images (RTUConfig device baud bits parity stop timeout))"
begin

lemma new_client_bus: "slave_bus (fst (new_client lib cfg)) unit_of (images cfg)"
  using goburrow_link.tcp_bus [OF tcp_link] goburrow_link.rtu_bus [OF rtu_link]
  by (cases cfg) (auto simp: new_client_def NewTCPClient_def NewRTUClient_def case_prod_beta)

end

definition measured_on :: "(client_config \<Rightarrow> byte \<Rightarrow> image set) \<Rightarrow> bool \<Rightarrow> connection \<Rightarrow> device_points list \<Rightarrow> acq_event \<Rightarrow> bool" where
  "measured_on images fused conn ds e \<longleftrightarrow> (\<exists>cfg. BuildClient conn = Inr cfg \<and> measured fused (images cfg) ds e \<and> honest ds e)"

definition measured_wire_on :: "(client_config \<Rightarrow> byte \<Rightarrow> image set) \<Rightarrow> bool \<Rightarrow> connection \<Rightarrow> device_points list \<Rightarrow> wire_entry \<Rightarrow> bool" where
  \<comment> \<open>on the bus the connection leads to; a value only with quality GOOD\<close>
  "measured_wire_on images fused conn ds w \<longleftrightarrow>
     (\<exists>cfg. BuildClient conn = Inr cfg \<and> measured_wire fused (images cfg) ds w \<and> faithful_wire ds w)"

sublocale truthful_lib \<subseteq> law: emission_law bind fused "new_client lib" "measured_on images fused" "measured_wire_on images fused" for fused
proof unfold_locales
  show "list_all (measured_on images fused conn ds) evs"
    if "BuildClient conn = Inr cfg" "sorting env" "scan_pass fused (fst (new_client lib cfg)) conn ds env s = (go, evs, s')"
    for conn cfg env ds s go evs s'
    using slave_bus.scan_pass_measured [OF new_client_bus that(2,3)] scan_pass_honest [OF that(2,3)] that(1)
    by (auto simp: list_all_iff measured_on_def)
next
  show "measured_wire_on images fused conn ds (wire_of_row (last (data_queue db')))"
    if "measured_on images fused conn ds (Emit r)" "Insert bind flt (reading_entry gid r) db = (Inr e, db')" for conn ds r flt gid db e db'
    using that(1) Insert_measured [OF exact _ _ that(2)] slave_bus.images_two_bytes [OF new_client_bus] Insert_faithful [OF _ that(2)]
    unfolding measured_on_def measured_wire_on_def by metis
qed

context truthful_lib
begin

lemmas stored_measured = law.everything_stored_fits

end

section \<open>What reaches the server was measured\<close>

text \<open>C1: from the register to the answer of the server. Let the Modbus library be truthful: a read on a link fails or returns registers
  of the addressed slave as they were at one moment. Run the whole gateway with the internal server behind an MQTT broker, for
  any configuration changes, failures, restarts and interleavings. Whatever a client of the internal server then asks, every reading in the answer
  belongs to a data point that the tables asked to poll at an earlier moment; it has a value only if its quality is GOOD, and the value
  is the decoded and scaled content of exactly that data point's registers on that data point's slave and bus, whatever blocks the
  poller read and however many slaves share the link. No reading appears twice in the table the answer comes from. (Register points are meant, on devices none of whose points lies at the very end of the address space.)\<close>

theorem served_values_are_measured:
  assumes "truthful_lib bind lib unit_of images"
    "(gw_step bind fused (new_client lib) mqtt_send mqtt_ok)\<^sup>*\<^sup>* (new_gateway (new_world cfg)) g"
    "serve_internal env th c r (mw_db (sys_net (gw_sys g))) = (code, Rows rows)" "sql_order (ie_recent env)" "sql_order (ie_latest env)"
  shows "distinct (map reading_key (mw_db (sys_net (gw_sys g)))) \<and>
    (\<forall>x \<in> set rows. \<exists>conn ds. asked_for (gw_step bind fused (new_client lib) mqtt_send mqtt_ok) (new_gateway (new_world cfg)) gw_tables g conn ds \<and>
       measured_wire_on images fused conn ds (wire_of_reading x))"
proof -
  have ex: "exact_bind bind" using assms(1) by (simp add: truthful_lib_def)
  have "set rows \<subseteq> set (mw_db (sys_net (gw_sys g)))" by (rule serve_rows [OF assms(3-5)])
  with mqtt_no_loss [OF gw_sys_reachable [OF assms(2)]] truthful_lib.stored_measured [OF assms(1,2) ex] show ?thesis by blast
qed

text \<open>The same of everything the development server received over HTTP.\<close>

theorem received_values_are_measured:
  assumes "truthful_lib bind lib unit_of images"
    "(gw_step bind fused (new_client lib) http_send (\<lambda>_ _. True))\<^sup>*\<^sup>* (new_gateway newStore) g" "w \<in> set (received (sys_net (gw_sys g)))"
  shows "\<exists>conn ds. asked_for (gw_step bind fused (new_client lib) http_send (\<lambda>_ _. True)) (new_gateway newStore) gw_tables g conn ds \<and>
    measured_wire_on images fused conn ds w"
proof -
  have ex: "exact_bind bind" using assms(1) by (simp add: truthful_lib_def)
  from http_no_loss [OF gw_sys_reachable [OF assms(2)]] assms(3) obtain k where "sys_inserted (gw_sys g) k = Some w" by blast
  then show ?thesis by (rule truthful_lib.stored_measured [OF assms(1,2) ex])
qed

section \<open>The simulated slave\<close>

lemma handlePDU_refuses:
  assumes "fc = 3 \<or> fc = 4" "\<not> (0 < q \<and> q \<le> 125 \<and> unat a + unat q \<le> length (if fc = 4 then input else holding))"
  shows "handlePDU (request fc a q) holding input = [fc OR 0x80, 2]"
proof -
  have "length (if fc = 4 then input else holding) < unat a + unat q \<or> q = 0 \<or> 125 < q"
    using assms(2) by (auto simp: not_less not_le word_neq_0_conv)
  then show ?thesis using assms(1) by (auto simp: handlePDU_def request_def be16_hi_lo Let_def)
qed

lemma sim_call_truthful:
  assumes "fc = 3 \<or> fc = 4" "length holding \<le> 2 ^ 16" "length input \<le> 2 ^ 16" "fst (sim_call holding input fc a q st) = Inr raw"
  shows "raw = register_bytes (sim_mem holding input) fc (unat a) (unat a + unat q)"
proof (cases "0 < q \<and> q \<le> 125 \<and> unat a + unat q \<le> length (if fc = 4 then input else holding)")
  case True
  have "length (if fc = 4 then input else holding) \<le> 2 ^ 16" using assms(2,3) by simp
  with True handlePDU_registers [OF assms(1), of q a input holding] assms(4) show ?thesis
    by (simp add: sim_call_answer register_bytes_def sim_mem_def)
next
  case False
  have "fc OR 0x80 \<noteq> fc" using assms(1) by auto
  with handlePDU_refuses [OF assms(1) False] assms(4) show ?thesis by (simp add: sim_call_answer)
qed

lemma sim_call_state [simp]: "snd (sim_call holding input fc a q st) = (fst st + 1, snd st)"
  by (simp add: sim_call_def)

lemma sim_mem_image: "register_image (sim_mem holding input)"
  by unfold_locales (simp add: sim_mem_def reg_bytes_def)

lemma sim_link:
  assumes "length holding \<le> 2 ^ 16" "length input \<le> 2 ^ 16"
  shows "goburrow_link (sim_handler holding input) snd (\<lambda>_. {sim_mem holding input})"
  by (rule goburrow_link.intro)
    (auto simp: sim_handler_def sim_mem_image dest: sim_call_truthful [OF _ assms, rotated])

text \<open>A library that reaches the simulator over TCP and nothing over a serial line.\<close>

definition line_down :: go_error where
  "line_down = \<lparr>err_net_timeout = True, err_net_closed = False, err_dns = False, err_msg = ''serial: timeout''\<rparr>"

definition dead_handler :: "(u16 \<times> byte) goburrow" where
  "dead_handler = \<lparr>gb_Connect = (\<lambda>st. (Some line_down, st)), gb_Close = (\<lambda>st. (None, st)), gb_SlaveId = (\<lambda>u st. (fst st, u)),
     gb_ReadCoils = (\<lambda>_ _ st. (Inl line_down, st)), gb_ReadDiscreteInputs = (\<lambda>_ _ st. (Inl line_down, st)),
     gb_ReadHoldingRegisters = (\<lambda>_ _ st. (Inl line_down, st)), gb_ReadInputRegisters = (\<lambda>_ _ st. (Inl line_down, st))\<rparr>"

definition sim_lib :: "(u16 \<times> byte) modbus_lib" where
  "sim_lib = \<lparr>lib_tcp = (\<lambda>_ _. (sim_handler sim_holding sim_input, (0, 0))), lib_rtu = (\<lambda>_ _ _ _ _ _. (dead_handler, (0, 0)))\<rparr>"

definition sim_images :: "client_config \<Rightarrow> byte \<Rightarrow> image set" where
  "sim_images cfg u = (case cfg of TCPConfig _ _ \<Rightarrow> {sim_mem sim_holding sim_input} | RTUConfig _ _ _ _ _ _ \<Rightarrow> {})"

lemma sim_banks: "length sim_holding \<le> 2 ^ 16" "length sim_input \<le> 2 ^ 16"
  by (simp_all add: sim_holding_def sim_input_def put_regs_def)

interpretation simulated: truthful_lib sqlite_bind sim_lib snd sim_images
proof (rule truthful_lib.intro)
  show "exact_bind sqlite_bind" by (rule sqlite.exact)
next
  show "goburrow_link (fst (lib_tcp sim_lib address timeout)) snd (sim_images (TCPConfig address timeout))" for address timeout
    using sim_link [OF sim_banks] by (simp add: sim_lib_def sim_images_def [abs_def])
next
  show "goburrow_link (fst (lib_rtu sim_lib device baud bits parity stop timeout)) snd (sim_images (RTUConfig device baud bits parity stop timeout))"
    for device baud bits parity stop timeout
    by (rule goburrow_link.intro) (simp_all add: sim_lib_def dead_handler_def sim_images_def)
qed

lemma sim_dial:
  assumes "BuildClient run_conn = Inr cfg"
  shows "new_client sim_lib cfg = (sim_client sim_holding sim_input, (0, 0))"
proof -
  from assms have "\<exists>address timeout. cfg = TCPConfig address timeout" by (auto simp: BuildClient_def run_sample Let_def)
  then show ?thesis by (auto simp: new_client_def NewTCPClient_def sim_lib_def sim_client_def)
qed

lemma sim_reads_zero: "cl_read (sim_client sim_holding sim_input) 4 1 1 st = (Inr [0, 0], fst st + 1, snd st)"
proof -
  have "fst (cl_read (sim_client sim_holding sim_input) 4 1 1 st) = Inr (register_bytes (sim_mem sim_holding sim_input) 4 (unat (1 :: u16)) (unat (1 :: u16) + unat (1 :: u16)))"
    by (rule demo.bank_read) (simp_all add: maxRegistersPerBlock_def sim_input_def)
  then show ?thesis by (simp add: prod_eq_iff register_bytes_def sim_mem_def reg_bytes_def sim_input_def hi_def lo_def upt_rec)
qed

lemma sim_pass:
  "\<exists>evs s'. scan_pass False (sim_client sim_holding sim_input) run_conn [(run_dev, [run_dp])] plain_env
     \<lparr>s_connected = False, s_diag = Some new_diag, s_client = (0, 0)\<rparr> =
     (True, Emit (decodeAndEmit False run_dev run_dp [0, 0] (dp_RegisterAddress run_dp) 1) # evs, s')"
  by (simp add: scan_pass_def plain_env_def readDevice_def planBlockReads_def plan_group_def sim_reads_zero
      read_blocks_Cons block_result_def block_readings_def result_quality_def QualityFromError_def RegisterCount_def
      ByteWidth_def flush_def wait_for_def Let_def run_sample cycleYieldDelay_def
      reconnectFloorDelay_def millisecond_def numeral_2_eq_2)

theorem served_values_are_measured_witness:
  "\<exists>g x rows conn ds. (gw_step sqlite_bind False (new_client sim_lib) mqtt_send mqtt_ok)\<^sup>*\<^sup>* (new_gateway (new_world sample_mqtt)) g \<and>
     serve_internal plain_is_env second \<lparr>c_connected = True\<rparr> readings_request (mw_db (sys_net (gw_sys g))) = (200, Rows rows) \<and> x \<in> set rows \<and>
     measured_wire_on sim_images False conn ds (wire_of_reading x)"
proof -
  obtain evs s' where pass: "scan_pass False (sim_client sim_holding sim_input) run_conn [(run_dev, [run_dp])] plain_env
     \<lparr>s_connected = False, s_diag = Some new_diag, s_client = (0, 0)\<rparr> =
     (True, Emit (decodeAndEmit False run_dev run_dp [0, 0] (dp_RegisterAddress run_dp) 1) # evs, s')" using sim_pass by blast
  obtain g where g: "(gw_step sqlite_bind False (new_client sim_lib) mqtt_send mqtt_ok)\<^sup>*\<^sup>* (new_gateway (new_world sample_mqtt)) g"
    "mw_db (sys_net (gw_sys g)) \<noteq> []" by (rule delivered_with_dial [where dial = "new_client sim_lib", OF sim_dial pass])
  obtain x rows where x: "serve_internal plain_is_env second \<lparr>c_connected = True\<rparr> readings_request (mw_db (sys_net (gw_sys g))) = (200, Rows rows)"
    "x \<in> set rows" by (rule served_some [OF g(2)])
  from served_values_are_measured [OF simulated.truthful_lib_axioms g(1) x(1) plain_is_env_order] g(1) x show ?thesis by blast
qed

end
