(* ===== verification/Boot.thy ===== *)
theory Boot
  imports Gateway Host Schema
begin

text \<open>
  The function \<open>main\<close> of \<open>src/gateway/cmd/gateway/main.go\<close> from its first statement to the serving gateway, with every exit: the
  configuration file, the database with its migrations, the demo seed, the gateway row, the first reload, the transport and the
  listener of the Web API, each as modelled in the theory of its component.

  What the process meets (files, environment variables, the answers of driver, file system and broker) is the record \<open>main_env\<close>. The
  SQLite file has some contents \<open>'d\<close>; \<open>disk\<close> says how the tables of the model are read from it.
\<close>

section \<open>The start of the process\<close>

record 'd disk =
  dk_config :: "'d \<Rightarrow> cfgdb"
  dk_queue :: "'d \<Rightarrow> qdb"
  dk_seed_tables :: "'d \<Rightarrow> sql_table \<times> sql_table" \<comment> \<open>\<open>device\<close> and \<open>datapoint\<close> by column name\<close>
  dk_seed_write :: "sql_table \<times> sql_table \<Rightarrow> 'd \<Rightarrow> 'd"

record ('d, 'p, 'k) main_env =
  me_configPath :: string
  me_files :: files
  me_unmarshal :: "string \<Rightarrow> string + config"
  me_env :: "string \<Rightarrow> string"
  me_mkdirAll :: "string \<Rightarrow> string option"
  me_sqlOpen :: "string \<Rightarrow> string + 'd schema_db"
  me_rules :: "'d sqlite_rules"
  me_create :: "string option"
  me_migrate :: "string \<Rightarrow> migrate_faults"
  me_migrationsDir :: "string + (string \<times> bool) list"
  me_scripts :: "string \<Rightarrow> string"
  me_seed :: "fault \<times> fault \<times> (nat \<Rightarrow> fault)"
  me_ensure :: fault
  me_reload :: api_env
  me_readFile :: "string \<Rightarrow> string + string"
  me_appendCerts :: "string \<Rightarrow> 'p option"
  me_loadKeyPair :: "string \<Rightarrow> string \<Rightarrow> string + 'k"
  me_broker :: token_result
  me_recover :: fault
  me_listen :: "string \<Rightarrow> string option"

datatype main_exit =
    ConfigPanic string
  | DatabaseFailed open_error
  | GatewayRowFailed queue_error
  | AdapterFailed adapter_error
  | ApiServerFailed string

definition seed_step :: "'d disk \<Rightarrow> ('d, 'p, 'k) main_env \<Rightarrow> 'd \<Rightarrow> 'd" where
  "seed_step dk e d =
     (if me_env e ''SEED_DEMO_DEVICE'' = ''true''
      then (case me_seed e of (fcount, fdev, fpoint) \<Rightarrow> dk_seed_write dk (seedDemoDevice fcount fdev fpoint (dk_seed_tables dk d)) d)
      else d)"

definition load_tables :: "'d disk \<Rightarrow> 'd \<Rightarrow> ('c, 's) gateway \<Rightarrow> ('c, 's) gateway" where
  \<comment> \<open>the repositories work on the database that was opened\<close>
  "load_tables dk d g = g\<lparr>gw_api := (gw_api g)\<lparr>sv_db := dk_config dk d\<rparr>, gw_sys := (gw_sys g)\<lparr>sys_db := dk_queue dk d\<rparr>\<rparr>"

definition gateway_main ::
  "'d disk \<Rightarrow> (client_config \<Rightarrow> 'c client \<times> 'c) \<Rightarrow> ('d, 'p, 'k) main_env \<Rightarrow> ('c, 's) gateway \<Rightarrow>
   (main_exit + config \<times> ('p, 'k) built) \<times> ('c, 's) gateway" where
  "gateway_main dk dial e g =
     (case Load (me_unmarshal e) (me_env e) (me_files e) (me_configPath e) of
        Inl m \<Rightarrow> (Inl (ConfigPanic m), stop_process g)
      | Inr c0 \<Rightarrow>
          (case Open_storage (me_mkdirAll e) (me_sqlOpen e) (me_rules e) (me_create e) (me_migrate e) (me_migrationsDir e) (me_scripts e)
                  (cf_DatabasePath c0) of
             Inl m \<Rightarrow> (Inl (DatabaseFailed m), stop_process g)
           | Inr db \<Rightarrow>
               (let c = env_overrides (me_env e) c0;
                    gid = gw_ID (cf_Gateway c); name = gw_Name (cf_Gateway c);
                    g1 = load_tables dk (seed_step dk e (m_tables db)) (stop_process g);
                    g2 = start_acquisition dial (me_ensure e) (me_reload e) gid name g1
                in case fst (EnsureGateway (me_ensure e) gid name (sys_db (gw_sys g1))) of
                     Some m \<Rightarrow> (Inl (GatewayRowFailed m), g2)
                   | None \<Rightarrow>
                       (case buildAdapter (me_readFile e) (me_appendCerts e) (me_loadKeyPair e) (me_broker e) c of
                          Inl m \<Rightarrow> (Inl (AdapterFailed m), stop_process g2)
                        | Inr a \<Rightarrow>
                            (let g3 = start_forwarder (me_recover e) g2
                             in case me_listen e (cf_ListenAddr c) of
                                  Some m \<Rightarrow> (Inl (ApiServerFailed m), stop_process g3)
                                | None \<Rightarrow> (Inr (c, a), g3))))))"

section \<open>The start is a sequence of steps of the composed system\<close>

definition installed :: "'d disk \<Rightarrow> ('d, 'p, 'k) main_env \<Rightarrow> ('c, 's) gateway \<Rightarrow> bool" where
  \<comment> \<open>whatever path is configured, the driver opens the file the gateway left behind; its migrations are all applied\<close>
  "installed dk e g \<longleftrightarrow> (\<forall>path db. me_sqlOpen e path = Inr db \<longrightarrow>
     dk_config dk (m_tables db) = sv_db (gw_api g) \<and> dk_queue dk (m_tables db) = sys_db (gw_sys g) \<and>
     (case me_migrationsDir e of Inl _ \<Rightarrow> True | Inr es \<Rightarrow> set (migration_files es) \<subseteq> set (m_versions db)) \<and>
     tb_columns (fst (dk_seed_tables dk (m_tables db))) = device_columns_0005 \<and>
     dk_seed_write dk (dk_seed_tables dk (m_tables db)) (m_tables db) = m_tables db)"

lemma migrate_loop_same: "set names \<subseteq> set (m_versions db) \<Longrightarrow> migrate_loop q flt contents names db = (err, db') \<Longrightarrow> db' = db"
  by (induction names) (auto split: option.splits)

lemma Open_installed:
  assumes "Open_storage mk sqlOpen q create flt dir contents path = Inr db'"
  obtains db where "sqlOpen (dsn path) = Inr db"
    "(case dir of Inl _ \<Rightarrow> True | Inr es \<Rightarrow> set (migration_files es) \<subseteq> set (m_versions db)) \<longrightarrow> db' = db"
proof -
  from assms obtain db where db: "sqlOpen (dsn path) = Inr db" "migrate q create flt dir contents db = (None, db')"
    by (auto simp: Open_storage_def split: if_splits option.splits sum.splits prod.splits)
  have "db' = db" if "case dir of Inl _ \<Rightarrow> True | Inr es \<Rightarrow> set (migration_files es) \<subseteq> set (m_versions db)"
    using db(2) that by (auto simp: migrate_def dest: migrate_loop_same split: option.splits sum.splits)
  with db(1) that show thesis by blast
qed

lemma seed_step_installed:
  assumes "tb_columns (fst (dk_seed_tables dk d)) = device_columns_0005" "dk_seed_write dk (dk_seed_tables dk d) d = d"
  shows "seed_step dk e d = d"
proof -
  obtain device points where t: "dk_seed_tables dk d = (device, points)" by fastforce
  with assms(1) have "seedDemoDevice fcount fdev fpoint (device, points) = (device, points)" for fcount fdev fpoint
    by (intro seed_does_nothing) simp
  with assms(2) t show ?thesis by (simp add: seed_step_def split: prod.split)
qed

lemma load_tables_same:
  "dk_config dk d = sv_db (gw_api g) \<Longrightarrow> dk_queue dk d = sys_db (gw_sys g) \<Longrightarrow> load_tables dk d (stop_process g) = stop_process g"
  by (simp add: load_tables_def stop_process_def)

lemma started_manager:
  "fst (EnsureGateway flt gid name (sys_db (gw_sys g))) = None \<Longrightarrow>
     sv_manager (gw_api (start_acquisition dial flt env gid name g)) \<noteq> None \<and> \<not> gw_forwards (start_acquisition dial flt env gid name g)"
  by (auto simp: start_acquisition_def stop_process_def reload_def Let_def split: prod.split option.split)

lemma start_refused:
  "fst (EnsureGateway flt gid name (sys_db (gw_sys g))) \<noteq> None \<Longrightarrow>
     gw_pollers (start_acquisition dial flt env gid name g) = Map.empty \<and> sv_manager (gw_api (start_acquisition dial flt env gid name g)) = None \<and>
     \<not> gw_forwards (start_acquisition dial flt env gid name g)"
  by (auto simp: start_acquisition_def stop_process_def Let_def split: prod.split)

text \<open>The stages of a start, on an installed gateway.\<close>

lemma gateway_main_installed:
  assumes "installed dk e g"
  obtains (early) x where "gateway_main dk dial e g = (Inl x, stop_process g)"
  | (row) gid name x where "gateway_main dk dial e g = (Inl x, start_acquisition dial (me_ensure e) (me_reload e) gid name (stop_process g))"
      "fst (EnsureGateway (me_ensure e) gid name (sys_db (gw_sys g))) \<noteq> None"
  | (adapter) gid name x where
      "gateway_main dk dial e g = (Inl x, stop_process (start_acquisition dial (me_ensure e) (me_reload e) gid name (stop_process g)))"
  | (listen) gid name x where "gateway_main dk dial e g =
      (Inl x, stop_process (start_forwarder (me_recover e) (start_acquisition dial (me_ensure e) (me_reload e) gid name (stop_process g))))"
      "fst (EnsureGateway (me_ensure e) gid name (sys_db (gw_sys g))) = None"
  | (running) c a where "gateway_main dk dial e g = (Inr (c, a), start_forwarder (me_recover e)
      (start_acquisition dial (me_ensure e) (me_reload e) (gw_ID (cf_Gateway c)) (gw_Name (cf_Gateway c)) (stop_process g)))"
      "fst (EnsureGateway (me_ensure e) (gw_ID (cf_Gateway c)) (gw_Name (cf_Gateway c)) (sys_db (gw_sys g))) = None"
proof (cases "Load (me_unmarshal e) (me_env e) (me_files e) (me_configPath e)")
  case (Inl m)
  then show thesis by (intro early) (simp add: gateway_main_def)
next
  case load: (Inr c0)
  show thesis
  proof (cases "Open_storage (me_mkdirAll e) (me_sqlOpen e) (me_rules e) (me_create e) (me_migrate e) (me_migrationsDir e) (me_scripts e)
      (cf_DatabasePath c0)")
    case (Inl m)
    with load show thesis by (intro early) (simp add: gateway_main_def)
  next
    case (Inr db)
    then obtain db0 where "me_sqlOpen e (dsn (cf_DatabasePath c0)) = Inr db0"
      "(case me_migrationsDir e of Inl _ \<Rightarrow> True | Inr es \<Rightarrow> set (migration_files es) \<subseteq> set (m_versions db0)) \<longrightarrow> db = db0"
      by (rule Open_installed)
    with assms have d: "dk_config dk (m_tables db) = sv_db (gw_api g)" "dk_queue dk (m_tables db) = sys_db (gw_sys g)"
      "tb_columns (fst (dk_seed_tables dk (m_tables db))) = device_columns_0005"
      "dk_seed_write dk (dk_seed_tables dk (m_tables db)) (m_tables db) = m_tables db"
      unfolding installed_def by blast+
    have g1: "load_tables dk (seed_step dk e (m_tables db)) (stop_process g) = stop_process g"
      unfolding seed_step_installed [OF d(3,4)] by (rule load_tables_same [OF d(1,2)])
    have q: "sys_db (gw_sys (stop_process g)) = sys_db (gw_sys g)" by (simp add: stop_process_def)
    define c where "c = env_overrides (me_env e) c0"
    note main = gateway_main_def [of dk dial e g, unfolded load Inr sum.case Let_def, folded c_def, unfolded g1 q]
    show thesis
      using early row [of _ "gw_ID (cf_Gateway c)" "gw_Name (cf_Gateway c)"] adapter [of _ "gw_ID (cf_Gateway c)" "gw_Name (cf_Gateway c)"]
        listen [of _ "gw_ID (cf_Gateway c)" "gw_Name (cf_Gateway c)"] running [of c] main
      by (auto split: option.splits sum.splits)
  qed
qed

lemma stopped:
  "gw_pollers (stop_process g) = Map.empty" "sv_manager (gw_api (stop_process g)) = None" "\<not> gw_forwards (stop_process g)"
  by (simp_all add: stop_process_def)

text \<open>C39: \<open>main\<close> implements the composed system. On an installed gateway, a start of the process, whatever configuration file, environment,
  database, broker and listener do, is a sequence of steps of the composed system. It either ends with one of the exits of \<open>main\<close>, and then neither a poller
  nor the manager nor the forwarder is left, or with the gateway running under the configured id.\<close>

theorem main_refines_steps:
  assumes "installed dk e g"
  shows "(gw_step bind fused dial send ok)\<^sup>*\<^sup>* g (snd (gateway_main dk dial e g)) \<and>
    (case gateway_main dk dial e g of
       (Inl x, g') \<Rightarrow> gw_pollers g' = Map.empty \<and> sv_manager (gw_api g') = None \<and> \<not> gw_forwards g'
     | (Inr (c, a), g') \<Rightarrow> gw_id g' = gw_ID (cf_Gateway c) \<and> sv_manager (gw_api g') \<noteq> None \<and> gw_forwards g')"
proof -
  let ?step = "gw_step bind fused dial send ok"
  let ?acq = "\<lambda>gid name. start_acquisition dial (me_ensure e) (me_reload e) gid name (stop_process g)"
  have q: "sys_db (gw_sys (stop_process g)) = sys_db (gw_sys g)" by (simp add: stop_process_def)
  have s1: "?step\<^sup>*\<^sup>* g (stop_process g)" by (rule r_into_rtranclp) (rule gw_crash)
  have s2: "?step\<^sup>*\<^sup>* g (?acq gid name)" for gid name by (rule rtranclp.rtrancl_into_rtrancl [OF s1]) (rule gw_start)
  have s3: "?step\<^sup>*\<^sup>* g (start_forwarder (me_recover e) (?acq gid name))"
    if "fst (EnsureGateway (me_ensure e) gid name (sys_db (gw_sys g))) = None" for gid name
    using started_manager [of "me_ensure e" gid name "stop_process g"] that q
    by (intro rtranclp.rtrancl_into_rtrancl [OF s2 [of gid name]] gw_forward) simp_all
  have s4: "?step\<^sup>*\<^sup>* g h \<Longrightarrow> ?step\<^sup>*\<^sup>* g (stop_process h)" for h by (erule rtranclp.rtrancl_into_rtrancl) (rule gw_crash)
  from assms show ?thesis
  proof (cases rule: gateway_main_installed [where dial = dial])
    case (early x)
    with s1 show ?thesis by (simp add: stopped)
  next
    case (row gid name x)
    then have "gw_pollers (?acq gid name) = Map.empty" "sv_manager (gw_api (?acq gid name)) = None" "\<not> gw_forwards (?acq gid name)"
      using start_refused [of "me_ensure e" gid name "stop_process g"] q by simp_all
    with row s2 show ?thesis by simp
  next
    case (adapter gid name x)
    with s4 [OF s2] show ?thesis by (simp add: stopped)
  next
    case (listen gid name x)
    with s4 [OF s3 [OF listen(2)]] show ?thesis by (simp add: stopped)
  next
    case (running c a)
    have "sv_manager (gw_api (?acq (gw_ID (cf_Gateway c)) (gw_Name (cf_Gateway c)))) \<noteq> None"
      using started_manager [of "me_ensure e" _ _ "stop_process g"] running(2) q by simp
    moreover have "gw_id (?acq (gw_ID (cf_Gateway c)) (gw_Name (cf_Gateway c))) = gw_ID (cf_Gateway c)"
      using running(2) q by (auto simp: start_acquisition_def stop_process_def Let_def split: prod.split option.split)
    ultimately show ?thesis using running s3 [OF running(2)] by (simp add: start_forwarder_def)
  qed
qed

section \<open>What a start depends on\<close>

definition transport :: "('d, 'p, 'k) main_env \<Rightarrow> config \<Rightarrow> string" where
  \<comment> \<open>of the loaded file, with the overrides\<close>
  "transport e c0 = fc_Transport (cf_Forwarder (env_overrides (me_env e) c0))"

lemma build_http:
  "fc_Transport (cf_Forwarder c) \<in> {[], ''http''} \<Longrightarrow> buildAdapter rf ac lk tok c = buildAdapter rf ac lk tok' c"
  by (auto simp: buildAdapter_def Let_def)

lemma build_mqtt:
  assumes "fc_Transport (cf_Forwarder c) = ''mqtt''" "tok \<noteq> TokDone None"
  shows "\<exists>x. buildAdapter rf ac lk tok c = Inl x"
proof -
  obtain m where "Connect_mqtt tok (NewMQTTAdapter (mqtt_adapter_config (cf_MQTT c))) = Some m"
    using assms(2) by (cases tok) (auto simp: Connect_mqtt_def waitToken_def)
  with assms(1) show ?thesis by (auto simp: buildAdapter_def Let_def split: sum.split option.split)
qed

lemma boot_http:
  assumes "Load (me_unmarshal e) (me_env e) (me_files e) (me_configPath e) = Inr c0" "transport e c0 \<in> {[], ''http''}"
  shows "gateway_main dk dial (e\<lparr>me_broker := tok\<rparr>) g = gateway_main dk dial e g"
proof -
  have "seed_step dk (e\<lparr>me_broker := tok\<rparr>) d = seed_step dk e d" for d by (simp add: seed_step_def)
  moreover have "buildAdapter (me_readFile e) (me_appendCerts e) (me_loadKeyPair e) tok (env_overrides (me_env e) c0) =
      buildAdapter (me_readFile e) (me_appendCerts e) (me_loadKeyPair e) (me_broker e) (env_overrides (me_env e) c0)"
    using assms(2) by (intro build_http) (simp add: transport_def)
  ultimately show ?thesis using assms(1) by (simp add: gateway_main_def Let_def cong: sum.case_cong option.case_cong)
qed

lemma boot_reload: "fst (gateway_main dk dial (e\<lparr>me_reload := env\<rparr>) g) = fst (gateway_main dk dial e g)"
proof -
  have "seed_step dk (e\<lparr>me_reload := env\<rparr>) d = seed_step dk e d" for d by (simp add: seed_step_def)
  then show ?thesis by (simp add: gateway_main_def Let_def split: sum.split option.split)
qed

lemma boot_mqtt:
  assumes "Load (me_unmarshal e) (me_env e) (me_files e) (me_configPath e) = Inr c0" "transport e c0 = ''mqtt''" "me_broker e \<noteq> TokDone None"
  shows "(\<exists>x. fst (gateway_main dk dial e g) = Inl x) \<and> gw_pollers (snd (gateway_main dk dial e g)) = Map.empty \<and>
    \<not> gw_forwards (snd (gateway_main dk dial e g))"
proof -
  obtain x where "buildAdapter (me_readFile e) (me_appendCerts e) (me_loadKeyPair e) (me_broker e) (env_overrides (me_env e) c0) = Inl x"
    using build_mqtt [OF _ assms(3)] assms(2) unfolding transport_def by blast
  note main = gateway_main_def [of dk dial e g, unfolded assms(1) sum.case Let_def, unfolded this sum.case]
  show ?thesis
  proof (cases "Open_storage (me_mkdirAll e) (me_sqlOpen e) (me_rules e) (me_create e) (me_migrate e) (me_migrationsDir e) (me_scripts e)
      (cf_DatabasePath c0)")
    case (Inl m)
    then show ?thesis unfolding main by (simp add: stopped)
  next
    case (Inr db)
    let ?c = "env_overrides (me_env e) c0" and ?g = "load_tables dk (seed_step dk e (m_tables db)) (stop_process g)"
    show ?thesis
    proof (cases "fst (EnsureGateway (me_ensure e) (gw_ID (cf_Gateway ?c)) (gw_Name (cf_Gateway ?c)) (sys_db (gw_sys ?g)))")
      case None
      with Inr show ?thesis unfolding main by (simp add: stopped)
    next
      case (Some m)
      with Inr start_refused [of "me_ensure e" "gw_ID (cf_Gateway ?c)" "gw_Name (cf_Gateway ?c)" ?g dial "me_reload e"] show ?thesis
        unfolding main by simp
    qed
  qed
qed


definition plain_disk :: "(cfgdb \<times> qdb \<times> sql_table \<times> sql_table) disk" where
  "plain_disk = \<lparr>dk_config = fst, dk_queue = (\<lambda>d. fst (snd d)), dk_seed_tables = (\<lambda>d. snd (snd d)), dk_seed_write = (\<lambda>t d. (fst d, fst (snd d), t))\<rparr>"

definition blank_file :: "(cfgdb \<times> qdb \<times> sql_table \<times> sql_table) schema_db" where
  "blank_file = \<lparr>m_tables = (empty_cfg, empty_qdb, \<lparr>tb_columns = device_columns_0005, tb_rows = []\<rparr>,
     \<lparr>tb_columns = datapoint_columns_0005, tb_rows = []\<rparr>), m_versions = [''0005.sql''], m_foreign_keys = True\<rparr>"

definition plain_main :: "token_result \<Rightarrow> (cfgdb \<times> qdb \<times> sql_table \<times> sql_table, unit, unit) main_env" where
  "plain_main tok = \<lparr>me_configPath = ''c.yaml'', me_files = [''c.yaml'' \<mapsto> ''gw''], me_unmarshal = (\<lambda>_. Inr sample_config), me_env = (\<lambda>_. []),
     me_mkdirAll = (\<lambda>_. None), me_sqlOpen = (\<lambda>_. Inr blank_file), me_rules = \<lparr>q_exec = (\<lambda>_ _ d. Inr d), q_violated = (\<lambda>_. False)\<rparr>,
     me_create = None, me_migrate = (\<lambda>_. no_faults), me_migrationsDir = Inr [(''0005.sql'', False)], me_scripts = (\<lambda>_. []),
     me_seed = (None, None, \<lambda>_. None), me_ensure = None, me_reload = plain_api, me_readFile = Inl, me_appendCerts = (\<lambda>_. None),
     me_loadKeyPair = (\<lambda>_ _. Inr ()), me_broker = tok, me_recover = None, me_listen = (\<lambda>_. None)\<rparr>"

lemma plain_files: "migration_files [(''0005.sql'', False)] = [''0005.sql'']"
  by (simp add: migration_files_def Ext_def)

lemma plain_installed: "installed plain_disk (plain_main tok) (new_gateway net)"
  by (simp add: installed_def plain_disk_def plain_main_def blank_file_def new_gateway_def init_sys_def plain_files)

lemma sample_config_simps:
  "with_defaults sample_config = sample_config" "env_overrides (\<lambda>_. []) sample_config = sample_config"
  "fc_Transport (cf_Forwarder sample_config) = ''mqtt''" "mq_TLS (cf_MQTT sample_config) = \<lparr>tls_Enabled = False, tls_CAFile = [],
     tls_CertFile = [], tls_KeyFile = [], tls_InsecureSkipVerify = False\<rparr>"
  by (simp_all add: sample_config_def env_overrides_def override_def)
    (simp_all add: with_defaults_def forwarder_defaults_def mqtt_defaults_def or_text_def Let_def)

lemma plain_load: "Load (me_unmarshal (plain_main tok)) (me_env (plain_main tok)) (me_files (plain_main tok)) (me_configPath (plain_main tok)) = Inr sample_config"
  by (simp add: plain_main_def Load_def sample_config_simps)


lemma plain_starts: "\<exists>a g. gateway_main plain_disk zero_dial (plain_main (TokDone None)) (new_gateway newStore) = (Inr (sample_config, a), g)"
proof -
  have "me_sqlOpen (plain_main (TokDone None)) x = Inr blank_file" "me_mkdirAll (plain_main (TokDone None)) x = None"
    "migrate (me_rules (plain_main (TokDone None))) (me_create (plain_main (TokDone None))) (me_migrate (plain_main (TokDone None)))
       (me_migrationsDir (plain_main (TokDone None))) (me_scripts (plain_main (TokDone None))) blank_file = (None, blank_file)" for x
    by (simp_all add: plain_main_def migrate_def plain_files blank_file_def)
  then have o: "Open_storage (me_mkdirAll (plain_main (TokDone None))) (me_sqlOpen (plain_main (TokDone None))) (me_rules (plain_main (TokDone None)))
      (me_create (plain_main (TokDone None))) (me_migrate (plain_main (TokDone None))) (me_migrationsDir (plain_main (TokDone None)))
      (me_scripts (plain_main (TokDone None))) path = Inr blank_file" for path
    by (simp add: Open_storage_def)
  obtain a where a: "buildAdapter (me_readFile (plain_main (TokDone None))) (me_appendCerts (plain_main (TokDone None)))
      (me_loadKeyPair (plain_main (TokDone None))) (TokDone None) sample_config = Inr a"
    by (simp add: buildAdapter_def sample_config_simps buildMQTTTLSConfig_def Connect_mqtt_def waitToken_def Let_def)
  have e: "me_env (plain_main (TokDone None)) = (\<lambda>_. [])" "me_broker (plain_main (TokDone None)) = TokDone None"
    "me_listen (plain_main (TokDone None)) x = None" "me_ensure (plain_main (TokDone None)) = None" for x
    by (simp_all add: plain_main_def)
  have n: "fst (EnsureGateway None gid name db) = None" for gid name db by (simp add: EnsureGateway_def)
  show ?thesis
    unfolding gateway_main_def plain_load sum.case o Let_def
    unfolding e sample_config_simps n option.case a sum.case by blast
qed

theorem main_refines_steps_witness:
  "\<exists>g a. gateway_main plain_disk zero_dial (plain_main (TokDone None)) (new_gateway newStore) = (Inr (sample_config, a), g) \<and>
     (gw_step sqlite_bind False zero_dial http_send (\<lambda>_ _. True))\<^sup>*\<^sup>* (new_gateway newStore) g \<and> gw_forwards g"
proof -
  obtain a g where m: "gateway_main plain_disk zero_dial (plain_main (TokDone None)) (new_gateway newStore) = (Inr (sample_config, a), g)"
    using plain_starts by blast
  from main_refines_steps [OF plain_installed [of "TokDone None" newStore], of sqlite_bind False zero_dial http_send "\<lambda>_ _. True"] m show ?thesis by auto
qed

end
