(* ===== verification/Spec2Isabelle.thy ===== *)
theory Spec2Isabelle
  imports Delivery Pipeline Manager ModbusSim LiveTest Backup Netconfig TimeSync Logs Startup Panels
    Clock Schema Host Router Processes Gateway Measured Boot
begin

text \<open>
  A verification development for an industrial gateway written in Go: it polls Modbus devices, keeps their
  readings in a persistent queue and forwards them to a server until the server acknowledges them. It is configured through a Web API.

  \<^bold>\<open>The program.\<close> One poller per connection (\<open>src/gateway/internal/acquisition\<close>) reads blocks of registers through a Modbus client
  (\<open>modbus\<close>) and hands every reading to the processor (\<open>processor\<close>), which inserts it into the SQLite table \<open>data_queue\<close>
  (\<open>queue\<close>). The forwarder (\<open>forwarder\<close>) fetches batches, sends them over HTTP or MQTT and marks them sent or failed; the sweepers of
  the queue delete old and, on a full disk, unimportant rows. At the other end stand the development server
  (\<open>src/gateway/cmd/server-sim\<close>) and the internal server (\<open>src/internal-server\<close>), which deduplicate by gateway and sequence number.
  The configuration lives in three tables (\<open>connection\<close>, \<open>device\<close>, \<open>datapoint\<close>), is edited, exported and imported by the handlers of
  \<open>api\<close>, and each change makes the acquisition manager restart what changed. Around this core stand the
  settings file (\<open>config\<close>), the host's network configuration with its automatic revert (\<open>netconfig\<close>), the time service (\<open>time\<close>), the
  log buffer (\<open>logger\<close>), the schema migrations (\<open>storage\<close>) and the status panels. \<open>src/gateway/cmd/gateway/main.go\<close> opens the
  database, builds the services, starts the pollers, the sweepers, the forwarder and the Web API, and lets them run side by side.

  \<^bold>\<open>Theories and sources.\<close>
  \<^item> \<open>Prelude\<close>: Go and SQL vocabulary, faults of the database, list lemmas, the locale \<open>sql_order\<close>. \<open>GoFloat\<close>: IEEE doubles as sign,
    significand and exponent, with the roundings of the conversions and operations the gateway uses.
  \<^item> \<open>Modbus\<close> (\<open>modbus/*.go\<close>): decoding, scaling, error classes, \<open>ReadWithRetry\<close>, the two clients. \<open>ModbusSim\<close>
    (\<open>cmd/modbus-sim/main.go\<close>): the process of the simulated slave, which, behind a client, interprets the locale \<open>register_bank\<close> of the poller.
  \<^item> \<open>BlockPlan\<close>, \<open>Acquisition\<close>, \<open>Manager\<close> (\<open>acquisition/*.go\<close>, \<open>diagnostics\<close>): block planning on \<open>uint16\<close> addresses, the scan loop,
    and \<open>Reload\<close>. \<open>Pipeline\<close> (\<open>status\<close>, \<open>processor\<close>, the callbacks of \<open>cmd/gateway/main.go\<close>).
  \<^item> \<open>Queue\<close> (\<open>queue/*.go\<close>): the tables as lists of rows, one definition per statement with its error paths, \<open>queue_step\<close>.
  \<^item> \<open>Forwarder\<close>, \<open>Adapters\<close> (\<open>forwarder/*.go\<close>) and \<open>Server\<close> (\<open>server-sim\<close>, \<open>internal-server\<close>): the dispatch loop over the interface
    \<open>adapter\<close>, a locale interpreted for both transports. \<open>StoreForward\<close> proves the contract of the system once inside
    a locale; \<open>Delivery\<close> instantiates it.
  \<^item> \<open>ConfigStore\<close> (\<open>connection.go\<close>, \<open>device.go\<close>, \<open>datapoint.go\<close>): validation and every statement on the three tables with foreign
    keys, constraints and key assignment. \<open>WebApi\<close> (\<open>connections.go\<close>, \<open>devices.go\<close>, \<open>datapoints.go\<close>), \<open>LiveTest\<close> (\<open>test.go\<close>),
    \<open>ConfigIO\<close> (\<open>configio.go\<close>), \<open>ApiState\<close>, \<open>Restore\<close> and \<open>Backup\<close>: the handlers as functions of request, faults and server state, their
    step relation, what every reachable configuration satisfies, and what a backup does on its own gateway and on a fresh one. \<open>Panels\<close> (\<open>dashboard.go\<close>, \<open>diagnostics.go\<close>, \<open>storeforward.go\<close>,
    \<open>getTime\<close>).
  \<^item> \<open>Settings\<close> (\<open>config/config.go\<close>, \<open>api/settings.go\<close>), \<open>Startup\<close> (\<open>storage/storage.go\<close>, \<open>cmd/gateway/adapter.go\<close>),
    \<open>Netconfig\<close> (\<open>netconfig/*.go\<close>, \<open>api/network.go\<close>), \<open>TimeSync\<close> (\<open>time/ntp.go\<close>, \<open>service.go\<close>), \<open>Logs\<close> (\<open>logger/*.go\<close>, \<open>api/logs.go\<close>).
    \<open>Clock\<close> (\<open>time/rtc*.go\<close>): the civil calendar of \<open>time.Date\<close> and the hardware clock. \<open>Schema\<close> (the migrations of
    \<open>storage/migrations\<close> that rewrite configuration, \<open>cmd/gateway/devseed.go\<close>): what an upgrade does to existing rows. \<open>Host\<close>
    (\<open>system/*.go\<close>, \<open>storage.Open\<close>, \<open>queue/diskusage.go\<close>, the handlers of the resource panel). \<open>Router\<close> (\<open>api/router.go\<close>): the route
    table and what each route does to the state of the server.
  \<^item> \<open>Processes\<close> (\<open>mqttadapter.go\<close>, \<open>src/internal-server\<close>, \<open>cmd/server-sim\<close>): the client options and the watchdog of the MQTT transport,
    the environment configuration, start and HTTP side of the internal server, and the process of the development server.
  \<^item> \<open>Gateway\<close> (\<open>cmd/gateway/main.go\<close>): the composition. Web requests, pollers with their scans, the sweepers, the dispatch loop and the
    server are the steps of one relation \<open>gw_step\<close>, and the theorems of the components are carried over to it. The locale
    \<open>emission_law\<close> carries any law of what a poller emits to everything the server stores.
  \<^item> \<open>Measured\<close>: where a served value comes from. The locale \<open>goburrow_link\<close> says what is relied on of the Modbus library on one link,
    and gives the locale \<open>slave_bus\<close> of \<open>Acquisition\<close> (several slaves behind one client) for both clients of \<open>modbus\<close>;
    \<open>truthful_lib\<close> says it of every link the gateway may open and gives \<open>emission_law\<close>. The simulated slave of \<open>ModbusSim\<close> interprets
    it.
  \<^item> \<open>Boot\<close> (\<open>cmd/gateway/main.go\<close>): the function \<open>main\<close> from the configuration file to the listening Web API with each of its exits, and
    that a start of an installed gateway is a sequence of steps of \<open>gw_step\<close>.

  \<^bold>\<open>How state and effects are modelled.\<close> Structs are records, tables are lists of rows, a Go error is a value of a sum or option
  type. A database operation takes the fault it meets; an ordered query takes the order of equal keys;
  clocks, networks, brokers, clients and cancellation are arguments of the definitions that use them, so a theorem holds for all of
  them. Concurrent parts are step relations (\<open>queue_step\<close>, \<open>sys_step\<close>, \<open>api_step\<close>, \<open>net_step\<close>, \<open>gw_step\<close>) whose steps are the atomic sections of the
  code. Loops driven by a ticker are functions of the list of their ticks. No definition needs fuel: every loop that
  is modelled is structurally recursive or has a termination proof.

  \<^bold>\<open>What is shown.\<close>
  \<^item> End to end (\<open>Delivery\<close>, \<open>Pipeline\<close>): no queued reading is lost short of an eviction or stored twice; the backlog drains; every
    emitted reading is queued; a value JSON cannot represent blocks its batch. \<open>Gateway\<close> shows the same of the composed process, under
    any interleaving of its goroutines: what the server stores was read for a data point the tables held at some earlier moment, and
    every connection the manager has registered is polled by a live goroutine with that connection and those devices.
    \<open>Processes\<close> shows what the internal server serves of it, and \<open>Measured\<close> that each value it serves is the decoded and scaled
    content of the registers of its own data point on its own slave. \<open>Boot\<close> shows that a start either ends with nothing left running
    or in that composed system, and on whom it depends: on no HTTP server, but on the MQTT broker.
  \<^item> Queue and server: key uniqueness and sequence numbers, the exact effect of each operation, idempotent ingestion, acknowledgement
    only after storage.
  \<^item> Acquisition: exact integer decoding, the error cases of \<open>Decode\<close>, block plans that cover and partition the points, honest and well-typed
    readings, termination of a cancelled poller, and \<open>Reload\<close> as a function of the configuration.
  \<^item> Configuration: integrity of the tables, round trips, validity of everything the API can store, import of an
    export as the identity and, exactly when the keys of its data points run ahead, as a copy on a fresh gateway, settings that survive the restart, and the ways in which an import or a settings page misbehaves.
  \<^item> Services: confirm-or-revert of network changes, accuracy of the NTP offset, migrations applied once and in order,
    the log page as a suffix of the log, agreement of topics between gateway and server, a wall clock that survives a reboot through the
    hardware clock, an upgrade that keeps the configuration, a watchdog that forces a stale MQTT connection to reconnect, requests that
    change the state only as the step relation allows, a resource panel that degrades field by field, and the retention period that overflows.

  \<^bold>\<open>Not modelled.\<close> Third-party libraries (paho, goburrow, chi, SQLite, PostgreSQL, YAML, gopsutil, nmcli, the ioctl calls of the hardware
  clock) are parameters or appear through what they answer, and what is relied on of them is a hypothesis of the theorem. Command line
  flags, signal handling and the order in which a process tears its parts down (a stop is the single step \<open>stop_process\<close>), the pool
  settings of the databases, and the static page of the internal server are left out: they decide nothing the theorems speak of.
  Log lines are left out except in \<open>Logs\<close>. JSON and timestamps are modelled by the values they encode, SQL text by its effect on the rows.
  Values of coils and discrete inputs are covered by the theorems on honest and well-typed readings but not by \<open>Measured\<close>, which
  speaks of registers. The network configuration and the time service share no state with polling, queue and forwarding; they are verified in
  theories of their own and are not steps of \<open>gw_step\<close>.
\<close>

end
